(* ===== verification/Prelude.thy ===== *)
theory Prelude
  imports Main "HOL-Library.Word" "HOL-Library.Signed_Division"
begin

text \<open>
  Shared vocabulary of the development: the types that name the model's data
  (addresses, scanline rows, the rendering callback, DMA memory), the error values
  that stand for the C++ code's crashes and undefined behaviour, the C integer
  operators that the source uses (truncating \<open>/\<close> and \<open>%\<close>, array indexing),
  a model of the ESP-IDF \<open>heap_caps_malloc\<close>/\<open>heap_caps_free\<close> allocator, and
  the generic lemmas on them that the component theories share.
\<close>

unbundle bit_operations_syntax

named_theorems c_arith "facts that turn C integer operators on non-negative operands into HOL ones"

section \<open>Types of the model\<close>

text \<open>
  A pointer is a byte address; address \<open>0\<close> is \<open>nullptr\<close>. A scanline buffer holds
  one row of raw pixel bytes. The rendering callback is modelled by the row it
  produces for each scanline index (the opaque context pointer is folded into it).
  DMA-capable memory maps the start address of each row buffer to its contents.
\<close>

type_synonym addr = nat
type_synonym row = "8 word list"
type_synonym draw_callback = "int \<Rightarrow> row"
type_synonym memory = "addr \<Rightarrow> row"

abbreviation nullptr :: addr where
  "nullptr \<equiv> 0"

text \<open>
  Every way the C++ code can crash or run into undefined behaviour is a value:
  a null dereference, a division or remainder by zero, a failed allocation that
  the code then uses, an array index out of range, a free of a pointer the
  allocator does not own, \<open>abort()\<close>, a read of a pointer that was never
  written.
\<close>

datatype vdc_error =
    NullPointer
  | DivisionByZero
  | AllocationFailed
  | IndexOutOfRange
  | InvalidFree
  | Aborted
  | UninitializedRead

text \<open>
  Sequencing of fallible steps: the first error stops the computation, as the
  crash would.
\<close>

fun ebind :: "'e + 'a \<Rightarrow> ('a \<Rightarrow> 'e + 'b) \<Rightarrow> 'e + 'b" where
  "ebind (Inl e) f = Inl e"
| "ebind (Inr a) f = f a"

text \<open>
  C's \<open>/\<close> and \<open>%\<close> on \<open>int\<close> truncate towards zero: they are \<open>sdiv\<close> and \<open>smod\<close>
  of HOL-Library.Signed_Division, and they are undefined for a zero divisor, which
  \<open>c_div\<close> and \<open>c_mod\<close> return as an error.
\<close>

definition c_div :: "int \<Rightarrow> int \<Rightarrow> vdc_error + int" where
  "c_div a b = (if b = 0 then Inl DivisionByZero else Inr (a sdiv b))"

definition c_mod :: "int \<Rightarrow> int \<Rightarrow> vdc_error + int" where
  "c_mod a b = (if b = 0 then Inl DivisionByZero else Inr (a smod b))"

text \<open>Reading \<open>a[i]\<close> of an array of known length: out of range is an error.\<close>

definition c_index :: "'a list \<Rightarrow> int \<Rightarrow> vdc_error + 'a" where
  "c_index xs i = (if 0 \<le> i \<and> i < int (length xs) then Inr (xs ! nat i) else Inl IndexOutOfRange)"

text \<open>Writing \<open>a[i] = v\<close>.\<close>

definition c_update :: "'a list \<Rightarrow> int \<Rightarrow> 'a \<Rightarrow> vdc_error + 'a list" where
  "c_update xs i v = (if 0 \<le> i \<and> i < int (length xs) then Inr (xs[nat i := v]) else Inl IndexOutOfRange)"

text \<open>
  \<open>heap_caps_malloc\<close> and \<open>heap_caps_free\<close> are library calls, not code of the
  repository. They are modelled as a bump allocator over a bounded region that
  records its live blocks and counts allocations and frees: enough to state that
  the controller frees what it allocated, exactly once. A request of size zero
  or less, or one that does not fit, returns \<open>nullptr\<close>. Freeing \<open>nullptr\<close> is
  a no-op, as in C; freeing a pointer that is not a live block is an error.
\<close>

record heap =
  hp_next :: addr
  hp_limit :: nat
  hp_live :: "(addr \<times> nat) list"
  hp_allocs :: nat
  hp_frees :: nat

definition heap_caps_malloc :: "heap \<Rightarrow> int \<Rightarrow> addr \<times> heap" where
  "heap_caps_malloc h sz =
     (if 0 < sz \<and> hp_next h + nat sz \<le> hp_limit h
      then (hp_next h,
            h\<lparr>hp_next := hp_next h + nat sz,
              hp_live := (hp_next h, nat sz) # hp_live h,
              hp_allocs := Suc (hp_allocs h)\<rparr>)
      else (nullptr, h))"

definition heap_caps_free :: "heap \<Rightarrow> addr \<Rightarrow> vdc_error + heap" where
  "heap_caps_free h p =
     (if p = nullptr then Inr h
      else if p \<in> set (map fst (hp_live h))
      then Inr (h\<lparr>hp_live := filter (\<lambda>b. fst b \<noteq> p) (hp_live h), hp_frees := Suc (hp_frees h)\<rparr>)
      else Inl InvalidFree)"

text \<open>
  C++ \<open>new T[n]\<close> never returns \<open>nullptr\<close>: when the allocation fails it throws
  \<open>std::bad_alloc\<close>, which nothing catches, so the program aborts. A request
  for no elements still returns a fresh pointer.
\<close>

definition cxx_new_array :: "heap \<Rightarrow> int \<Rightarrow> vdc_error + addr \<times> heap" where
  "cxx_new_array h sz =
     (let (p, h') = heap_caps_malloc h (max 1 sz) in
      if p = nullptr then Inl Aborted else Inr (p, h'))"

text \<open>
  A well-formed heap hands out non-null addresses below its bump pointer, and its
  live blocks have distinct start addresses.
\<close>

definition heap_wf :: "heap \<Rightarrow> bool" where
  "heap_wf h \<longleftrightarrow> 0 < hp_next h \<and> hp_next h \<le> hp_limit h \<and>
     distinct (map fst (hp_live h)) \<and>
     (\<forall>a n. (a, n) \<in> set (hp_live h) \<longrightarrow> 0 < a \<and> 0 < n \<and> a + n \<le> hp_next h)"

lemma ebind_case:
  "ebind x f = (case x of Inl e \<Rightarrow> Inl e | Inr a \<Rightarrow> f a)"
  by (cases x) auto

lemma ebind_Inr_right [simp]:
  "ebind x Inr = x"
  by (cases x) auto

lemma ebind_Inr_iff:
  "ebind x f = Inr b \<longleftrightarrow> (\<exists>a. x = Inr a \<and> f a = Inr b)"
  by (cases x) auto

section \<open>C integer operators\<close>

lemma sdiv_nonneg_eq_div [c_arith]:
  "0 \<le> a \<Longrightarrow> 0 \<le> b \<Longrightarrow> (a::int) sdiv b = a div b"
  by (auto simp: signed_divide_int_def sgn_if)

lemma smod_nonneg_eq_mod [c_arith]:
  "0 \<le> a \<Longrightarrow> 0 \<le> b \<Longrightarrow> (a::int) smod b = a mod b"
  by (rule smod_mod_positive)

lemma c_div_pos [simp]:
  "0 \<le> a \<Longrightarrow> 0 < b \<Longrightarrow> c_div a b = Inr (a div b)"
  by (simp add: c_div_def c_arith)

lemma c_mod_pos [simp]:
  "0 \<le> a \<Longrightarrow> 0 < b \<Longrightarrow> c_mod a b = Inr (a mod b)"
  by (simp add: c_mod_def c_arith)

lemma c_index_nat [simp]:
  "i < length xs \<Longrightarrow> c_index xs (int i) = Inr (xs ! i)"
  by (simp add: c_index_def)

lemma c_index_Inr:
  "c_index xs i = Inr x \<longleftrightarrow> 0 \<le> i \<and> i < int (length xs) \<and> x = xs ! nat i"
  by (auto simp: c_index_def)

lemma c_index_in_set:
  "c_index xs i = Inr x \<Longrightarrow> x \<in> set xs"
  by (simp add: c_index_Inr) (metis nat_less_iff nth_mem)

lemma c_update_nat [simp]:
  "i < length xs \<Longrightarrow> c_update xs (int i) v = Inr (xs[i := v])"
  by (simp add: c_update_def)

section \<open>Power-of-two masks\<close>

text \<open>
  The interrupt handler selects a buffer with \<open>x & (n - 1)\<close> where the chain
  builder uses \<open>x % n\<close>. For \<open>n = 2 ^ k\<close> the two agree on every integer.
\<close>

lemma and_pow2_minus_one_eq_mod:
  "(x::int) AND (2 ^ k - 1) = x mod 2 ^ k"
  by (simp flip: mask_eq_exp_minus_1 take_bit_eq_mask add: take_bit_eq_mod)

text \<open>
  The converse: for a positive \<open>n\<close> that is not a power of two, \<open>n AND (n - 1)\<close> keeps
  a bit, so the mask differs from the remainder at \<open>n\<close> itself.
\<close>

lemma and_minus_one_non_pow2:
  "0 < n \<Longrightarrow> (\<forall>k. n \<noteq> 2 ^ k) \<Longrightarrow> int n AND (int n - 1) \<noteq> 0"
proof (induction n rule: less_induct)
  case (less n)
  show ?case
  proof (cases "even n")
    case True
    then obtain m where n: "n = 2 * m" by blast
    have m: "0 < m" "m < n" "\<forall>k. m \<noteq> 2 ^ k"
      using less.prems n by (auto simp flip: power_Suc)
    have e: "int n = 2 * int m" "int n - 1 = 2 * (int m - 1) + 1" using n m(1) by simp_all
    have "int n AND (int n - 1) = (2 * int m) AND (2 * (int m - 1) + 1)" by (simp add: e(1) algebra_simps)
    also have "\<dots> = 2 * (int m AND (int m - 1))"
    proof -
      have d: "(2 * (int m - 1) + 1) div 2 = int m - 1" by presburger
      show ?thesis by (subst and_int_rec, subst d) simp
    qed
    finally have "int n AND (int n - 1) = 2 * (int m AND (int m - 1))" .
    then show ?thesis using less.IH[OF m(2) m(1) m(3)] by simp
  next
    case False
    then obtain m where n: "n = 2 * m + 1" using oddE by blast
    have "m \<noteq> 0" using less.prems(2) n by (metis add_0 mult_0_right power_0)
    moreover have "int n AND (int n - 1) = (2 * int m + 1) AND (2 * int m)" by (simp add: n algebra_simps)
    moreover have "(2 * int m + 1) AND (2 * int m) = 2 * int m" by (subst and_int_rec) simp
    ultimately show ?thesis by simp
  qed
qed

section \<open>Row buffers laid out back to back\<close>

text \<open>
  The line buffers are carved out of one block: buffer \<open>i\<close> starts at
  \<open>base + i * w\<close>. For a positive width the starts are distinct.
\<close>

lemma row_start_inj:
  "0 < (w::nat) \<Longrightarrow> base + i * w = base + j * w \<longleftrightarrow> i = j"
  by simp

section \<open>The ESP-IDF heap\<close>

lemma heap_wf_fresh:
  "heap_wf h \<Longrightarrow> hp_next h \<notin> set (map fst (hp_live h))"
  by (force simp: heap_wf_def)

lemma heap_caps_malloc_wf:
  assumes "heap_wf h" and "heap_caps_malloc h sz = (p, h')"
  shows "heap_wf h'"
proof (cases "0 < sz \<and> hp_next h + nat sz \<le> hp_limit h")
  case True
  have blocks: "\<forall>a n. (a, n) \<in> set (hp_live h) \<longrightarrow> 0 < a \<and> 0 < n \<and> a + n \<le> hp_next h + nat sz"
    using assms(1) unfolding heap_wf_def by (meson trans_le_add1)
  show ?thesis
    using assms True heap_wf_fresh [OF assms(1)] blocks
    by (auto simp: heap_caps_malloc_def heap_wf_def)
next
  case False
  then show ?thesis using assms by (auto simp: heap_caps_malloc_def split: if_splits)
qed

lemma heap_caps_malloc_fresh:
  assumes "heap_wf h" and "heap_caps_malloc h sz = (p, h')" and "p \<noteq> nullptr"
  shows "p \<notin> set (map fst (hp_live h))"
    and "hp_live h' = (p, nat sz) # hp_live h"
    and "hp_allocs h' = Suc (hp_allocs h)"
    and "hp_frees h' = hp_frees h"
    and "0 < sz"
  using assms heap_wf_fresh [OF assms(1)]
  by (auto simp: heap_caps_malloc_def split: if_splits)

lemma heap_caps_malloc_null:
  "heap_wf h \<Longrightarrow> heap_caps_malloc h sz = (nullptr, h') \<Longrightarrow> h' = h"
  by (auto simp: heap_caps_malloc_def heap_wf_def split: if_splits)

lemma heap_caps_malloc_nonnull_cases:
  assumes "heap_wf h" and "heap_caps_malloc h sz = (p, h')"
  shows "p = nullptr \<and> h' = h \<or>
         p \<noteq> nullptr \<and> p \<notin> set (map fst (hp_live h)) \<and> hp_live h' = (p, nat sz) # hp_live h \<and>
         hp_allocs h' = Suc (hp_allocs h) \<and> hp_frees h' = hp_frees h \<and> 0 < sz"
  using assms heap_caps_malloc_null [OF assms(1)] heap_caps_malloc_fresh [OF assms(1,2)]
  by (cases "p = nullptr") auto

lemma heap_caps_free_live_block:
  assumes "(p, n) \<in> set (hp_live h)" and "p \<noteq> nullptr"
  shows "heap_caps_free h p = Inr (h\<lparr>hp_live := filter (\<lambda>b. fst b \<noteq> p) (hp_live h), hp_frees := Suc (hp_frees h)\<rparr>)"
  using assms by (force simp: heap_caps_free_def)

lemma cxx_new_array_wf:
  "heap_wf h \<Longrightarrow> cxx_new_array h sz = Inr (p, h') \<Longrightarrow> heap_wf h'"
  by (auto simp: cxx_new_array_def heap_caps_malloc_wf split: prod.splits if_splits)

lemma cxx_new_array_fresh:
  assumes "heap_wf h" and "cxx_new_array h sz = Inr (p, h')"
  shows "p \<noteq> nullptr" and "p \<notin> set (map fst (hp_live h))"
    and "hp_live h' = (p, nat (max 1 sz)) # hp_live h"
    and "hp_allocs h' = Suc (hp_allocs h)" and "hp_frees h' = hp_frees h"
proof -
  obtain q h'' where m: "heap_caps_malloc h (max 1 sz) = (q, h'')"
    by fastforce
  with assms(2) have q: "q = p" "h'' = h'" "p \<noteq> nullptr"
    by (auto simp: cxx_new_array_def split: if_splits)
  show "p \<noteq> nullptr" by (fact q(3))
  show "p \<notin> set (map fst (hp_live h))" "hp_live h' = (p, nat (max 1 sz)) # hp_live h"
       "hp_allocs h' = Suc (hp_allocs h)" "hp_frees h' = hp_frees h"
    using heap_caps_malloc_fresh [OF assms(1) m] q by auto
qed

lemma heap_caps_free_wf:
  assumes "heap_wf h" and "heap_caps_free h p = Inr h'"
  shows "heap_wf h'"
proof -
  have "h' = h \<or> hp_live h' = filter (\<lambda>b. fst b \<noteq> p) (hp_live h) \<and> hp_next h' = hp_next h \<and> hp_limit h' = hp_limit h"
    using assms(2) by (auto simp: heap_caps_free_def split: if_splits)
  then show ?thesis
    using assms(1) unfolding heap_wf_def by (auto simp: distinct_map_filter)
qed

lemma heap_caps_free_live:
  "heap_caps_free h p = Inr h' \<Longrightarrow> p \<noteq> nullptr \<Longrightarrow>
     hp_live h' = filter (\<lambda>b. fst b \<noteq> p) (hp_live h) \<and> hp_frees h' = Suc (hp_frees h)"
  by (auto simp: heap_caps_free_def split: if_splits)

lemma filter_fresh_block [simp]:
  "p \<notin> set (map fst L) \<Longrightarrow> filter (\<lambda>b. fst b \<noteq> p) L = L"
  by (induction L) auto

lemma heap_caps_free_null [simp]:
  "heap_caps_free h nullptr = Inr h"
  by (simp add: heap_caps_free_def)

lemma heap_caps_free_fresh_block:
  assumes "p \<notin> set (map fst live)"
  shows "filter (\<lambda>b. fst b \<noteq> p) ((p, n) # live) = live"
  using assms by (induction live) auto

text \<open>Releasing the most recent blocks of a well-formed heap leaves it well-formed.\<close>

lemma heap_wf_suffix:
  assumes "heap_wf h" and "hp_live h = Bs @ hp_live h'"
    and "hp_next h' = hp_next h" and "hp_limit h' = hp_limit h"
  shows "heap_wf h'"
  using assms by (auto simp: heap_wf_def)

text \<open>Bit tricks of the source on non-negative values and on bytes.\<close>

lemma xor2_bound:
  assumes "0 \<le> (x::int)" and "x < W" and "W mod 4 = 0"
  shows "0 \<le> x XOR 2 \<and> x XOR 2 < W"
proof -
  have "drop_bit 2 (x XOR 2) = drop_bit 2 x" by (simp add: drop_bit_xor)
  then have q: "(x XOR 2) div 4 = x div 4" by (simp add: drop_bit_eq_div)
  have nn: "0 \<le> x XOR 2" using assms(1) by simp
  have e1: "x XOR 2 = 4 * ((x XOR 2) div 4) + (x XOR 2) mod 4" by simp
  have e2: "x = 4 * (x div 4) + x mod 4" by simp
  have e3: "W = 4 * (W div 4)" using assms(3) div_mult_mod_eq [of W 4] by simp
  have "0 \<le> x mod 4" "x mod 4 < 4" "(x XOR 2) mod 4 < 4" by simp_all
  then show ?thesis using nn q e1 e2 e3 assms(2) by presburger
qed

lemma and3_word: "(p::8 word) AND 3 = of_nat (unat p mod 4)"
proof (rule word_unat_eq_iff [THEN iffD2])
  have "(p::8 word) AND 3 = take_bit 2 p" by (simp add: take_bit_eq_mask mask_numeral)
  then have "unat (p AND 3) = unat p mod 4" by (simp only:) (subst unsigned_take_bit_eq, simp add: take_bit_eq_mod)
  moreover have "unat (of_nat (unat p mod 4) :: 8 word) = unat p mod 4"
    by (simp add: unat_of_nat)
  ultimately show "unat (p AND 3) = unat (of_nat (unat p mod 4) :: 8 word)" by simp
qed

lemma unat_drop_bit_word: "unat (drop_bit n (p::8 word)) = unat p div 2 ^ n"
  by (subst unat_drop_bit_eq) (simp add: drop_bit_eq_div)

text \<open>Base-4 digits of a packed byte.\<close>

lemma digit4:
  assumes "a < (4::nat)"
  shows "(a + 4 * c) mod 4 = a" and "(a + 4 * c) div 4 = c"
  using assms by simp_all

lemma base4_digits:
  assumes "r < 4" "g < 4" "b < (4::nat)"
  shows "(r + 4 * g + 16 * b + 64 * s) mod 4 = r \<and> (r + 4 * g + 16 * b + 64 * s) div 4 mod 4 = g \<and>
         (r + 4 * g + 16 * b + 64 * s) div 16 mod 4 = b"
proof -
  have e: "r + 4 * g + 16 * b + 64 * s = r + 4 * (g + 4 * (b + 4 * s))" by simp
  have d16: "(r + 4 * (g + 4 * (b + 4 * s))) div 16 = (r + 4 * (g + 4 * (b + 4 * s))) div 4 div 4"
    by (simp add: div_mult2_eq)
  show ?thesis unfolding e d16 by (simp only: digit4 assms)
qed
text \<open>Positions in a ring of blocks of \<open>N\<close> slots: a block start, and the number of block starts before a position.\<close>

lemma block_eof_iff:
  assumes "0 < (S::nat)"
  shows "(pos mod S = 0 \<and> pos div S mod n = 0) \<longleftrightarrow> pos mod (n * S) = 0"
proof -
  have e: "pos mod (S * n) = S * (pos div S mod n) + pos mod S" by (rule mod_mult2_eq)
  show ?thesis using assms by (simp add: e mult.commute [of n S]) blast
qed

lemma ceil_div_step:
  assumes "0 < (N::nat)"
  shows "(pos + N) div N = (pos + N - 1) div N + (if pos mod N = 0 then 1 else 0)"
proof -
  obtain a b where ab: "pos = a * N + b" "b < N" "b = pos mod N"
    using assms div_mult_mod_eq [of pos N] mod_less_divisor [OF assms] by metis
  have eq: "pos + N = b + Suc a * N" using ab(1) by simp
  have "(b + Suc a * N) div N = Suc a + b div N" using assms by (intro div_mult_self1) simp
  then have d1: "(pos + N) div N = Suc a + b div N" by (simp only: eq)
  show ?thesis
  proof (cases "b = 0")
    case True
    have eq0: "pos + N - 1 = (N - 1) + a * N" using ab(1) True assms by simp
    have "((N - 1) + a * N) div N = a + (N - 1) div N" using assms by (intro div_mult_self1) simp
    then have "(pos + N - 1) div N = a" using assms by (simp only: eq0) simp
    then show ?thesis using d1 True ab(3) by simp
  next
    case False
    have eq1: "pos + N - 1 = (b - 1) + Suc a * N" using ab(1) False by simp
    have "((b - 1) + Suc a * N) div N = Suc a + (b - 1) div N" using assms by (intro div_mult_self1) simp
    then have "(pos + N - 1) div N = Suc a" using ab(2) by (simp only: eq1) simp
    then show ?thesis using d1 False ab(2,3) by simp
  qed
qed
text \<open>A C \<open>int\<close> addition that stays in range does not wrap.\<close>

lemma sint_word_of_int_add:
  assumes "- (2 ^ 31) \<le> a + b" and "a + b < 2 ^ 31"
  shows "sint (word_of_int a + word_of_int b :: 32 word) = a + b"
proof -
  have "(word_of_int a + word_of_int b :: 32 word) = word_of_int (a + b)" by simp
  then show ?thesis using assms by (simp only: sint_sbintrunc') (simp add: signed_take_bit_int_eq_self)
qed
end
