(* ===== verification/Controller.thy ===== *)
theory Controller
  imports Prelude
begin

text \<open>
  The state of \<open>fabgl::VGADirectController\<close> (src/src/dispdrivers/vgadirectcontroller.h,
  lines 246-262, and the statics of vgadirectcontroller.cpp, lines 66-72), with the
  fields of its base class \<open>VGABaseController\<close> that its methods read (viewport
  size, DMA descriptor chain, interrupt handle), and the environment it drives
  (DMA memory, the heap, the I2S interrupt allocation). Also the constructor and
  the inline setters and getters of the header.
\<close>

section \<open>DMA descriptors\<close>

text \<open>
  An ESP32 \<open>lldesc_t\<close> as far as this controller touches it: the buffer it
  transmits and its \<open>eof\<close> bit, which makes the I2S peripheral raise
  \<open>out_eof\<close> when the descriptor has been consumed. Descriptors live in an arena
  (the base controller's \<open>m_DMABuffers\<close>) and are named by their index in it, so
  the pointer comparisons of the source become index comparisons.
\<close>

record lldesc =
  desc_buf :: addr
  desc_eof :: bool

type_synonym desc_id = nat

section \<open>The controller object\<close>

text \<open>
  Fields, with the source's name:
  \<^item> \<open>lines_count\<close>: \<open>m_linesCount\<close> (\<open>int32_t\<close>), the pool size;
  \<^item> \<open>lines_tbl\<close>, \<open>lines\<close>: the pointer \<open>m_lines\<close> (\<open>nullptr\<close> = 0) and the entries of the
    table it points to;
  \<^item> \<open>draw_cb\<close>: \<open>m_drawScanlineCallback\<close> with \<open>m_drawScanlineArg\<close> (None = \<open>nullptr\<close>);
  \<^item> \<open>auto_run\<close>: \<open>m_autoRun\<close>;
  \<^item> \<open>isr_handle\<close>: whether the base's \<open>m_isr_handle\<close> is non-null;
  \<^item> \<open>vp_width\<close>, \<open>vp_height\<close>: the base's \<open>m_viewPortWidth\<close>, \<open>m_viewPortHeight\<close>;
  \<^item> \<open>scan_line\<close>, \<open>vsync\<close>, \<open>frame_reset_desc\<close>: the statics \<open>s_scanLine\<close>, \<open>s_VSync\<close>,
    \<open>s_frameResetDesc\<close> (None while never assigned);
  \<^item> \<open>dma_lines_tbl\<close>, \<open>dma_lines\<close>: the static \<open>s_DMALines\<close> and the entries of its
    array (None = never written, reading it is undefined);
  \<^item> \<open>chain\<close>: the base's descriptor arena \<open>m_DMABuffers\<close>;
  \<^item> \<open>mem\<close>: the contents of the DMA-capable row buffers;
  \<^item> \<open>vdc_heap\<close>: the allocator;
  \<^item> \<open>intr_allocs\<close>: the number of \<open>esp_intr_alloc_pinnedToCore\<close> calls made;
  \<^item> \<open>gpio_streaming\<close>, \<open>eof_intr_enabled\<close>: \<open>startGPIOStream()\<close> has run, and
    \<open>I2S1.int_ena.out_eof\<close> is set.
\<close>

record vdc =
  lines_count :: int
  lines_tbl :: addr
  lines :: "addr list"
  draw_cb :: "draw_callback option"
  auto_run :: bool
  isr_handle :: bool
  vp_width :: int
  vp_height :: int
  scan_line :: int
  vsync :: bool
  frame_reset_desc :: "desc_id option"
  dma_lines_tbl :: addr
  dma_lines :: "desc_id option list"
  chain :: "lldesc list"
  mem :: memory
  vdc_heap :: heap
  intr_allocs :: nat
  gpio_streaming :: bool
  eof_intr_enabled :: bool

section \<open>Constructor and inline members\<close>

text \<open>
  \<open>VGADirectController(bool autoRun)\<close> (cpp lines 76-83): two line buffers, no
  table, no callback. The statics start zero-initialised. The base constructor
  leaves the interrupt handle null and allocates nothing; the memory contents and
  the heap are the environment's.
\<close>

definition VGADirectController :: "bool \<Rightarrow> memory \<Rightarrow> heap \<Rightarrow> vdc" where
  "VGADirectController autoRun m h =
     \<lparr>lines_count = 2, lines_tbl = nullptr, lines = [], draw_cb = None,
      auto_run = autoRun, isr_handle = False, vp_width = 0, vp_height = 0,
      scan_line = 0, vsync = False, frame_reset_desc = None,
      dma_lines_tbl = nullptr, dma_lines = [], chain = [], mem = m, vdc_heap = h,
      intr_allocs = 0, gpio_streaming = False, eof_intr_enabled = False\<rparr>"

text \<open>\<open>setDrawScanlineCallback(cb, arg)\<close> (header line 116).\<close>

definition setDrawScanlineCallback :: "draw_callback option \<Rightarrow> vdc \<Rightarrow> vdc" where
  "setDrawScanlineCallback cb st = st\<lparr>draw_cb := cb\<rparr>"

text \<open>
  \<open>setScanlinesPerCallBack(value)\<close> (header line 132) stores \<open>value * 2\<close> without
  any check: neither positivity nor a power of two is enforced.
\<close>

definition setScanlinesPerCallBack :: "int \<Rightarrow> vdc \<Rightarrow> vdc" where
  "setScanlinesPerCallBack value st = st\<lparr>lines_count := value * 2\<rparr>"

text \<open>\<open>VSync()\<close> (header line 166).\<close>

definition VSync :: "vdc \<Rightarrow> bool" where
  "VSync st = vsync st"

text \<open>
  The number of scanlines each callback invocation fills: \<open>m_linesCount / 2\<close>,
  the expression the interrupt handler and the chain builder both use.
\<close>

definition lines_per_cb :: "vdc \<Rightarrow> int" where
  "lines_per_cb st = lines_count st sdiv 2"

lemma lines_per_cb_setScanlinesPerCallBack:
  "lines_per_cb (setScanlinesPerCallBack v st) = v"
  by (simp add: lines_per_cb_def setScanlinesPerCallBack_def signed_divide_int_def sgn_mult abs_mult)
     (auto simp: sgn_if)

end
