(* ===== verification/BufferPool.thy ===== *)
theory BufferPool
  imports Controller
begin

text \<open>
  The line buffer pool of vgadirectcontroller.cpp: \<open>allocateViewPort\<close> (lines 93-102),
  \<open>freeViewPort\<close> (lines 105-115) and \<open>getDefaultScanlineBuffer\<close> (lines 198-201).
  The pool is one DMA-capable block of \<open>m_linesCount\<close> rows of \<open>m_viewPortWidth\<close>
  bytes, indexed by a separately allocated table of row pointers; the hardware build
  also allocates the array \<open>s_DMALines\<close> that maps each visible row to its descriptor.
\<close>

section \<open>Operations\<close>

text \<open>
  The loop \<open>for (int i = 1; i < m_linesCount; ++i) m_lines[i] = m_lines[0] + i * m_viewPortWidth\<close>,
  over the table's entries.
\<close>

function lines_loop :: "nat \<Rightarrow> nat \<Rightarrow> addr \<Rightarrow> nat \<Rightarrow> addr list \<Rightarrow> addr list" where
  "lines_loop i n p0 w tbl =
     (if i < n then lines_loop (Suc i) n p0 w (tbl[i := p0 + i * w]) else tbl)"
  by pat_completeness auto
termination
  by (relation "measure (\<lambda>(i, n, _). n - i)") auto

declare lines_loop.simps [simp del]

text \<open>
  \<open>allocateViewPort()\<close>. The table of \<open>m_linesCount\<close> pointers (4 bytes each) comes
  from \<open>heap_caps_malloc\<close>; if that returns \<open>nullptr\<close> (in particular when
  \<open>m_linesCount \<le> 0\<close>), the store to \<open>m_lines[0]\<close> faults. The pool of
  \<open>m_viewPortWidth * m_linesCount\<close> bytes comes from the DMA heap; its result is not
  checked, so a failed allocation leaves a table of offsets from \<open>nullptr\<close>.
  \<open>s_DMALines = new lldesc_t *[m_viewPortHeight]\<close> has no initialised entries.
\<close>

definition allocateViewPort :: "vdc \<Rightarrow> vdc_error + vdc" where
  "allocateViewPort st =
     (let lc = lines_count st; w = vp_width st; h = vp_height st;
          (tbl, h1) = heap_caps_malloc (vdc_heap st) (4 * lc)
      in if tbl = nullptr then Inl NullPointer
         else
           let (p0, h2) = heap_caps_malloc h1 (w * lc);
               entries = lines_loop 1 (nat lc) p0 (nat w) ((replicate (nat lc) nullptr)[0 := p0])
           in case cxx_new_array h2 (4 * h) of
                Inl e \<Rightarrow> Inl e
              | Inr (dtbl, h3) \<Rightarrow>
                  Inr (st\<lparr>lines_tbl := tbl, lines := entries, vdc_heap := h3,
                         dma_lines_tbl := dtbl, dma_lines := replicate (nat h) None\<rparr>))"

text \<open>
  \<open>freeViewPort()\<close>. The base class's part frees nothing that this controller
  allocates. \<open>m_lines[0]\<close> is read through \<open>m_lines\<close> without a null check, so a
  second call (or a call before any allocation) faults. \<open>s_DMALines\<close> is deleted but
  not reset.
\<close>

definition freeViewPort :: "vdc \<Rightarrow> vdc_error + vdc" where
  "freeViewPort st =
     (if lines_tbl st = nullptr then Inl NullPointer
      else case c_index (lines st) 0 of
        Inl e \<Rightarrow> Inl e
      | Inr p0 \<Rightarrow>
          (case heap_caps_free (vdc_heap st) p0 of
             Inl e \<Rightarrow> Inl e
           | Inr h1 \<Rightarrow>
               (case heap_caps_free h1 (lines_tbl st) of
                  Inl e \<Rightarrow> Inl e
                | Inr h2 \<Rightarrow>
                    (case heap_caps_free h2 (dma_lines_tbl st) of
                       Inl e \<Rightarrow> Inl e
                     | Inr h3 \<Rightarrow> Inr (st\<lparr>lines_tbl := nullptr, lines := [], vdc_heap := h3\<rparr>)))))"

text \<open>\<open>getDefaultScanlineBuffer(scanline)\<close>: \<open>m_lines[scanline % m_linesCount]\<close>.\<close>

definition getDefaultScanlineBuffer :: "vdc \<Rightarrow> int \<Rightarrow> vdc_error + addr" where
  "getDefaultScanlineBuffer st scanline =
     (if lines_tbl st = nullptr then Inl NullPointer
      else case c_mod scanline (lines_count st) of
        Inl e \<Rightarrow> Inl e
      | Inr i \<Rightarrow> c_index (lines st) i)"

section \<open>The pointer table\<close>

text \<open>
  The pool's layout: entry \<open>i\<close> of the table is \<open>p0 + i * w\<close>. The loop computes
  exactly this list.
\<close>

definition pool_rows :: "addr \<Rightarrow> nat \<Rightarrow> nat \<Rightarrow> addr list" where
  "pool_rows p0 w n = map (\<lambda>i. p0 + i * w) [0..<n]"

text \<open>
  A small configuration for the concrete instances below: a 4 KiB heap and a
  controller with an 8-byte wide, 4-row viewport and the default pool of two rows.
\<close>

definition demo_heap :: heap where
  "demo_heap = \<lparr>hp_next = 1, hp_limit = 4096, hp_live = [], hp_allocs = 0, hp_frees = 0\<rparr>"

definition demo_vdc :: vdc where
  "demo_vdc = (VGADirectController True (\<lambda>_. []) demo_heap)\<lparr>vp_width := 8, vp_height := 4\<rparr>"

lemma lines_loop_eq:
  "length tbl = n \<Longrightarrow> \<forall>j<min i n. tbl ! j = p0 + j * w \<Longrightarrow>
     lines_loop i n p0 w tbl = pool_rows p0 w n"
proof (induction i n p0 w tbl rule: lines_loop.induct)
  case (1 i n p0 w tbl)
  show ?case
  proof (cases "i < n")
    case True
    have "\<forall>j<min (Suc i) n. tbl[i := p0 + i * w] ! j = p0 + j * w"
      using "1.prems" True by (auto simp: nth_list_update less_Suc_eq)
    then show ?thesis
      using "1.IH" [OF True] "1.prems"(1) True by (simp add: lines_loop.simps)
  next
    case False
    then have "\<forall>j<n. tbl ! j = p0 + j * w" using "1.prems"(2) by simp
    then show ?thesis
      using False "1.prems"(1) by (simp add: lines_loop.simps pool_rows_def list_eq_iff_nth_eq)
  qed
qed

lemma lines_loop_pool_rows:
  "lines_loop 1 n p0 w ((replicate n nullptr)[0 := p0]) = pool_rows p0 w n"
  by (rule lines_loop_eq) (auto simp: nth_list_update)

lemma pool_rows_nth [simp]:
  "i < n \<Longrightarrow> pool_rows p0 w n ! i = p0 + i * w"
  by (simp add: pool_rows_def)

lemma length_pool_rows [simp]:
  "length (pool_rows p0 w n) = n"
  by (simp add: pool_rows_def)

lemma pool_rows_distinct:
  "0 < w \<Longrightarrow> distinct (pool_rows p0 w n)"
  by (simp add: pool_rows_def distinct_map inj_on_def)

section \<open>A concrete configuration\<close>

lemma demo_vdc_heap_wf:
  "heap_wf (vdc_heap demo_vdc)"
  by (simp add: demo_vdc_def demo_heap_def VGADirectController_def heap_wf_def)

lemma demo_vdc_allocates:
  "\<exists>st1. allocateViewPort demo_vdc = Inr st1"
  by (simp add: allocateViewPort_def demo_vdc_def demo_heap_def VGADirectController_def
      heap_caps_malloc_def cxx_new_array_def)

lemma demo_vdc_alloc_free:
  "\<exists>st1 st2. allocateViewPort demo_vdc = Inr st1 \<and> freeViewPort st1 = Inr st2"
  by (simp add: allocateViewPort_def freeViewPort_def demo_vdc_def demo_heap_def
      VGADirectController_def heap_caps_malloc_def cxx_new_array_def heap_caps_free_def
      lines_loop_pool_rows [unfolded One_nat_def] c_index_def)

section \<open>Allocation and release\<close>

text \<open>
  What a successful \<open>allocateViewPort\<close> did: a fresh table, the pool rows laid out
  from \<open>p0\<close> (which is \<open>nullptr\<close> when the DMA allocation failed), and a fresh
  \<open>s_DMALines\<close> array; all other fields are unchanged.
\<close>

lemma allocateViewPort_Inr:
  assumes wf: "heap_wf (vdc_heap st)" and ok: "allocateViewPort st = Inr st'"
  obtains tbl p0 dtbl where
    "tbl \<noteq> nullptr" "dtbl \<noteq> nullptr" "0 < lines_count st"
    "st' = st\<lparr>lines_tbl := tbl, lines := pool_rows p0 (nat (vp_width st)) (nat (lines_count st)),
              vdc_heap := vdc_heap st', dma_lines_tbl := dtbl,
              dma_lines := replicate (nat (vp_height st)) None\<rparr>"
    "heap_wf (vdc_heap st')"
    "distinct (tbl # dtbl # map fst (hp_live (vdc_heap st)))"
    "p0 = nullptr \<and> hp_live (vdc_heap st') = (dtbl, nat (max 1 (4 * vp_height st))) # (tbl, nat (4 * lines_count st)) # hp_live (vdc_heap st)
       \<and> hp_allocs (vdc_heap st') = hp_allocs (vdc_heap st) + 2 \<and> hp_frees (vdc_heap st') = hp_frees (vdc_heap st)
     \<or> p0 \<noteq> nullptr \<and> p0 \<notin> set (tbl # dtbl # map fst (hp_live (vdc_heap st))) \<and>
       hp_live (vdc_heap st') = (dtbl, nat (max 1 (4 * vp_height st))) # (p0, nat (vp_width st * lines_count st)) # (tbl, nat (4 * lines_count st)) # hp_live (vdc_heap st)
       \<and> hp_allocs (vdc_heap st') = hp_allocs (vdc_heap st) + 3 \<and> hp_frees (vdc_heap st') = hp_frees (vdc_heap st)"
proof -
  obtain tbl h1 where m1: "heap_caps_malloc (vdc_heap st) (4 * lines_count st) = (tbl, h1)"
    by fastforce
  obtain p0 h2 where m2: "heap_caps_malloc h1 (vp_width st * lines_count st) = (p0, h2)"
    by fastforce
  have tbl: "tbl \<noteq> nullptr"
    using ok m1 by (auto simp: allocateViewPort_def Let_def split: if_splits)
  obtain dtbl h3 where n3: "cxx_new_array h2 (4 * vp_height st) = Inr (dtbl, h3)"
    using ok m1 m2 tbl by (auto simp: allocateViewPort_def Let_def split: sum.splits prod.splits)
  have st': "st' = st\<lparr>lines_tbl := tbl, lines := pool_rows p0 (nat (vp_width st)) (nat (lines_count st)),
              vdc_heap := h3, dma_lines_tbl := dtbl,
              dma_lines := replicate (nat (vp_height st)) None\<rparr>"
    using ok m1 m2 tbl n3 by (auto simp: allocateViewPort_def Let_def lines_loop_pool_rows [unfolded One_nat_def])
  have c1: "tbl \<notin> set (map fst (hp_live (vdc_heap st)))" "hp_live h1 = (tbl, nat (4 * lines_count st)) # hp_live (vdc_heap st)"
      "hp_allocs h1 = Suc (hp_allocs (vdc_heap st))" "hp_frees h1 = hp_frees (vdc_heap st)" "0 < 4 * lines_count st"
    using heap_caps_malloc_fresh [OF wf m1 tbl] by simp_all
  have wf1: "heap_wf h1" using heap_caps_malloc_wf [OF wf m1] .
  have wf2: "heap_wf h2" using heap_caps_malloc_wf [OF wf1 m2] .
  have c3: "dtbl \<noteq> nullptr" "dtbl \<notin> set (map fst (hp_live h2))" "hp_live h3 = (dtbl, nat (max 1 (4 * vp_height st))) # hp_live h2"
      "hp_allocs h3 = Suc (hp_allocs h2)" "hp_frees h3 = hp_frees h2"
    using cxx_new_array_fresh [OF wf2 n3] by simp_all
  have wf3: "heap_wf h3" using cxx_new_array_wf [OF wf2 n3] .
  have dist: "distinct (map fst (hp_live (vdc_heap st)))" using wf by (simp add: heap_wf_def)
  from heap_caps_malloc_nonnull_cases [OF wf1 m2]
  show thesis
  proof
    assume "p0 = nullptr \<and> h2 = h1"
    then show thesis
      using that [of tbl dtbl p0] tbl c1 c3 st' wf3 dist by auto
  next
    assume "p0 \<noteq> nullptr \<and> p0 \<notin> set (map fst (hp_live h1)) \<and> hp_live h2 = (p0, nat (vp_width st * lines_count st)) # hp_live h1 \<and>
         hp_allocs h2 = Suc (hp_allocs h1) \<and> hp_frees h2 = hp_frees h1 \<and> 0 < vp_width st * lines_count st"
    then show thesis
      using that [of tbl dtbl p0] tbl c1 c3 st' wf3 dist by auto
  qed
qed

text \<open>
  Releasing what an allocation set up, on any state that still holds the allocation's
  table, pool and \<open>s_DMALines\<close> (the chain builder and \<open>run()\<close> keep them): the
  blocks the allocation added to the heap, \<open>Bs\<close>, are exactly the blocks the release
  frees, each once.
\<close>

lemma allocate_then_free:
  assumes wf: "heap_wf (vdc_heap st)" and ok: "allocateViewPort st = Inr st1"
    and same: "lines_tbl st1' = lines_tbl st1" "lines st1' = lines st1"
      "dma_lines_tbl st1' = dma_lines_tbl st1" "vdc_heap st1' = vdc_heap st1"
  obtains Bs h2 where "freeViewPort st1' = Inr (st1'\<lparr>lines_tbl := nullptr, lines := [], vdc_heap := h2\<rparr>)"
    "hp_live (vdc_heap st1) = Bs @ hp_live (vdc_heap st)" "hp_live h2 = hp_live (vdc_heap st)"
    "hp_allocs (vdc_heap st1) = hp_allocs (vdc_heap st) + length Bs"
    "hp_frees (vdc_heap st1) = hp_frees (vdc_heap st)"
    "hp_allocs h2 = hp_allocs (vdc_heap st1)" "hp_frees h2 = hp_frees (vdc_heap st1) + length Bs"
    "hp_next h2 = hp_next (vdc_heap st1)" "hp_limit h2 = hp_limit (vdc_heap st1)"
proof -
  obtain tbl p0 dtbl where tbl: "tbl \<noteq> nullptr" and dtbl: "dtbl \<noteq> nullptr"
    and lc: "0 < lines_count st"
    and st1: "st1 = st\<lparr>lines_tbl := tbl, lines := pool_rows p0 (nat (vp_width st)) (nat (lines_count st)),
              vdc_heap := vdc_heap st1, dma_lines_tbl := dtbl,
              dma_lines := replicate (nat (vp_height st)) None\<rparr>"
    and dist: "distinct (tbl # dtbl # map fst (hp_live (vdc_heap st)))"
    and cases: "p0 = nullptr \<and> hp_live (vdc_heap st1) = (dtbl, nat (max 1 (4 * vp_height st))) # (tbl, nat (4 * lines_count st)) # hp_live (vdc_heap st)
       \<and> hp_allocs (vdc_heap st1) = hp_allocs (vdc_heap st) + 2 \<and> hp_frees (vdc_heap st1) = hp_frees (vdc_heap st)
     \<or> p0 \<noteq> nullptr \<and> p0 \<notin> set (tbl # dtbl # map fst (hp_live (vdc_heap st))) \<and>
       hp_live (vdc_heap st1) = (dtbl, nat (max 1 (4 * vp_height st))) # (p0, nat (vp_width st * lines_count st)) # (tbl, nat (4 * lines_count st)) # hp_live (vdc_heap st)
       \<and> hp_allocs (vdc_heap st1) = hp_allocs (vdc_heap st) + 3 \<and> hp_frees (vdc_heap st1) = hp_frees (vdc_heap st)"
    by (rule allocateViewPort_Inr [OF wf ok])
  have f: "lines st1' = pool_rows p0 (nat (vp_width st)) (nat (lines_count st))"
      "lines_tbl st1' = tbl" "dma_lines_tbl st1' = dtbl"
    using arg_cong [OF st1, of lines] arg_cong [OF st1, of lines_tbl] arg_cong [OF st1, of dma_lines_tbl] same
    by simp_all
  have l0: "c_index (lines st1') 0 = Inr p0"
    using lc f(1) by (simp add: c_index_def)
  let ?h2 = "\<lambda>k. vdc_heap st1\<lparr>hp_live := hp_live (vdc_heap st), hp_frees := hp_frees (vdc_heap st1) + k\<rparr>"
  from cases show thesis
  proof
    assume c: "p0 = nullptr \<and> hp_live (vdc_heap st1) = (dtbl, nat (max 1 (4 * vp_height st))) # (tbl, nat (4 * lines_count st)) # hp_live (vdc_heap st)
       \<and> hp_allocs (vdc_heap st1) = hp_allocs (vdc_heap st) + 2 \<and> hp_frees (vdc_heap st1) = hp_frees (vdc_heap st)"
    show thesis
      by (rule that [of "?h2 2" "[(dtbl, nat (max 1 (4 * vp_height st))), (tbl, nat (4 * lines_count st))]"])
         (use c l0 tbl dtbl dist f same in \<open>simp_all add: freeViewPort_def heap_caps_free_def\<close>)
  next
    assume c: "p0 \<noteq> nullptr \<and> p0 \<notin> set (tbl # dtbl # map fst (hp_live (vdc_heap st))) \<and>
       hp_live (vdc_heap st1) = (dtbl, nat (max 1 (4 * vp_height st))) # (p0, nat (vp_width st * lines_count st)) # (tbl, nat (4 * lines_count st)) # hp_live (vdc_heap st)
       \<and> hp_allocs (vdc_heap st1) = hp_allocs (vdc_heap st) + 3 \<and> hp_frees (vdc_heap st1) = hp_frees (vdc_heap st)"
    show thesis
      by (rule that [of "?h2 3" "[(dtbl, nat (max 1 (4 * vp_height st))), (p0, nat (vp_width st * lines_count st)), (tbl, nat (4 * lines_count st))]"])
         (use c l0 tbl dtbl dist f same in \<open>auto simp: freeViewPort_def heap_caps_free_def\<close>)
  qed
qed

text \<open>
  C19. Releasing a pool right after allocating it frees every block the allocation
  took, each exactly once: the heap's live blocks are those before the allocation,
  and the numbers of allocations and frees in between agree.
\<close>

theorem allocate_free_no_leak:
  assumes wf: "heap_wf (vdc_heap st)" and ok: "allocateViewPort st = Inr st1"
  shows "\<exists>st2. freeViewPort st1 = Inr st2 \<and> lines_tbl st2 = nullptr \<and>
           hp_live (vdc_heap st2) = hp_live (vdc_heap st) \<and>
           hp_allocs (vdc_heap st2) - hp_allocs (vdc_heap st) = hp_frees (vdc_heap st2) - hp_frees (vdc_heap st)"
proof -
  obtain Bs h2 where "freeViewPort st1 = Inr (st1\<lparr>lines_tbl := nullptr, lines := [], vdc_heap := h2\<rparr>)"
    "hp_live (vdc_heap st1) = Bs @ hp_live (vdc_heap st)" "hp_live h2 = hp_live (vdc_heap st)" "hp_allocs (vdc_heap st1) = hp_allocs (vdc_heap st) + length Bs"
    "hp_frees (vdc_heap st1) = hp_frees (vdc_heap st)"
    "hp_allocs h2 = hp_allocs (vdc_heap st1)" "hp_frees h2 = hp_frees (vdc_heap st1) + length Bs"
    "hp_next h2 = hp_next (vdc_heap st1)" "hp_limit h2 = hp_limit (vdc_heap st1)"
    by (rule allocate_then_free [OF wf ok refl refl refl refl])
  then show ?thesis by simp
qed

theorem allocate_free_no_leak_witness:
  "heap_wf (vdc_heap demo_vdc) \<and> (\<exists>st1. allocateViewPort demo_vdc = Inr st1 \<and>
     (\<exists>st2. freeViewPort st1 = Inr st2 \<and> lines_tbl st2 = nullptr \<and>
        hp_live (vdc_heap st2) = hp_live (vdc_heap demo_vdc)))"
proof -
  obtain st1 where a: "allocateViewPort demo_vdc = Inr st1" using demo_vdc_allocates by blast
  show ?thesis using allocate_free_no_leak [OF demo_vdc_heap_wf a] demo_vdc_heap_wf a by blast
qed

text \<open>
  C28. After \<open>allocateViewPort\<close>, the default buffer of scanline \<open>s \<ge> 0\<close> is row
  \<open>s mod m_linesCount\<close> of the pool: \<open>m_lines[0] + (s mod m_linesCount) * m_viewPortWidth\<close>.
\<close>

theorem getDefaultScanlineBuffer_pool:
  assumes "heap_wf (vdc_heap st)" and "allocateViewPort st = Inr st'" and "0 \<le> s"
  shows "getDefaultScanlineBuffer st' s =
           Inr (lines st' ! 0 + nat (s mod lines_count st) * nat (vp_width st))"
proof -
  obtain tbl p0 dtbl where tbl: "tbl \<noteq> nullptr" and lc: "0 < lines_count st"
    and st': "st' = st\<lparr>lines_tbl := tbl, lines := pool_rows p0 (nat (vp_width st)) (nat (lines_count st)),
              vdc_heap := vdc_heap st', dma_lines_tbl := dtbl,
              dma_lines := replicate (nat (vp_height st)) None\<rparr>"
    using allocateViewPort_Inr [OF assms(1,2)] by metis
  have f: "lines st' = pool_rows p0 (nat (vp_width st)) (nat (lines_count st))"
      "lines_tbl st' = tbl" "lines_count st' = lines_count st"
    using arg_cong [OF st', of lines] arg_cong [OF st', of lines_tbl] arg_cong [OF st', of lines_count]
    by simp_all
  have "nat (s mod lines_count st) < nat (lines_count st)"
    using lc by simp
  then show ?thesis
    using f tbl lc assms(3) by (simp add: getDefaultScanlineBuffer_def c_index_def)
qed

theorem getDefaultScanlineBuffer_pool_witness:
  "\<exists>st1. allocateViewPort demo_vdc = Inr st1 \<and>
     getDefaultScanlineBuffer st1 5 = Inr (lines st1 ! 0 + nat (5 mod lines_count demo_vdc) * nat (vp_width demo_vdc))"
proof -
  obtain st1 where a: "allocateViewPort demo_vdc = Inr st1" using demo_vdc_allocates by blast
  show ?thesis using getDefaultScanlineBuffer_pool [OF demo_vdc_heap_wf a, of 5] a by simp
qed

text \<open>
  C29. \<open>freeViewPort\<close> is not idempotent: after one successful release, \<open>m_lines\<close>
  is \<open>nullptr\<close> and a second call dereferences it.
\<close>

theorem freeViewPort_twice_faults:
  "freeViewPort st = Inr st' \<Longrightarrow> freeViewPort st' = Inl NullPointer"
  by (auto simp: freeViewPort_def split: if_splits sum.splits)

theorem freeViewPort_twice_faults_witness:
  "\<exists>st1 st2. allocateViewPort demo_vdc = Inr st1 \<and> freeViewPort st1 = Inr st2 \<and>
      freeViewPort st2 = Inl NullPointer"
proof -
  obtain st1 where a: "allocateViewPort demo_vdc = Inr st1" using demo_vdc_allocates by blast
  obtain st2 where f: "freeViewPort st1 = Inr st2"
    using demo_vdc_alloc_free a by auto
  show ?thesis using freeViewPort_twice_faults [OF f] a f by blast
qed

text \<open>
  C30. A failed DMA allocation of the pool is not detected. Take any heap with room for
  the pointer table and the \<open>s_DMALines\<close> array but not for the rows. Then
  \<open>allocateViewPort\<close> returns normally, \<open>m_lines\<close> holds offsets from \<open>nullptr\<close>, and
  \<open>getDefaultScanlineBuffer(0)\<close> hands out \<open>nullptr\<close> without an error.
\<close>

theorem allocateViewPort_pool_failure_unchecked:
  assumes nx: "0 < hp_next (vdc_heap st)" and lc: "0 < lines_count st"
    and tbl: "hp_next (vdc_heap st) + nat (4 * lines_count st) + nat (max 1 (4 * vp_height st))
                \<le> hp_limit (vdc_heap st)"
    and pool: "\<not> (0 < vp_width st * lines_count st \<and>
                  hp_next (vdc_heap st) + nat (4 * lines_count st) + nat (vp_width st * lines_count st)
                    \<le> hp_limit (vdc_heap st))"
  shows "\<exists>st'. allocateViewPort st = Inr st' \<and> lines_tbl st' \<noteq> nullptr \<and>
           lines st' = pool_rows nullptr (nat (vp_width st)) (nat (lines_count st)) \<and>
           getDefaultScanlineBuffer st' 0 = Inr nullptr"
proof -
  let ?h = "vdc_heap st" and ?lc = "lines_count st"
  define h1 where "h1 = snd (heap_caps_malloc ?h (4 * ?lc))"
  have m1: "heap_caps_malloc ?h (4 * ?lc) = (hp_next ?h, h1)" "hp_next h1 = hp_next ?h + nat (4 * ?lc)"
    "hp_limit h1 = hp_limit ?h"
    using lc tbl by (simp_all add: h1_def heap_caps_malloc_def)
  have m2: "heap_caps_malloc h1 (vp_width st * ?lc) = (nullptr, h1)"
    using pool m1(2,3) by (auto simp: heap_caps_malloc_def)
  have m3: "\<exists>p h3. cxx_new_array h1 (4 * vp_height st) = Inr (p, h3)"
    using tbl m1(2,3) nx lc by (simp add: cxx_new_array_def heap_caps_malloc_def less_max_iff_disj)
  then obtain p h3 where m3': "cxx_new_array h1 (4 * vp_height st) = Inr (p, h3)" by blast
  show ?thesis
    using nx lc m1(1) m2 m3'
    by (simp add: allocateViewPort_def Let_def lines_loop_pool_rows [unfolded One_nat_def]
        getDefaultScanlineBuffer_def c_index_def pool_rows_def)
qed

theorem allocateViewPort_pool_failure_unchecked_witness:
  "\<exists>st. allocateViewPort (VGADirectController True (\<lambda>_. [])
      \<lparr>hp_next = 1, hp_limit = 100, hp_live = [], hp_allocs = 0, hp_frees = 0\<rparr>
      \<lparr>vp_width := 640, vp_height := 4\<rparr>) = Inr st \<and> lines_tbl st \<noteq> nullptr \<and>
      lines st = pool_rows nullptr 640 2 \<and> getDefaultScanlineBuffer st 0 = Inr nullptr"
  using allocateViewPort_pool_failure_unchecked [of "VGADirectController True (\<lambda>_. [])
      \<lparr>hp_next = 1, hp_limit = 100, hp_live = [], hp_allocs = 0, hp_frees = 0\<rparr>
      \<lparr>vp_width := 640, vp_height := 4\<rparr>"]
  by (simp add: VGADirectController_def)

end
