(* ===== verification/DMAChain.thy ===== *)
theory DMAChain
  imports BufferPool
begin

text \<open>
  The DMA descriptor chain: the hook \<open>onSetupDMABuffer\<close> (vgadirectcontroller.cpp
  lines 162-178) that the base controller calls for every descriptor of a frame, the
  base controller's frame builder that calls it (spec-modelled: it is not under
  src/), and the buffer access API \<open>setScanlineBuffer\<close>, \<open>getScanlineBuffer\<close>
  (lines 181-195).
\<close>

section \<open>Operations\<close>

text \<open>
  \<open>onSetupDMABuffer(buffer, isStartOfVertFrontPorch, scan, isVisible, visibleRow)\<close>,
  hardware build. For a visible descriptor: record it in \<open>s_DMALines[visibleRow]\<close>,
  point it at \<open>m_lines[visibleRow % m_linesCount]\<close>, and on the first scan of every
  \<open>m_linesCount / 2\<close>-th row set its \<open>eof\<close> bit, remembering row 0's descriptor
  as the frame-reset marker. The remainder by \<open>m_linesCount / 2\<close> is evaluated
  only when \<open>scan == 0\<close> (short-circuit \<open>&&\<close>).
\<close>

definition onSetupDMABuffer ::
  "vdc \<Rightarrow> desc_id \<Rightarrow> bool \<Rightarrow> int \<Rightarrow> bool \<Rightarrow> int \<Rightarrow> vdc_error + vdc" where
  "onSetupDMABuffer st d isStartOfVertFrontPorch scan isVisible visibleRow =
     (if \<not> isVisible then Inr st
      else ebind (c_update (dma_lines st) visibleRow (Some d)) (\<lambda>dl.
           ebind (if lines_tbl st = nullptr then Inl NullPointer
                  else ebind (c_mod visibleRow (lines_count st)) (c_index (lines st))) (\<lambda>buf.
           if d < length (chain st) then
             let st1 = st\<lparr>dma_lines := dl,
                          chain := (chain st)[d := (chain st ! d)\<lparr>desc_buf := buf\<rparr>]\<rparr>
             in if scan = 0 then
                  ebind (c_mod visibleRow (lines_count st sdiv 2)) (\<lambda>r.
                    if r = 0
                    then Inr (st1\<lparr>frame_reset_desc :=
                                   (if visibleRow = 0 then Some d else frame_reset_desc st1),
                                 chain := (chain st1)[d := (chain st1 ! d)\<lparr>desc_eof := True\<rparr>]\<rparr>)
                    else Inr st1)
                else Inr st1
           else Inl IndexOutOfRange)))"

text \<open>
  The base controller's frame builder (spec-modelled). The frame is \<open>H * S\<close>
  visible transmission slots (\<open>H\<close> viewport rows, each sent \<open>S\<close> times, \<open>S\<close> the
  timing's scan count), followed by \<open>B\<close> blanking slots. Every slot gets one fresh
  descriptor pointing at the blank line buffer, without \<open>eof\<close>; then the hook is
  called for each slot in frame order, with the slot's scan and row.
\<close>

fun setup_descs :: "nat \<Rightarrow> nat \<Rightarrow> vdc \<Rightarrow> desc_id list \<Rightarrow> vdc_error + vdc" where
  "setup_descs S HS st [] = Inr st"
| "setup_descs S HS st (i # is) =
     ebind (onSetupDMABuffer st i (i = HS) (int (i mod S)) (i < HS) (int (i div S)))
       (\<lambda>st'. setup_descs S HS st' is)"

definition blank_desc :: "addr \<Rightarrow> lldesc" where
  "blank_desc blank = \<lparr>desc_buf = blank, desc_eof = False\<rparr>"

definition fillVertBuffers :: "nat \<Rightarrow> nat \<Rightarrow> addr \<Rightarrow> vdc \<Rightarrow> vdc_error + vdc" where
  "fillVertBuffers S B blank st =
     (let HS = nat (vp_height st) * S
      in setup_descs S HS (st\<lparr>chain := replicate (HS + B) (blank_desc blank)\<rparr>) [0..<HS + B])"

text \<open>
  \<open>setScanlineBuffer(scanline, lineBuffer)\<close>: \<open>s_DMALines[scanline]->buf = lineBuffer\<close>.
  An entry that the builder never wrote is an uninitialised pointer.
\<close>

definition setScanlineBuffer :: "vdc \<Rightarrow> int \<Rightarrow> addr \<Rightarrow> vdc_error + vdc" where
  "setScanlineBuffer st scanline lineBuffer =
     ebind (c_index (dma_lines st) scanline) (\<lambda>e.
       case e of
         None \<Rightarrow> Inl UninitializedRead
       | Some d \<Rightarrow>
           if d < length (chain st)
           then Inr (st\<lparr>chain := (chain st)[d := (chain st ! d)\<lparr>desc_buf := lineBuffer\<rparr>]\<rparr>)
           else Inl IndexOutOfRange)"

text \<open>\<open>getScanlineBuffer(scanline)\<close>: \<open>s_DMALines[scanline]->buf\<close>.\<close>

definition getScanlineBuffer :: "vdc \<Rightarrow> int \<Rightarrow> vdc_error + addr" where
  "getScanlineBuffer st scanline =
     ebind (c_index (dma_lines st) scanline) (\<lambda>e.
       case e of
         None \<Rightarrow> Inl UninitializedRead
       | Some d \<Rightarrow> if d < length (chain st) then Inr (desc_buf (chain st ! d)) else Inl IndexOutOfRange)"

section \<open>The chain the builder produces\<close>

text \<open>
  The intended layout of one frame: slot \<open>i < H * S\<close> is row \<open>i div S\<close>, scan
  \<open>i mod S\<close>; it transmits pool row \<open>(i div S) mod P\<close> and raises \<open>eof\<close> on the
  first scan of every \<open>P div 2\<close>-th row. The other slots transmit the blank line.
\<close>

definition frame_desc :: "addr \<Rightarrow> nat \<Rightarrow> nat \<Rightarrow> nat \<Rightarrow> nat \<Rightarrow> addr \<Rightarrow> nat \<Rightarrow> lldesc" where
  "frame_desc p0 w P S HS blank i =
     (if i < HS
      then \<lparr>desc_buf = p0 + ((i div S) mod P) * w,
            desc_eof = (i mod S = 0 \<and> (i div S) mod (P div 2) = 0)\<rparr>
      else blank_desc blank)"

text \<open>
  A pool that \<open>allocateViewPort\<close> set up: \<open>P \<ge> 2\<close> rows of width \<open>w\<close> from \<open>p0\<close>.
\<close>

definition pool_ok :: "vdc \<Rightarrow> addr \<Rightarrow> nat \<Rightarrow> nat \<Rightarrow> bool" where
  "pool_ok st p0 w P \<longleftrightarrow> lines_tbl st \<noteq> nullptr \<and> lines st = pool_rows p0 w P \<and>
     lines_count st = int P \<and> 2 \<le> P"

text \<open>
  The state \<open>allocateViewPort\<close> leaves for \<open>demo_vdc\<close>: table at 1, two rows of 8
  bytes from address 9, four visible rows.
\<close>

definition demo_pool :: vdc where
  "demo_pool = demo_vdc\<lparr>lines_tbl := 1, lines := pool_rows 9 8 2, dma_lines := replicate 4 None\<rparr>"

lemma setup_descs_append:
  "setup_descs S HS st (xs @ ys) = ebind (setup_descs S HS st xs) (\<lambda>st'. setup_descs S HS st' ys)"
  by (induction xs arbitrary: st) (simp_all add: ebind_case split: sum.split)

text \<open>
  The hook, and so the builder, change only \<open>s_DMALines\<close>, the descriptors and
  \<open>s_frameResetDesc\<close>.
\<close>

lemma onSetupDMABuffer_keeps:
  "onSetupDMABuffer st d b sc vis v = Inr st' \<Longrightarrow>
     st' = st\<lparr>dma_lines := dma_lines st', chain := chain st', frame_reset_desc := frame_reset_desc st'\<rparr> \<and>
     length (chain st') = length (chain st)"
  by (simp add: onSetupDMABuffer_def Let_def ebind_case split: if_splits sum.splits) force+

lemma setup_descs_keeps:
  "setup_descs S HS st ds = Inr st' \<Longrightarrow>
     st' = st\<lparr>dma_lines := dma_lines st', chain := chain st', frame_reset_desc := frame_reset_desc st'\<rparr> \<and>
     length (chain st') = length (chain st)"
proof (induction ds arbitrary: st)
  case Nil
  then show ?case by simp
next
  case (Cons i ds)
  then obtain st1 where h: "onSetupDMABuffer st i (i = HS) (int (i mod S)) (i < HS) (int (i div S)) = Inr st1"
    and r: "setup_descs S HS st1 ds = Inr st'"
    by (auto simp: ebind_Inr_iff)
  obtain x y z where st1: "st1 = st\<lparr>dma_lines := x, chain := y, frame_reset_desc := z\<rparr>"
    and l1: "length (chain st1) = length (chain st)"
    using onSetupDMABuffer_keeps [OF h] by blast
  have "st' = st1\<lparr>dma_lines := dma_lines st', chain := chain st', frame_reset_desc := frame_reset_desc st'\<rparr> \<and>
     length (chain st') = length (chain st1)"
    using Cons.IH [OF r] .
  then show ?case using l1 by (simp add: st1)
qed

lemma fillVertBuffers_keeps:
  "fillVertBuffers S B blank st = Inr st' \<Longrightarrow>
     st' = st\<lparr>dma_lines := dma_lines st', chain := chain st', frame_reset_desc := frame_reset_desc st'\<rparr> \<and>
     length (chain st') = nat (vp_height st) * S + B"
  unfolding fillVertBuffers_def Let_def
  by (drule setup_descs_keeps) simp

text \<open>The hook on one visible slot, on such a pool.\<close>

lemma onSetupDMABuffer_visible:
  assumes pool: "pool_ok st p0 w P" and v: "v < length (dma_lines st)" and d: "d < length (chain st)"
  shows "onSetupDMABuffer st d b (int sc) True (int v) =
     Inr (st\<lparr>dma_lines := (dma_lines st)[v := Some d],
             chain := (chain st)[d := (chain st ! d)\<lparr>desc_buf := p0 + (v mod P) * w,
                        desc_eof := (desc_eof (chain st ! d) \<or> (sc = 0 \<and> v mod (P div 2) = 0))\<rparr>],
             frame_reset_desc := (if sc = 0 \<and> v = 0 then Some d else frame_reset_desc st)\<rparr>)"
proof -
  have P: "2 \<le> P" "lines_count st = int P" "lines_tbl st \<noteq> nullptr" "lines st = pool_rows p0 w P"
    using pool by (simp_all add: pool_ok_def)
  have half: "int P sdiv 2 = int (P div 2)" "0 < P div 2"
    using P(1) by (simp_all add: c_arith zdiv_int)
  have row: "ebind (c_mod (int v) (lines_count st)) (c_index (lines st)) = Inr (p0 + (v mod P) * w)"
    using P by (simp add: c_index_def flip: of_nat_mod)
  show ?thesis
  proof (cases "sc = 0")
    case True
    have "c_mod (int v) (lines_count st sdiv 2) = Inr (int (v mod (P div 2)))"
      using half P(2) by (simp flip: of_nat_mod)
    then show ?thesis
      using True row P v d by (auto simp: onSetupDMABuffer_def Let_def)
  next
    case False
    then show ?thesis
      using row P v d by (auto simp: onSetupDMABuffer_def Let_def)
  qed
qed

lemma row_of_slot:
  assumes "0 < (S::nat)"
  shows "k div S * S \<le> k" and "k < k div S * S + S"
  using assms by (simp_all add: div_times_less_eq_dividend)
    (metis add.commute div_mult_mod_eq mod_less_divisor nat_add_left_cancel_less)

text \<open>
  The builder after its first \<open>k\<close> slots: the slots before \<open>k\<close> have their final
  descriptors, each row seen so far maps to its latest scan's descriptor.
\<close>

lemma setup_descs_upto:
  assumes pool: "pool_ok st p0 w P" and S: "0 < S"
    and dl: "dma_lines st = replicate H None"
    and ch: "chain st = replicate (H * S + B) (blank_desc blank)"
    and k: "k \<le> H * S + B"
  shows "setup_descs S (H * S) st [0..<k] =
    Inr (st\<lparr>chain := map (\<lambda>i. if i < k then frame_desc p0 w P S (H * S) blank i else blank_desc blank) [0..<H * S + B],
            dma_lines := map (\<lambda>v. if v * S < k then Some (min (k - 1) (v * S + S - 1)) else None) [0..<H],
            frame_reset_desc := (if 0 < k \<and> 0 < H * S then Some 0 else frame_reset_desc st)\<rparr>)"
  using k
proof (induction k)
  case 0
  then show ?case using dl ch by (simp add: list_eq_iff_nth_eq)
next
  case (Suc k)
  let ?st = "st\<lparr>chain := map (\<lambda>i. if i < k then frame_desc p0 w P S (H * S) blank i else blank_desc blank) [0..<H * S + B],
            dma_lines := map (\<lambda>v. if v * S < k then Some (min (k - 1) (v * S + S - 1)) else None) [0..<H],
            frame_reset_desc := (if 0 < k \<and> 0 < H * S then Some 0 else frame_reset_desc st)\<rparr>"
  have IH: "setup_descs S (H * S) st [0..<k] = Inr ?st" using Suc by simp
  have pool': "pool_ok ?st p0 w P" using pool by (simp add: pool_ok_def)
  have step: "setup_descs S (H * S) st [0..<Suc k] =
      onSetupDMABuffer ?st k (k = H * S) (int (k mod S)) (k < H * S) (int (k div S))"
  proof -
    have "[0..<Suc k] = [0..<k] @ [k]" by simp
    then show ?thesis
      by (simp only: setup_descs_append IH ebind.simps setup_descs.simps ebind_Inr_right)
  qed
  show ?case
  proof (cases "k < H * S")
    case True
    let ?v = "k div S"
    have v: "?v < H" using True S by (simp add: div_less_iff_less_mult)
    have rs: "?v * S \<le> k" "k < ?v * S + S" using row_of_slot [OF S] by blast+
    have "onSetupDMABuffer ?st k (k = H * S) (int (k mod S)) True (int ?v) =
      Inr (?st\<lparr>dma_lines := (dma_lines ?st)[?v := Some k],
             chain := (chain ?st)[k := (chain ?st ! k)\<lparr>desc_buf := p0 + (?v mod P) * w,
                        desc_eof := (desc_eof (chain ?st ! k) \<or> (k mod S = 0 \<and> ?v mod (P div 2) = 0))\<rparr>],
             frame_reset_desc := (if k mod S = 0 \<and> ?v = 0 then Some k else frame_reset_desc ?st)\<rparr>)"
      using onSetupDMABuffer_visible [OF pool', of ?v k] v True Suc.prems by simp
    moreover have "(chain ?st)[k := (chain ?st ! k)\<lparr>desc_buf := p0 + (?v mod P) * w,
                        desc_eof := (desc_eof (chain ?st ! k) \<or> (k mod S = 0 \<and> ?v mod (P div 2) = 0))\<rparr>]
        = map (\<lambda>i. if i < Suc k then frame_desc p0 w P S (H * S) blank i else blank_desc blank) [0..<H * S + B]"
      using True Suc.prems by (auto simp: list_eq_iff_nth_eq nth_list_update frame_desc_def blank_desc_def)
    moreover have "(dma_lines ?st)[?v := Some k] =
        map (\<lambda>v. if v * S < Suc k then Some (min (Suc k - 1) (v * S + S - 1)) else None) [0..<H]"
    proof (rule nth_equalityI)
      fix u assume "u < length ((dma_lines ?st)[?v := Some k])"
      then have u: "u < H" by simp
      show "(dma_lines ?st)[?v := Some k] ! u =
        map (\<lambda>v. if v * S < Suc k then Some (min (Suc k - 1) (v * S + S - 1)) else None) [0..<H] ! u"
      proof (cases "u = ?v")
        case True
        have rs0: "?v * S < Suc k" using rs(1) by (simp add: le_imp_less_Suc)
        have "min k (?v * S + S - 1) = k" using rs(2) by simp
        then show ?thesis using u rs0 True by simp
      next
        case False
        have "u < ?v \<or> ?v < u" using False by arith
        then have "u * S + S \<le> ?v * S \<or> ?v * S + S \<le> u * S"
          by (metis add.commute less_eq_Suc_le mult_Suc mult_le_mono1 plus_1_eq_Suc)
        moreover obtain q where q: "q = ?v * S" by blast
        ultimately have "u * S + S \<le> q \<or> q + S \<le> u * S" "q \<le> k" "k < q + S"
          using rs by simp_all
        then show ?thesis using u False S by (auto simp: min_def)
      qed
    qed simp
    moreover have "(if k mod S = 0 \<and> ?v = 0 then Some k else frame_reset_desc ?st) =
        (if 0 < Suc k \<and> 0 < H * S then Some 0 else frame_reset_desc st)"
      using True rs by (auto simp: div_eq_0_iff)
    ultimately show ?thesis using step True by simp
  next
    case False
    have res: "setup_descs S (H * S) st [0..<Suc k] = Inr ?st"
      using step False by (simp add: onSetupDMABuffer_def)
    have eq1: "map (\<lambda>i. if i < k then frame_desc p0 w P S (H * S) blank i else blank_desc blank) [0..<H * S + B]
        = map (\<lambda>i. if i < Suc k then frame_desc p0 w P S (H * S) blank i else blank_desc blank) [0..<H * S + B]"
      using False by (auto simp: frame_desc_def less_Suc_eq)
    have hk: "\<And>v. v < H \<Longrightarrow> v * S + S \<le> k"
      using False by (metis add.commute le_trans mult_Suc mult_le_mono1 not_le less_eq_Suc_le plus_1_eq_Suc)
    have eq2: "map (\<lambda>v. if v * S < k then Some (min (k - 1) (v * S + S - 1)) else None) [0..<H]
        = map (\<lambda>v. if v * S < Suc k then Some (min (Suc k - 1) (v * S + S - 1)) else None) [0..<H]"
    proof (rule map_cong [OF refl])
      fix v assume "v \<in> set [0..<H]"
      then have "v * S + S \<le> k" by (simp add: hk)
      then show "(if v * S < k then Some (min (k - 1) (v * S + S - 1)) else None) =
                 (if v * S < Suc k then Some (min (Suc k - 1) (v * S + S - 1)) else None)"
        using S by (auto simp: min_def)
    qed
    have eq3: "(if 0 < k \<and> 0 < H * S then Some 0 else frame_reset_desc st) =
               (if 0 < Suc k \<and> 0 < H * S then Some 0 else frame_reset_desc st)"
      using False by auto
    show ?thesis using res by (simp only: eq1 eq2 eq3)
  qed
qed

text \<open>The builder's result, as a record update.\<close>

lemma fillVertBuffers_eq:
  assumes "pool_ok st p0 w P" and "0 < S" and "dma_lines st = replicate (nat (vp_height st)) None"
  shows "fillVertBuffers S B blank st =
    Inr (st\<lparr>chain := map (frame_desc p0 w P S (nat (vp_height st) * S) blank) [0..<nat (vp_height st) * S + B],
            dma_lines := map (\<lambda>v. Some (v * S + S - 1)) [0..<nat (vp_height st)],
            frame_reset_desc := (if 0 < nat (vp_height st) then Some 0 else frame_reset_desc st)\<rparr>)"
proof -
  let ?H = "nat (vp_height st)"
  let ?st0 = "st\<lparr>chain := replicate (?H * S + B) (blank_desc blank)\<rparr>"
  have "setup_descs S (?H * S) ?st0 [0..<?H * S + B] =
    Inr (?st0\<lparr>chain := map (\<lambda>i. if i < ?H * S + B then frame_desc p0 w P S (?H * S) blank i else blank_desc blank) [0..<?H * S + B],
            dma_lines := map (\<lambda>v. if v * S < ?H * S + B then Some (min (?H * S + B - 1) (v * S + S - 1)) else None) [0..<?H],
            frame_reset_desc := (if 0 < ?H * S + B \<and> 0 < ?H * S then Some 0 else frame_reset_desc ?st0)\<rparr>)"
    using assms by (intro setup_descs_upto) (simp_all add: pool_ok_def)
  moreover have "map (\<lambda>v. if v * S < ?H * S + B then Some (min (?H * S + B - 1) (v * S + S - 1)) else None) [0..<?H]
      = map (\<lambda>v. Some (v * S + S - 1)) [0..<?H]"
  proof (rule map_cong [OF refl])
    fix v assume "v \<in> set [0..<?H]"
    then have "v * S + S \<le> ?H * S"
      by (metis add.commute atLeastLessThan_iff less_eq_Suc_le mult_Suc mult_le_mono1 plus_1_eq_Suc set_upt)
    then show "(if v * S < ?H * S + B then Some (min (?H * S + B - 1) (v * S + S - 1)) else None) = Some (v * S + S - 1)"
      using assms(2) by (auto simp: min_def)
  qed
  moreover have "map (\<lambda>i. if i < ?H * S + B then frame_desc p0 w P S (?H * S) blank i else blank_desc blank) [0..<?H * S + B]
      = map (frame_desc p0 w P S (?H * S) blank) [0..<?H * S + B]"
    by (rule map_cong) auto
  ultimately show ?thesis
    using assms(2) by (simp add: fillVertBuffers_def Let_def)
qed

lemma fill_fields:
  assumes "pool_ok st p0 w P" and "0 < S" and "dma_lines st = replicate (nat (vp_height st)) None"
    and "fillVertBuffers S B blank st = Inr st'"
  shows "chain st' = map (frame_desc p0 w P S (nat (vp_height st) * S) blank) [0..<nat (vp_height st) * S + B]"
    and "dma_lines st' = map (\<lambda>v. Some (v * S + S - 1)) [0..<nat (vp_height st)]"
    and "lines st' = lines st" and "lines_tbl st' = lines_tbl st" and "lines_count st' = lines_count st"
    and "vp_height st' = vp_height st"
  using fillVertBuffers_eq [OF assms(1-3), of B blank] assms(4) by auto

lemma last_scan_div_mod:
  assumes "0 < (S::nat)"
  shows "(v * S + S - 1) div S = v \<and> (v * S + S - 1) mod S = S - 1"
proof -
  have e: "v * S + S - 1 = S - 1 + v * S" using assms by simp
  have d: "(S - 1 + v * S) div S = v + (S - 1) div S"
    using assms by (intro div_mult_self1) simp
  have m: "(S - 1 + v * S) mod S = (S - 1) mod S"
    by (rule mod_mult_self1)
  show ?thesis using d m assms by (simp only: e) simp
qed

text \<open>
  C5. The frame the builder produces: visible slot \<open>i\<close> transmits pool row
  \<open>(i div S) mod P\<close> and raises \<open>eof\<close> exactly on the first scan of every
  \<open>P div 2\<close>-th row; blanking slots transmit the blank line; \<open>s_DMALines[v]\<close>
  is the descriptor of the last scan of row \<open>v\<close>; slot 0 is the frame-reset marker.
\<close>

theorem fillVertBuffers_frame:
  assumes "pool_ok st p0 w P" and "0 < S" and "dma_lines st = replicate (nat (vp_height st)) None"
  shows "\<exists>st'. fillVertBuffers S B blank st = Inr st' \<and>
     length (chain st') = nat (vp_height st) * S + B \<and>
     (\<forall>i < nat (vp_height st) * S + B. chain st' ! i = frame_desc p0 w P S (nat (vp_height st) * S) blank i) \<and>
     (\<forall>v < nat (vp_height st). dma_lines st' ! v = Some (v * S + S - 1)) \<and>
     (0 < vp_height st \<longrightarrow> frame_reset_desc st' = Some 0)"
  using fillVertBuffers_eq [OF assms, of B blank] by simp

text \<open>
  C22. On the chain the builder produces, \<open>getScanlineBuffer(v)\<close> returns the same row
  as \<open>getDefaultScanlineBuffer(v)\<close> for every visible row \<open>v\<close>: the descriptors
  transmit the pool row that the default-buffer API names.
\<close>

theorem getScanlineBuffer_default:
  assumes "pool_ok st p0 w P" and "0 < S" and "dma_lines st = replicate (nat (vp_height st)) None"
    and "fillVertBuffers S B blank st = Inr st'" and "v < nat (vp_height st)"
  shows "getScanlineBuffer st' (int v) = Inr (p0 + (v mod P) * w) \<and>
         getDefaultScanlineBuffer st' (int v) = Inr (p0 + (v mod P) * w)"
proof -
  note f = fill_fields [OF assms(1-4)]
  have P: "2 \<le> P" "lines_count st = int P" "lines_tbl st \<noteq> nullptr" "lines st = pool_rows p0 w P"
    using assms(1) by (simp_all add: pool_ok_def)
  have slot: "v * S + S - 1 < nat (vp_height st) * S" "(v * S + S - 1) div S = v" "(v * S + S - 1) mod S = S - 1"
  proof -
    have "v * S + S \<le> nat (vp_height st) * S"
      using assms(5) by (metis add.commute less_eq_Suc_le mult_Suc mult_le_mono1 plus_1_eq_Suc)
    then show "v * S + S - 1 < nat (vp_height st) * S" using assms(2) by simp
    show "(v * S + S - 1) div S = v" "(v * S + S - 1) mod S = S - 1"
      using last_scan_div_mod [OF assms(2)] by simp_all
  qed
  have hv: "int v < vp_height st" "0 \<le> vp_height st" using assms(5) by auto
  show ?thesis
    using f P slot hv assms(5) by (simp add: getScanlineBuffer_def getDefaultScanlineBuffer_def
        frame_desc_def c_index_def flip: of_nat_mod)
qed

text \<open>
  C23. Substituting a buffer and reading it back: after \<open>setScanlineBuffer(v, b)\<close>
  succeeds, \<open>getScanlineBuffer(v)\<close> returns \<open>b\<close>.
\<close>

theorem setScanlineBuffer_roundtrip:
  assumes "setScanlineBuffer st v b = Inr st'"
  shows "getScanlineBuffer st' v = Inr b"
proof -
  obtain d where d: "c_index (dma_lines st) v = Inr (Some d)" "d < length (chain st)"
    and st': "st' = st\<lparr>chain := (chain st)[d := (chain st ! d)\<lparr>desc_buf := b\<rparr>]\<rparr>"
    using assms by (auto simp: setScanlineBuffer_def ebind_Inr_iff split: option.splits if_splits)
  show ?thesis using d by (simp add: st' getScanlineBuffer_def)
qed

text \<open>
  C31. With a scan count \<open>S \<ge> 2\<close>, \<open>setScanlineBuffer(v, b)\<close> rebinds only the
  descriptor of the last scan of row \<open>v\<close> (the one \<open>s_DMALines[v]\<close> kept, since
  each scan overwrote it); the first scan still transmits the default pool row.
\<close>

theorem setScanlineBuffer_last_scan_only:
  assumes "pool_ok st p0 w P" and "2 \<le> S" and "dma_lines st = replicate (nat (vp_height st)) None"
    and "fillVertBuffers S B blank st = Inr st1" and "v < nat (vp_height st)"
    and "setScanlineBuffer st1 (int v) b = Inr st2"
  shows "desc_buf (chain st2 ! (v * S + S - 1)) = b \<and>
         desc_buf (chain st2 ! (v * S)) = p0 + (v mod P) * w"
proof -
  have S: "0 < S" using assms(2) by simp
  note f = fill_fields [OF assms(1) S assms(3,4)]
  have lt: "v * S + S - 1 < nat (vp_height st) * S" "v * S < nat (vp_height st) * S"
  proof -
    have "v * S + S \<le> nat (vp_height st) * S"
      using assms(5) by (metis add.commute less_eq_Suc_le mult_Suc mult_le_mono1 plus_1_eq_Suc)
    then show "v * S + S - 1 < nat (vp_height st) * S" "v * S < nat (vp_height st) * S"
      using S by linarith+
  qed
  have ne: "v * S \<noteq> v * S + S - 1" using assms(2) by simp
  have c2: "chain st2 = (chain st1)[v * S + S - 1 := (chain st1 ! (v * S + S - 1))\<lparr>desc_buf := b\<rparr>]"
    using assms(5,6) f(2) by (auto simp: setScanlineBuffer_def c_index_def split: if_splits)
  show ?thesis
    using c2 f(1) lt ne S by (simp add: frame_desc_def nth_list_update)
qed

section \<open>A concrete pool\<close>

lemma demo_pool_ok:
  "pool_ok demo_pool 9 8 2 \<and> dma_lines demo_pool = replicate (nat (vp_height demo_pool)) None"
  by (simp add: demo_pool_def demo_vdc_def VGADirectController_def pool_ok_def)

lemma demo_pool_set:
  assumes "fillVertBuffers 2 2 0 demo_pool = Inr st'"
  shows "\<exists>st''. setScanlineBuffer st' 1 500 = Inr st''"
proof -
  have "dma_lines st' = map (\<lambda>v. Some (v * 2 + 2 - 1)) [0..<4] \<and> length (chain st') = 10"
    using fill_fields [of demo_pool 9 8 2 2 2 0 st'] demo_pool_ok assms
    by (simp add: demo_pool_def demo_vdc_def VGADirectController_def)
  then show ?thesis by (simp add: setScanlineBuffer_def c_index_def upt_rec)
qed

lemma demo_pool_fill:
  "\<exists>st'. fillVertBuffers 2 2 0 demo_pool = Inr st'"
  by (simp add: fillVertBuffers_def demo_pool_def demo_vdc_def VGADirectController_def
      onSetupDMABuffer_def c_index_def c_update_def c_mod_def pool_rows_def upt_rec Let_def blank_desc_def c_arith)
theorem fillVertBuffers_frame_witness:
  "pool_ok demo_pool 9 8 2 \<and> dma_lines demo_pool = replicate (nat (vp_height demo_pool)) None \<and>
   (\<exists>st'. fillVertBuffers 2 2 0 demo_pool = Inr st' \<and> length (chain st') = 10 \<and>
     (\<forall>i < 10. chain st' ! i = frame_desc 9 8 2 2 8 0 i) \<and>
     (\<forall>v < 4. dma_lines st' ! v = Some (v * 2 + 1)) \<and> frame_reset_desc st' = Some 0)"
proof -
  have h: "nat (vp_height demo_pool) = 4" "0 < vp_height demo_pool"
    by (simp_all add: demo_pool_def demo_vdc_def VGADirectController_def)
  show ?thesis using fillVertBuffers_frame [of demo_pool 9 8 2 2 2 0] demo_pool_ok h by simp
qed

theorem getScanlineBuffer_default_witness:
  "\<exists>st'. fillVertBuffers 2 2 0 demo_pool = Inr st' \<and>
     getScanlineBuffer st' 3 = Inr (9 + (3 mod 2) * 8) \<and> getDefaultScanlineBuffer st' 3 = Inr (9 + (3 mod 2) * 8)"
proof -
  obtain st' where f: "fillVertBuffers 2 2 0 demo_pool = Inr st'" using demo_pool_fill by blast
  have h: "3 < nat (vp_height demo_pool)" by (simp add: demo_pool_def demo_vdc_def VGADirectController_def)
  show ?thesis
    using getScanlineBuffer_default [of demo_pool 9 8 2 2 2 0 st' 3] demo_pool_ok f h by simp
qed

theorem setScanlineBuffer_roundtrip_witness:
  "\<exists>st' st''. fillVertBuffers 2 2 0 demo_pool = Inr st' \<and> setScanlineBuffer st' 1 500 = Inr st'' \<and>
     getScanlineBuffer st'' 1 = Inr 500"
proof -
  obtain st' where f: "fillVertBuffers 2 2 0 demo_pool = Inr st'" using demo_pool_fill by blast
  obtain st'' where g: "setScanlineBuffer st' 1 500 = Inr st''"
    using demo_pool_set [OF f] by blast
  show ?thesis using setScanlineBuffer_roundtrip [OF g] f g by blast
qed

theorem setScanlineBuffer_last_scan_only_witness:
  "\<exists>st' st''. fillVertBuffers 2 2 0 demo_pool = Inr st' \<and> setScanlineBuffer st' 1 500 = Inr st'' \<and>
     desc_buf (chain st'' ! 3) = 500 \<and> desc_buf (chain st'' ! 2) = 17"
proof -
  obtain st' where f: "fillVertBuffers 2 2 0 demo_pool = Inr st'" using demo_pool_fill by blast
  obtain st'' where g: "setScanlineBuffer st' (int 1) 500 = Inr st''"
    using demo_pool_set [OF f] by auto
  have h: "1 < nat (vp_height demo_pool)" by (simp add: demo_pool_def demo_vdc_def VGADirectController_def)
  show ?thesis
    using setScanlineBuffer_last_scan_only [of demo_pool 9 8 2 2 2 0 st' 1 500 st''] demo_pool_ok f g h by auto
qed

end
