(* ===== verification/Producer.thy ===== *)
theory Producer
  imports DMAChain
begin

text \<open>
  The interrupt-driven scanline producer: \<open>VGADirectController::ISRHandler\<close>
  (vgadirectcontroller.cpp lines 311-351, hardware build), the rendering callback
  it invokes, and the facts about one interrupt and about a run of interrupts: the
  frame-reset branch, the scanlines rendered, the vertical-sync flag, the buffer
  selected by the bit mask, and the error paths.
\<close>

section \<open>The rendering callback\<close>

text \<open>
  \<open>DrawScanlineCallback(arg, dest, scanLine)\<close> (header lines 59-66, 125-132): the
  callback fills \<open>m_linesCount / 2\<close> consecutive scanlines, starting with
  \<open>scanLine\<close>, into consecutive row buffers starting at \<open>dest\<close>. The callback is
  the application's; its effect is written here from that documented contract.
\<close>

fun fill_rows :: "memory \<Rightarrow> addr \<Rightarrow> nat \<Rightarrow> draw_callback \<Rightarrow> int \<Rightarrow> nat \<Rightarrow> memory" where
  "fill_rows m dest w cb y 0 = m"
| "fill_rows m dest w cb y (Suc k) = (fill_rows m dest w cb y k)(dest + k * w := cb (y + int k))"

text \<open>
  One invocation of the callback, as the handler makes it: the destination buffer
  and the scanline index. It is the observable output of an interrupt.
\<close>

record cb_call =
  call_dest :: addr
  call_scanline :: int

section \<open>The interrupt handler\<close>

text \<open>
  \<open>ISRHandler(arg)\<close>, in its two phases. First (lines 324-329): if the descriptor the
  peripheral just finished (\<open>I2S1.out_eof_des_addr\<close>) is the frame-reset marker,
  restart the frame: \<open>s_scanLine = 0\<close>, \<open>s_VSync = false\<close>.
\<close>

definition isr_detect_wrap :: "vdc \<Rightarrow> desc_id \<Rightarrow> vdc" where
  "isr_detect_wrap st desc =
     (if frame_reset_desc st = Some desc then st\<lparr>scan_line := 0, vsync := False\<rparr> else st)"

text \<open>
  Then (lines 322, 331-341): render scanline
  \<open>(s_scanLine + m_linesCount / 2) % m_viewPortHeight\<close> into
  \<open>m_lines[scanLine & (m_linesCount - 1)]\<close>, advance \<open>s_scanLine\<close> by
  \<open>m_linesCount / 2\<close>, and raise \<open>s_VSync\<close> once it reaches the viewport height.
  The remainder by a zero height, a null callback, a null table and an index outside
  the table are errors.
\<close>

definition isr_render :: "vdc \<Rightarrow> vdc_error + cb_call option \<times> vdc" where
  "isr_render st =
     (let viewPortHeight = vp_height st; linesCount = lines_count st
      in ebind (c_mod (scan_line st + linesCount sdiv 2) viewPortHeight) (\<lambda>scanLine.
           let lineIndex = scanLine AND (linesCount - 1) in
           case draw_cb st of
             None \<Rightarrow> Inl NullPointer
           | Some cb \<Rightarrow>
               ebind (if lines_tbl st = nullptr then Inl NullPointer else c_index (lines st) lineIndex)
                 (\<lambda>dest.
                    let st2 = st\<lparr>mem := fill_rows (mem st) dest (nat (vp_width st)) cb scanLine
                                           (nat (linesCount sdiv 2)),
                                 scan_line := scan_line st + linesCount sdiv 2\<rparr>
                    in Inr (Some \<lparr>call_dest = dest, call_scanline = scanLine\<rparr>,
                            if scan_line st2 \<ge> viewPortHeight then st2\<lparr>vsync := True\<rparr> else st2))))"

text \<open>
  The handler (lines 311-351): nothing happens unless \<open>I2S1.int_st.out_eof\<close> is
  set; clearing the interrupt status and the optional cycle counter do not touch the
  model's state.
\<close>

definition ISRHandler :: "vdc \<Rightarrow> bool \<Rightarrow> desc_id \<Rightarrow> vdc_error + cb_call option \<times> vdc" where
  "ISRHandler st out_eof desc =
     (if \<not> out_eof then Inr (None, st) else isr_render (isr_detect_wrap st desc))"

text \<open>
  A run of interrupts, one per completed \<open>eof\<close> descriptor, collecting the callback
  invocations; the first error stops the run.
\<close>

fun isr_run :: "vdc \<Rightarrow> desc_id list \<Rightarrow> vdc_error + cb_call list \<times> vdc" where
  "isr_run st [] = Inr ([], st)"
| "isr_run st (d # ds) =
     ebind (ISRHandler st True d) (\<lambda>(c, st').
       ebind (isr_run st' ds) (\<lambda>(cs, st''). Inr (case c of None \<Rightarrow> cs | Some x \<Rightarrow> x # cs, st'')))"

text \<open>
  The state the handler runs on once the controller is configured: the pool of
  \<open>P\<close> row buffers of \<open>w\<close> bytes at \<open>p0\<close>, a callback, a positive height, and a
  scanline counter that is not negative.
\<close>

definition producer_ok :: "vdc \<Rightarrow> addr \<Rightarrow> nat \<Rightarrow> nat \<Rightarrow> draw_callback \<Rightarrow> bool" where
  "producer_ok st p0 w P cb \<longleftrightarrow> pool_ok st p0 w P \<and> draw_cb st = Some cb \<and>
     0 < vp_height st \<and> vp_width st = int w \<and> 0 \<le> scan_line st"

text \<open>The callback invocation an interrupt makes for scanline \<open>y\<close> on such a pool.\<close>

definition isr_call :: "addr \<Rightarrow> nat \<Rightarrow> nat \<Rightarrow> int \<Rightarrow> cb_call" where
  "isr_call p0 w P y = \<lparr>call_dest = p0 + nat (y AND (int P - 1)) * w, call_scanline = y\<rparr>"

section \<open>A concrete configured state\<close>

text \<open>
  \<open>demo_pool\<close> with a callback that writes the scanline index into the first byte.
\<close>

definition demo_cb :: draw_callback where
  "demo_cb y = [of_int y]"

definition demo_isr :: vdc where
  "demo_isr = demo_pool\<lparr>draw_cb := Some demo_cb\<rparr>"

section \<open>The callback's writes\<close>

lemma fill_rows_at:
  assumes "0 < w" and "j < n"
  shows "fill_rows m dest w cb y n (dest + j * w) = cb (y + int j)"
  using assms(2)
proof (induction n)
  case 0
  then show ?case by simp
next
  case (Suc n)
  show ?case
  proof (cases "j = n")
    case True
    then show ?thesis by simp
  next
    case False
    then have "j < n" using Suc.prems by simp
    moreover have "dest + n * w \<noteq> dest + j * w" using False assms(1) by simp
    ultimately show ?thesis using Suc.IH by simp
  qed
qed

lemma fill_rows_other:
  "(\<forall>j<n. a \<noteq> dest + j * w) \<Longrightarrow> fill_rows m dest w cb y n a = m a"
  by (induction n) auto

section \<open>One interrupt\<close>

lemma and_mask_lt:
  assumes "0 \<le> (y::int)" "2 \<le> P"
  shows "0 \<le> y AND (int P - 1)" "y AND (int P - 1) < int P"
proof -
  have "y AND (int P - 1) \<le> int P - 1" using assms by (intro AND_upper2) simp
  then show "y AND (int P - 1) < int P" by simp
  show "0 \<le> y AND (int P - 1)" using assms by simp
qed

lemma isr_render_eq:
  assumes pool: "pool_ok st p0 w P" and cb: "draw_cb st = Some cb" and H: "0 < vp_height st"
    and W: "vp_width st = int w" and s: "0 \<le> scan_line st"
  defines "n \<equiv> int (P div 2)"
  defines "y \<equiv> (scan_line st + n) mod vp_height st"
  defines "i \<equiv> y AND (int P - 1)"
  shows "isr_render st =
    Inr (Some \<lparr>call_dest = p0 + nat i * w, call_scanline = y\<rparr>,
         st\<lparr>mem := fill_rows (mem st) (p0 + nat i * w) w cb y (P div 2),
            scan_line := scan_line st + n,
            vsync := (vp_height st \<le> scan_line st + n \<or> vsync st)\<rparr>)"
proof -
  have P: "lines_tbl st \<noteq> nullptr" "lines st = pool_rows p0 w P" "lines_count st = int P" "2 \<le> P"
    using pool by (simp_all add: pool_ok_def)
  have half: "int P sdiv 2 = n" using P(4) by (simp add: n_def c_arith zdiv_int)
  have call: "c_mod (scan_line st + n) (vp_height st) = Inr y"
    using s H by (simp add: y_def n_def)
  have y0: "0 \<le> y" using H by (simp add: y_def)
  have ib: "0 \<le> i" "i < int P" using and_mask_lt[OF y0 P(4)] by (simp_all add: i_def)
  have cidx: "c_index (lines st) i = Inr (p0 + nat i * w)"
    using ib P(2) by (simp add: c_index_def pool_rows_nth)
  show ?thesis
    unfolding isr_render_def Let_def
    apply (simp only: P(3) half call ebind.simps cb option.case P(1) if_False flip: i_def)
    apply (simp only: cidx ebind.simps W nat_int n_def)
    apply (cases "vp_height st \<le> scan_line st + int (P div 2)")
     apply simp_all
    done
qed

lemma isr_detect_wrap_eq:
  "isr_detect_wrap st d = st\<lparr>scan_line := (if frame_reset_desc st = Some d then 0 else scan_line st),
                              vsync := (frame_reset_desc st \<noteq> Some d \<and> vsync st)\<rparr>"
  by (simp add: isr_detect_wrap_def)

lemma producer_ok_wrap:
  "producer_ok st p0 w P cb \<Longrightarrow> producer_ok (isr_detect_wrap st d) p0 w P cb"
  by (simp add: isr_detect_wrap_def producer_ok_def pool_ok_def)

text \<open>
  C2. One interrupt on a configured pool: the handler restarts the frame when the
  completed descriptor is the frame-reset marker, renders scanline
  \<open>y = (s + P/2) mod H\<close> from the (possibly reset) counter \<open>s\<close> into the buffer
  \<open>m_lines[y & (P-1)]\<close> (the callback fills \<open>P/2\<close> consecutive rows there), advances
  the counter by \<open>P/2\<close>, and raises vsync exactly when the counter reaches \<open>H\<close>.
\<close>

lemma ISRHandler_eq:
  fixes d :: desc_id
  assumes ok: "producer_ok st p0 w P cb"
  defines "s \<equiv> (if frame_reset_desc st = Some d then 0 else scan_line st)"
  defines "n \<equiv> int (P div 2)"
  defines "y \<equiv> (s + n) mod vp_height st"
  defines "i \<equiv> y AND (int P - 1)"
  shows "ISRHandler st True d =
    Inr (Some \<lparr>call_dest = p0 + nat i * w, call_scanline = y\<rparr>,
         st\<lparr>mem := fill_rows (mem st) (p0 + nat i * w) w cb y (P div 2),
            scan_line := s + n,
            vsync := (vp_height st \<le> s + n \<or> (frame_reset_desc st \<noteq> Some d \<and> vsync st))\<rparr>)"
proof -
  have ok': "producer_ok (isr_detect_wrap st d) p0 w P cb" using ok by (rule producer_ok_wrap)
  have f: "scan_line (isr_detect_wrap st d) = s" "vp_height (isr_detect_wrap st d) = vp_height st"
      "mem (isr_detect_wrap st d) = mem st"
    by (simp_all add: isr_detect_wrap_eq s_def)
  show ?thesis
    using isr_render_eq[of "isr_detect_wrap st d" p0 w P cb] ok'
    unfolding ISRHandler_def producer_ok_def f
    by (simp add: isr_detect_wrap_eq y_def n_def i_def s_def)
qed


lemma demo_isr_ok: "producer_ok demo_isr 9 8 2 demo_cb"
  using demo_pool_ok by (simp add: producer_ok_def demo_isr_def demo_pool_def demo_vdc_def VGADirectController_def pool_ok_def)

lemma ISRHandler_eq_witness:
  "\<exists>st'. ISRHandler (demo_isr\<lparr>scan_line := 3, frame_reset_desc := Some 0\<rparr>) True 0 =
          Inr (Some \<lparr>call_dest = 17, call_scanline = 1\<rparr>, st') \<and>
        scan_line st' = 1 \<and> \<not> vsync st' \<and> mem st' 17 = demo_cb 1"
  using ISRHandler_eq[of "demo_isr\<lparr>scan_line := 3, frame_reset_desc := Some 0\<rparr>" 9 8 2 demo_cb 0] demo_isr_ok
  by (simp add: producer_ok_def pool_ok_def demo_isr_def demo_pool_def demo_vdc_def VGADirectController_def)

lemma ISRHandler_no_reset:
  assumes ok: "producer_ok st p0 w P cb" and nr: "frame_reset_desc st \<noteq> Some d"
  shows "\<exists>st'. ISRHandler st True d =
           Inr (Some (isr_call p0 w P ((scan_line st + int (P div 2)) mod vp_height st)), st') \<and>
         producer_ok st' p0 w P cb \<and> scan_line st' = scan_line st + int (P div 2) \<and>
         vsync st' = (vp_height st \<le> scan_line st + int (P div 2) \<or> vsync st) \<and>
         frame_reset_desc st' = frame_reset_desc st \<and> vp_height st' = vp_height st"
proof -
  have "ISRHandler st True d = isr_render st" using nr by (simp add: ISRHandler_def isr_detect_wrap_def)
  then show ?thesis
    using isr_render_eq[of st p0 w P cb] ok by (auto simp: isr_call_def producer_ok_def pool_ok_def)
qed

text \<open>
  C3. A run of \<open>K\<close> interrupts none of which completes the frame-reset marker renders
  the scanlines \<open>(s + k * P/2) mod H\<close> for \<open>k = 1 .. K\<close>, in order, each into
  \<open>m_lines[_ & (P-1)]\<close>; the counter ends at \<open>s + K * P/2\<close> and vsync is raised
  exactly when it has reached \<open>H\<close> (or was already set).
\<close>

lemma isr_run_no_reset:
  assumes "producer_ok st p0 w P cb" and "\<forall>d\<in>set ds. frame_reset_desc st \<noteq> Some d"
  shows "\<exists>st'. isr_run st ds =
           Inr (map (\<lambda>k. isr_call p0 w P ((scan_line st + int (Suc k) * int (P div 2)) mod vp_height st))
                    [0..<length ds], st') \<and>
         producer_ok st' p0 w P cb \<and>
         scan_line st' = scan_line st + int (length ds) * int (P div 2) \<and>
         vsync st' = (vsync st \<or> ds \<noteq> [] \<and> vp_height st \<le> scan_line st + int (length ds) * int (P div 2))"
  using assms
proof (induction ds arbitrary: st)
  case Nil
  then show ?case by simp
next
  case (Cons d ds)
  obtain st1 where h: "ISRHandler st True d =
           Inr (Some (isr_call p0 w P ((scan_line st + int (P div 2)) mod vp_height st)), st1)"
    and ok1: "producer_ok st1 p0 w P cb" and sl1: "scan_line st1 = scan_line st + int (P div 2)"
    and vs1: "vsync st1 = (vp_height st \<le> scan_line st + int (P div 2) \<or> vsync st)"
    and fr1: "frame_reset_desc st1 = frame_reset_desc st" and H1: "vp_height st1 = vp_height st"
    using ISRHandler_no_reset[OF Cons.prems(1)] Cons.prems(2) by auto
  obtain st' where r: "isr_run st1 ds =
           Inr (map (\<lambda>k. isr_call p0 w P ((scan_line st1 + int (Suc k) * int (P div 2)) mod vp_height st1))
                    [0..<length ds], st')"
    and ok': "producer_ok st' p0 w P cb"
    and sl': "scan_line st' = scan_line st1 + int (length ds) * int (P div 2)"
    and vs': "vsync st' = (vsync st1 \<or> ds \<noteq> [] \<and> vp_height st1 \<le> scan_line st1 + int (length ds) * int (P div 2))"
    using Cons.IH[OF ok1] Cons.prems(2) fr1 by auto
  have calls: "isr_call p0 w P ((scan_line st + int (P div 2)) mod vp_height st) #
        map (\<lambda>k. isr_call p0 w P ((scan_line st1 + int (Suc k) * int (P div 2)) mod vp_height st1))
            [0..<length ds] =
      map (\<lambda>k. isr_call p0 w P ((scan_line st + int (Suc k) * int (P div 2)) mod vp_height st))
          [0..<length (d # ds)]"
    by (simp add: sl1 H1 map_upt_Suc algebra_simps del: upt_Suc)
  have "vsync st' = (vsync st \<or> d # ds \<noteq> [] \<and> vp_height st \<le> scan_line st + int (length (d # ds)) * int (P div 2))"
  proof -
    have m: "int (P div 2) \<le> int (length (d # ds)) * int (P div 2)"
      by (simp add: mult_le_cancel_right1)
    have e: "scan_line st1 + int (length ds) * int (P div 2) =
             scan_line st + int (length (d # ds)) * int (P div 2)"
      using sl1 by (simp add: algebra_simps)
    have z: "ds = [] \<Longrightarrow> int (length (d # ds)) * int (P div 2) = int (P div 2)" by simp
    show ?thesis unfolding vs' vs1 e H1 using m z by auto
  qed
  then show ?case
    using h r ok' sl' sl1 calls by (simp add: algebra_simps)
qed

lemma isr_run_no_reset_witness:
  "\<exists>st'. isr_run demo_isr [5, 6, 7] = Inr (map (isr_call 9 8 2) [1, 2, 3], st') \<and>
         scan_line st' = 3 \<and> \<not> vsync st'"
  using isr_run_no_reset[OF demo_isr_ok, of "[5, 6, 7]"]
  by (simp add: demo_isr_def demo_pool_def demo_vdc_def VGADirectController_def del: isr_run.simps)
     blast

section \<open>Error paths\<close>

text \<open>
  C24. The handler's failures: a zero viewport height is a division by zero in
  \<open>% viewPortHeight\<close>; with a non-zero height, a missing callback or a null
  \<open>m_lines\<close> table is a null-pointer call or dereference. None of them is checked.
\<close>

lemma ISRHandler_errors:
  "(vp_height st = 0 \<longrightarrow> ISRHandler st True d = Inl DivisionByZero) \<and>
   (vp_height st \<noteq> 0 \<and> draw_cb st = None \<longrightarrow> ISRHandler st True d = Inl NullPointer) \<and>
   (vp_height st \<noteq> 0 \<and> draw_cb st \<noteq> None \<and> lines_tbl st = nullptr \<longrightarrow>
      ISRHandler st True d = Inl NullPointer)"
  by (auto simp: ISRHandler_def isr_render_def isr_detect_wrap_def c_mod_def Let_def)

lemma ISRHandler_errors_witness:
  "ISRHandler (demo_isr\<lparr>vp_height := 0\<rparr>) True 0 = Inl DivisionByZero \<and>
   ISRHandler demo_pool True 0 = Inl NullPointer"
  using ISRHandler_errors[of "demo_isr\<lparr>vp_height := 0\<rparr>" 0] ISRHandler_errors[of demo_pool 0]
  by (simp add: demo_isr_def demo_pool_def demo_vdc_def VGADirectController_def)

section \<open>The buffer mask and the chain's binding\<close>

text \<open>
  C6. With a power-of-two pool, the buffer the handler hands the callback for
  scanline \<open>y\<close>, \<open>m_lines[y & (P-1)]\<close>, is \<open>m_lines[y % P]\<close>: the buffer the chain
  builder bound to row \<open>y\<close> (\<open>onSetupDMABuffer\<close>), so the rendered row is the row that
  will be transmitted from that buffer.
\<close>

lemma ISRHandler_dest_matches_chain:
  assumes ok: "producer_ok st p0 w (2 ^ k) cb" and h: "ISRHandler st True d = Inr (Some c, st')"
  shows "call_dest c = lines st ! nat (call_scanline c mod 2 ^ k)"
proof -
  let ?st = "isr_detect_wrap st d"
  have ok': "producer_ok ?st p0 w (2 ^ k) cb" by (rule producer_ok_wrap[OF ok])
  define y where "y = (scan_line ?st + int (2 ^ k div 2)) mod vp_height ?st"
  have y0: "0 \<le> y" using ok' by (simp add: y_def producer_ok_def)
  have c: "c = isr_call p0 w (2 ^ k) y"
    using h isr_render_eq[of ?st p0 w "2 ^ k" cb] ok'
    by (simp add: ISRHandler_def producer_ok_def isr_call_def y_def)
  have m: "y AND (int (2 ^ k) - 1) = y mod 2 ^ k"
    by (simp add: and_pow2_minus_one_eq_mod)
  have lt: "nat (y mod 2 ^ k) < 2 ^ k" using y0
    by (simp add: nat_less_iff)
  have "lines st = pool_rows p0 w (2 ^ k)" using ok by (simp add: producer_ok_def pool_ok_def)
  then show ?thesis using lt m by (simp add: c isr_call_def pool_rows_nth)
qed

lemma ISRHandler_dest_matches_chain_witness:
  "ISRHandler demo_isr True 0 = Inr (Some \<lparr>call_dest = 17, call_scanline = 1\<rparr>,
      demo_isr\<lparr>mem := (mem demo_isr)(17 := demo_cb 1), scan_line := 1\<rparr>) \<and>
   call_dest \<lparr>call_dest = 17, call_scanline = 1\<rparr> = lines demo_isr ! nat (1 mod 2 ^ 1)"
proof -
  have h: "ISRHandler demo_isr True 0 = Inr (Some \<lparr>call_dest = 17, call_scanline = 1\<rparr>,
      demo_isr\<lparr>mem := (mem demo_isr)(17 := demo_cb 1), scan_line := 1\<rparr>)"
    by (simp add: ISRHandler_def isr_render_def isr_detect_wrap_def demo_isr_def demo_pool_def
        demo_vdc_def VGADirectController_def c_arith pool_rows_def c_index_def)
  show ?thesis
    using h ISRHandler_dest_matches_chain[of demo_isr 9 8 1 demo_cb 0, OF _ h] demo_isr_ok by simp
qed

text \<open>
  C18. Without a power-of-two pool the mask and the chain disagree. \<open>setScanlinesPerCallBack\<close>
  accepts any value, so take any pool size \<open>P\<close> that is not a power of two, on a chain
  laid out as the builder lays it out (\<open>fillVertBuffers_frame\<close>). The interrupt that
  renders scanline \<open>P\<close> writes it into \<open>m_lines[P & (P-1)]\<close>. The chain transmits row
  \<open>P\<close> from \<open>m_lines[P % P] = m_lines[0]\<close>, which is a different buffer.
\<close>

lemma ISRHandler_non_pow2_misplaces:
  assumes ok: "producer_ok st p0 w P cb" and np: "\<forall>k. P \<noteq> 2 ^ k" and w: "0 < w" and S: "0 < S"
    and ch: "chain st = map (frame_desc p0 w P S (nat (vp_height st) * S) blank) [0..<nat (vp_height st) * S + B]"
    and nr: "frame_reset_desc st \<noteq> Some d"
    and y: "(scan_line st + int (P div 2)) mod vp_height st = int P"
  shows "\<exists>c st'. ISRHandler st True d = Inr (Some c, st') \<and> call_scanline c = int P \<and>
     desc_buf (chain st ! (P * S)) = lines st ! 0 \<and> call_dest c \<noteq> desc_buf (chain st ! (P * S))"
proof -
  have P: "2 \<le> P" "lines st = pool_rows p0 w P" "0 < vp_height st"
    using ok by (simp_all add: producer_ok_def pool_ok_def)
  have PH: "P < nat (vp_height st)"
    using y P(3) pos_mod_bound [of "vp_height st" "scan_line st + int (P div 2)"] by linarith
  have slot: "P * S < nat (vp_height st) * S" using PH S by simp
  have slot2: "P * S < nat (vp_height st) * S + B" using slot by linarith
  have buf: "desc_buf (chain st ! (P * S)) = p0"
    using slot slot2 S by (simp add: ch frame_desc_def)
  have mask: "int P AND (int P - 1) \<noteq> 0" using and_minus_one_non_pow2 [of P] P(1) np by simp
  have dest: "p0 + nat (int P AND (int P - 1)) * w \<noteq> p0"
    using mask w by (simp add: and_nonnegative_int_iff order_le_less)
  obtain st' where "ISRHandler st True d = Inr (Some (isr_call p0 w P (int P)), st')"
    using ISRHandler_no_reset [OF ok nr] y by auto
  then show ?thesis
    using buf dest P(1,2) by (auto simp: isr_call_def pool_rows_def)
qed

lemma six_not_pow2: "(6::nat) \<noteq> 2 ^ k"
proof
  assume h: "6 = (2::nat) ^ k"
  then have "k \<noteq> 0" by (cases k) simp_all
  then obtain j where "k = Suc j" using not0_implies_Suc by blast
  then have "3 = (2::nat) ^ j" using h by simp
  then show False by (cases j) (simp_all, presburger)
qed

lemma ISRHandler_non_pow2_misplaces_witness:
  "\<exists>c st'. ISRHandler (demo_isr\<lparr>lines := pool_rows 9 8 6, lines_count := 6, vp_height := 12, scan_line := 3,
        chain := map (frame_desc 9 8 6 1 12 0) [0..<12]\<rparr>) True 0 = Inr (Some c, st') \<and>
     call_scanline c = 6 \<and> call_dest c \<noteq> 9"
proof -
  let ?st = "demo_isr\<lparr>lines := pool_rows 9 8 6, lines_count := 6, vp_height := 12, scan_line := 3,
        chain := map (frame_desc 9 8 6 1 12 0) [0..<12]\<rparr>"
  have ok: "producer_ok ?st 9 8 6 demo_cb" using demo_isr_ok by (simp add: producer_ok_def pool_ok_def)
  have h: "\<forall>k. (6::nat) \<noteq> 2 ^ k" "frame_reset_desc ?st \<noteq> Some 0"
    "chain ?st = map (frame_desc 9 8 6 1 (nat (vp_height ?st) * 1) 0) [0..<nat (vp_height ?st) * 1 + 0]"
    "(scan_line ?st + int (6 div 2)) mod vp_height ?st = int 6"
    using six_not_pow2 by (simp_all add: demo_isr_def demo_pool_def demo_vdc_def VGADirectController_def)
  show ?thesis
    using ISRHandler_non_pow2_misplaces [OF ok h(1) _ _ h(3) h(2) h(4)]
    by (simp add: frame_desc_def)
qed

end
