(* ===== verification/Configurator.thy ===== *)
theory Configurator
  imports Producer
begin

text \<open>
  The timing/resolution configurator: \<open>VGADirectController::setResolution\<close> and
  \<open>VGADirectController::run\<close> (vgadirectcontroller.cpp lines 118-149), over the part of
  the base class \<open>VGABaseController\<close> they call (\<open>end()\<close> and its own
  \<open>setResolution\<close>, which are not in this repository and are written from the
  specification: stop a running stream and release the previous viewport, take the
  viewport size, allocate it, build the frame's descriptor chain).
\<close>

section \<open>Timings\<close>

text \<open>
  The part of a \<open>VGATimings\<close> the controller's setup depends on: the visible area, the
  number of times each row is transmitted (\<open>scanCount\<close>) and the number of blanking
  rows of a frame (front porch, sync pulse and back porch).
\<close>

record vga_timings =
  t_hvisible :: int
  t_vvisible :: int
  t_scan_count :: nat
  t_vblank :: nat

text \<open>A requested viewport dimension: a negative request (the default \<open>-1\<close>) takes the timing's visible size.\<close>

definition vp_dim :: "int \<Rightarrow> int \<Rightarrow> int" where
  "vp_dim req visible = (if req < 0 then visible else req)"

section \<open>The base controller\<close>

text \<open>
  \<open>VGABaseController::end()\<close>: if descriptors exist (\<open>m_DMABuffers\<close>), stop the GPIO
  stream and release them together with the viewport (\<open>freeBuffers\<close> calls the
  virtual \<open>freeViewPort\<close>).
\<close>

definition base_end :: "vdc \<Rightarrow> vdc_error + vdc" where
  "base_end st =
     (if chain st = [] then Inr st
      else ebind (freeViewPort st) (\<lambda>st'. Inr (st'\<lparr>gpio_streaming := False, chain := []\<rparr>)))"

text \<open>
  \<open>VGABaseController::setResolution(timings, viewPortWidth, viewPortHeight, doubleBuffered)\<close>:
  \<open>end()\<close>, the viewport size, the virtual \<open>allocateViewPort()\<close>, then the frame's chain
  through \<open>fillVertBuffers\<close>; \<open>blank\<close> is the base's blank-line buffer.
\<close>

definition base_setResolution :: "addr \<Rightarrow> vga_timings \<Rightarrow> int \<Rightarrow> int \<Rightarrow> vdc \<Rightarrow> vdc_error + vdc" where
  "base_setResolution blank tm viewPortWidth viewPortHeight st =
     ebind (base_end st) (\<lambda>st1.
       ebind (allocateViewPort (st1\<lparr>vp_width := vp_dim viewPortWidth (t_hvisible tm),
                                   vp_height := vp_dim viewPortHeight (t_vvisible tm)\<rparr>))
         (fillVertBuffers (t_scan_count tm) (t_vblank tm) blank))"

section \<open>The controller's operations\<close>

text \<open>
  \<open>run()\<close> (lines 131-149): start the GPIO stream, restart the scanline counter, and,
  only when no interrupt handler is installed yet, allocate the I2S interrupt pinned
  to the video core and enable its \<open>out_eof\<close> source. \<open>s_VSync\<close> is left as it is.
\<close>

definition run :: "vdc \<Rightarrow> vdc" where
  "run st =
     (let st1 = st\<lparr>gpio_streaming := True, scan_line := 0\<rparr>
      in if \<not> isr_handle st1
         then st1\<lparr>isr_handle := True, intr_allocs := intr_allocs st1 + 1, eof_intr_enabled := True\<rparr>
         else st1)"

text \<open>
  \<open>setResolution(timings, viewPortWidth, viewPortHeight, doubleBuffered)\<close>
  (lines 118-128): without a callback it returns at once; otherwise the base's
  configuration, then \<open>run()\<close> when the controller was built with \<open>autoRun\<close>.
  \<open>doubleBuffered\<close> only reaches the base, which this controller overrides to false.
\<close>

definition setResolution :: "addr \<Rightarrow> vga_timings \<Rightarrow> int \<Rightarrow> int \<Rightarrow> bool \<Rightarrow> vdc \<Rightarrow> vdc_error + vdc" where
  "setResolution blank tm viewPortWidth viewPortHeight doubleBuffered st =
     (if draw_cb st = None then Inr st
      else ebind (base_setResolution blank tm viewPortWidth viewPortHeight st)
             (\<lambda>st'. Inr (if auto_run st' then run st' else st')))"

section \<open>A concrete timing\<close>

definition demo_timings :: vga_timings where
  "demo_timings = \<lparr>t_hvisible = 8, t_vvisible = 4, t_scan_count = 1, t_vblank = 2\<rparr>"

text \<open>A fresh controller with the demo callback registered.\<close>

definition demo_cfg :: vdc where
  "demo_cfg = demo_vdc\<lparr>draw_cb := Some demo_cb\<rparr>"

section \<open>Starting output\<close>

lemma run_fields:
  "vdc_heap (run st) = vdc_heap st" "chain (run st) = chain st" "lines (run st) = lines st"
  "lines_tbl (run st) = lines_tbl st" "isr_handle (run st)" "scan_line (run st) = 0"
  "gpio_streaming (run st)" "intr_allocs (run st) = intr_allocs st + (if isr_handle st then 0 else 1)"
  by (simp_all add: run_def Let_def)

text \<open>
  C13. \<open>run()\<close> is idempotent against re-installation: however many times it is called,
  the interrupt is allocated at most once (never when a handler was already
  installed), and no heap block, descriptor or buffer is allocated by it.
\<close>

theorem run_installs_once:
  "intr_allocs ((run ^^ Suc k) st) = intr_allocs st + (if isr_handle st then 0 else 1) \<and>
   isr_handle ((run ^^ Suc k) st) \<and> vdc_heap ((run ^^ Suc k) st) = vdc_heap st \<and>
   chain ((run ^^ Suc k) st) = chain st \<and> lines ((run ^^ Suc k) st) = lines st"
  by (induction k) (simp_all add: run_fields)

section \<open>The vertical-sync flag across a reconfiguration\<close>

lemma allocateViewPort_prod_state:
  "allocateViewPort st = Inr st' \<Longrightarrow> vsync st' = vsync st \<and> auto_run st' = auto_run st"
  by (auto simp: allocateViewPort_def Let_def split: prod.splits if_splits sum.splits)

lemma freeViewPort_prod_state:
  "freeViewPort st = Inr st' \<Longrightarrow> vsync st' = vsync st \<and> auto_run st' = auto_run st"
  by (auto simp: freeViewPort_def split: if_splits sum.splits)

lemma base_setResolution_prod_state:
  assumes "base_setResolution blank tm vw vh st = Inr st'"
  shows "vsync st' = vsync st \<and> auto_run st' = auto_run st"
proof -
  obtain st1 st2 where e: "base_end st = Inr st1"
    and a: "allocateViewPort (st1\<lparr>vp_width := vp_dim vw (t_hvisible tm), vp_height := vp_dim vh (t_vvisible tm)\<rparr>) = Inr st2"
    and f: "fillVertBuffers (t_scan_count tm) (t_vblank tm) blank st2 = Inr st'"
    using assms by (auto simp: base_setResolution_def ebind_Inr_iff)
  have "vsync st1 = vsync st \<and> auto_run st1 = auto_run st"
    using e by (auto simp: base_end_def ebind_Inr_iff dest!: freeViewPort_prod_state split: if_splits)
  moreover have "vsync st2 = vsync st1 \<and> auto_run st2 = auto_run st1"
    using allocateViewPort_prod_state [OF a] by simp
  moreover have "vsync st' = vsync st2 \<and> auto_run st' = auto_run st2"
    using arg_cong [OF conjunct1 [OF fillVertBuffers_keeps [OF f]], of vsync]
      arg_cong [OF conjunct1 [OF fillVertBuffers_keeps [OF f]], of auto_run] by simp
  ultimately show ?thesis by simp
qed

text \<open>
  C15. A reconfiguration keeps \<open>VSync()\<close>: \<open>setResolution\<close> (and the \<open>run()\<close> it calls)
  restarts the scanline counter but leaves \<open>s_VSync\<close> as it was, so a flag raised by
  the previous configuration's last frame still reads true before the new
  configuration has produced any frame.
\<close>

theorem setResolution_keeps_vsync:
  assumes "setResolution blank tm vw vh db st = Inr st'"
  shows "VSync st' = VSync st \<and> (draw_cb st \<noteq> None \<and> auto_run st \<longrightarrow> scan_line st' = 0)"
proof (cases "draw_cb st = None")
  case True
  then show ?thesis using assms by (simp add: setResolution_def)
next
  case False
  then obtain st1 where b: "base_setResolution blank tm vw vh st = Inr st1"
    and r: "st' = (if auto_run st1 then run st1 else st1)"
    using assms by (auto simp: setResolution_def ebind_Inr_iff)
  have "vsync (run st1) = vsync st1" by (simp add: run_def Let_def)
  then show ?thesis using base_setResolution_prod_state [OF b] r False
    by (auto simp: VSync_def run_fields)
qed

section \<open>Configuration without a callback\<close>

text \<open>
  C14. \<open>setResolution\<close> without a registered callback leaves the controller exactly as
  it was: nothing allocated, no chain built, output not started.
\<close>

theorem setResolution_no_callback:
  "draw_cb st = None \<Longrightarrow> setResolution blank tm vw vh db st = Inr st"
  by (simp add: setResolution_def)

theorem setResolution_no_callback_witness:
  "setResolution 0 demo_timings (-1) (-1) False demo_vdc = Inr demo_vdc"
  using setResolution_no_callback[of demo_vdc]
  by (simp add: demo_vdc_def VGADirectController_def)

lemma demo_cfg_configures:
  "\<exists>st1. setResolution 0 demo_timings (-1) (-1) False demo_cfg = Inr st1"
  by (simp add: setResolution_def base_setResolution_def base_end_def demo_cfg_def demo_vdc_def
      VGADirectController_def demo_timings_def vp_dim_def allocateViewPort_def demo_heap_def
      heap_caps_malloc_def cxx_new_array_def lines_loop_pool_rows [unfolded One_nat_def]
      fillVertBuffers_def onSetupDMABuffer_def c_index_def c_update_def c_mod_def pool_rows_def
      upt_rec Let_def blank_desc_def c_arith)

lemma demo_cfg_reconfigures:
  "\<exists>st1 st2. setResolution 0 demo_timings (-1) (-1) False demo_cfg = Inr st1 \<and>
     setResolution 0 demo_timings (-1) (-1) False st1 = Inr st2"
  by (simp add: setResolution_def base_setResolution_def base_end_def demo_cfg_def demo_vdc_def
      VGADirectController_def demo_timings_def vp_dim_def allocateViewPort_def demo_heap_def
      heap_caps_malloc_def cxx_new_array_def lines_loop_pool_rows [unfolded One_nat_def]
      fillVertBuffers_def onSetupDMABuffer_def c_index_def c_update_def c_mod_def pool_rows_def
      upt_rec Let_def blank_desc_def c_arith run_def freeViewPort_def heap_caps_free_def)

lemma demo_cfg_facts:
  "heap_wf (vdc_heap demo_cfg)" "chain demo_cfg = []" "draw_cb demo_cfg = Some demo_cb"
  "lines_count demo_cfg = int 2" "0 \<le> scan_line demo_cfg"
  by (simp_all add: demo_cfg_def demo_vdc_def VGADirectController_def demo_heap_def heap_wf_def)

section \<open>Configuration from a fresh controller\<close>

text \<open>
  The two steps of a configuration from a controller that has no chain yet: the
  allocation on the requested viewport, then the chain, then \<open>run()\<close> under \<open>autoRun\<close>.
\<close>

lemma setResolution_steps:
  assumes "chain st = []" and "draw_cb st = Some cb"
    and "setResolution blank tm vw vh db st = Inr st1"
  obtains stB stC where
    "allocateViewPort (st\<lparr>vp_width := vp_dim vw (t_hvisible tm), vp_height := vp_dim vh (t_vvisible tm)\<rparr>) = Inr stB"
    "fillVertBuffers (t_scan_count tm) (t_vblank tm) blank stB = Inr stC"
    "st1 = (if auto_run stC then run stC else stC)"
  using assms
  by (auto simp: setResolution_def base_setResolution_def base_end_def ebind_Inr_iff)



text \<open>
  What a configuration from a fresh controller leaves in the heap: the blocks of its
  allocation, \<open>Bs\<close>, on top of the previous live blocks; and the pool fields of the
  controller are those of that allocation.
\<close>

lemma setResolution_fresh:
  assumes ch: "chain st = []" and cb: "draw_cb st = Some cb"
    and ok: "setResolution blank tm vw vh db st = Inr st1"
  obtains stB where
    "allocateViewPort (st\<lparr>vp_width := vp_dim vw (t_hvisible tm), vp_height := vp_dim vh (t_vvisible tm)\<rparr>) = Inr stB"
    "lines_tbl st1 = lines_tbl stB" "lines st1 = lines stB" "dma_lines_tbl st1 = dma_lines_tbl stB"
    "vdc_heap st1 = vdc_heap stB" "draw_cb st1 = Some cb" "auto_run st1 = auto_run st"
    "length (chain st1) = nat (vp_dim vh (t_vvisible tm)) * t_scan_count tm + t_vblank tm"
proof -
  obtain stB stC where a: "allocateViewPort (st\<lparr>vp_width := vp_dim vw (t_hvisible tm), vp_height := vp_dim vh (t_vvisible tm)\<rparr>) = Inr stB"
    and f: "fillVertBuffers (t_scan_count tm) (t_vblank tm) blank stB = Inr stC"
    and st1: "st1 = (if auto_run stC then run stC else stC)"
    by (rule setResolution_steps[OF ch cb ok])
  obtain tbl p0 dtbl where stB: "stB = st\<lparr>vp_width := vp_dim vw (t_hvisible tm), vp_height := vp_dim vh (t_vvisible tm),
              lines_tbl := tbl, lines := p0, vdc_heap := vdc_heap stB, dma_lines_tbl := dtbl,
              dma_lines := dma_lines stB\<rparr>"
    using a by (auto simp: allocateViewPort_def Let_def split: prod.splits if_splits sum.splits)
  obtain x y z where stC: "stC = stB\<lparr>dma_lines := x, chain := y, frame_reset_desc := z\<rparr>"
    and lC: "length (chain stC) = nat (vp_height stB) * t_scan_count tm + t_vblank tm"
    using fillVertBuffers_keeps[OF f] by blast
  have hB: "vp_height stB = vp_dim vh (t_vvisible tm)" "draw_cb stB = Some cb" "auto_run stB = auto_run st"
    using arg_cong[OF stB, of vp_height] arg_cong[OF stB, of draw_cb] arg_cong[OF stB, of auto_run] cb
    by simp_all
  show thesis
  proof (rule that[OF a])
  qed (use hB lC in \<open>simp_all add: st1 stC run_def Let_def\<close>)
qed

text \<open>
  Configuring a fresh controller with a registered callback and a pool of
  \<open>P \<ge> 2\<close> rows sets up everything the interrupt handler relies on: the pool is laid
  out from one base address, the chain binds and tags the frame's slots as
  \<open>fillVertBuffers\<close> does, row 0's first descriptor is the frame-reset marker, the heap stays
  well-formed, and with \<open>autoRun\<close> output is started with the counter at 0.
\<close>

lemma setResolution_configures:
  assumes wf: "heap_wf (vdc_heap st)" and ch: "chain st = []" and cb: "draw_cb st = Some cb"
    and lc: "lines_count st = int P" "2 \<le> P" and S: "0 < t_scan_count tm"
    and H: "0 < vp_dim vh (t_vvisible tm)" and W: "vp_dim vw (t_hvisible tm) = int w"
    and sl: "0 \<le> scan_line st"
    and ok: "setResolution blank tm vw vh db st = Inr st1"
  defines "Hn \<equiv> nat (vp_dim vh (t_vvisible tm))"
  shows "\<exists>p0. producer_ok st1 p0 w P cb \<and> vp_height st1 = vp_dim vh (t_vvisible tm) \<and>
     chain st1 = map (frame_desc p0 w P (t_scan_count tm) (Hn * t_scan_count tm) blank)
                     [0..<Hn * t_scan_count tm + t_vblank tm] \<and>
     dma_lines st1 = map (\<lambda>v. Some (v * t_scan_count tm + t_scan_count tm - 1)) [0..<Hn] \<and>
     frame_reset_desc st1 = Some 0 \<and> heap_wf (vdc_heap st1) \<and>
     (auto_run st \<longrightarrow> gpio_streaming st1 \<and> isr_handle st1 \<and> scan_line st1 = 0 \<and>
        (\<not> isr_handle st \<longrightarrow> eof_intr_enabled st1))"
proof -
  let ?stA = "st\<lparr>vp_width := vp_dim vw (t_hvisible tm), vp_height := vp_dim vh (t_vvisible tm)\<rparr>"
  obtain stB stC where a: "allocateViewPort ?stA = Inr stB"
    and f: "fillVertBuffers (t_scan_count tm) (t_vblank tm) blank stB = Inr stC"
    and st1: "st1 = (if auto_run stC then run stC else stC)"
    using setResolution_steps[OF ch cb ok] by blast
  have wfA: "heap_wf (vdc_heap ?stA)" using wf by simp
  obtain tbl p0 dtbl where tbl: "tbl \<noteq> nullptr" and dtbl: "dtbl \<noteq> nullptr" and lcA: "0 < lines_count ?stA"
    and stB: "stB = ?stA\<lparr>lines_tbl := tbl, lines := pool_rows p0 (nat (vp_width ?stA)) (nat (lines_count ?stA)),
              vdc_heap := vdc_heap stB, dma_lines_tbl := dtbl,
              dma_lines := replicate (nat (vp_height ?stA)) None\<rparr>"
    and wfB: "heap_wf (vdc_heap stB)"
    by (rule allocateViewPort_Inr[OF wfA a])
  have fB: "lines_tbl stB = tbl" "lines stB = pool_rows p0 w P" "lines_count stB = int P"
      "vp_height stB = vp_dim vh (t_vvisible tm)" "dma_lines stB = replicate Hn None"
      "draw_cb stB = Some cb" "vp_width stB = int w" "scan_line stB = scan_line st"
    using arg_cong[OF stB, of lines_tbl] arg_cong[OF stB, of lines] arg_cong[OF stB, of lines_count]
      arg_cong[OF stB, of vp_height] arg_cong[OF stB, of dma_lines] arg_cong[OF stB, of draw_cb]
      arg_cong[OF stB, of vp_width] arg_cong[OF stB, of scan_line] lc W cb
    by (simp_all add: Hn_def)
  have poolB: "pool_ok stB p0 w P" using fB tbl lc by (simp add: pool_ok_def)
  have dB: "dma_lines stB = replicate (nat (vp_height stB)) None" using fB by (simp add: Hn_def)
  have stC: "stC = stB\<lparr>chain := map (frame_desc p0 w P (t_scan_count tm) (Hn * t_scan_count tm) blank)
                                  [0..<Hn * t_scan_count tm + t_vblank tm],
            dma_lines := map (\<lambda>v. Some (v * t_scan_count tm + t_scan_count tm - 1)) [0..<Hn],
            frame_reset_desc := Some 0\<rparr>"
    using fillVertBuffers_eq[OF poolB S dB, of "t_vblank tm" blank] f H by (simp add: fB Hn_def)
  have okC: "producer_ok stC p0 w P cb \<and> vp_height stC = vp_dim vh (t_vvisible tm) \<and>
     chain stC = map (frame_desc p0 w P (t_scan_count tm) (Hn * t_scan_count tm) blank)
                     [0..<Hn * t_scan_count tm + t_vblank tm] \<and>
     dma_lines stC = map (\<lambda>v. Some (v * t_scan_count tm + t_scan_count tm - 1)) [0..<Hn] \<and>
     frame_reset_desc stC = Some 0 \<and> heap_wf (vdc_heap stC) \<and>
     auto_run stC = auto_run st \<and> isr_handle stC = isr_handle st"
    using poolB fB H sl wfB arg_cong[OF stB, of auto_run] arg_cong[OF stB, of isr_handle]
    by (simp add: stC producer_ok_def pool_ok_def)
  show ?thesis
  proof (cases "auto_run st")
    case True
    then show ?thesis using okC
      by (intro exI[of _ p0]) (simp add: st1 run_def Let_def producer_ok_def pool_ok_def)
  next
    case False
    then show ?thesis using okC by (intro exI[of _ p0]) (simp add: st1)
  qed
qed

lemma demo_cfg_configured:
  "\<exists>st1. setResolution 0 demo_timings (-1) (-1) False demo_cfg = Inr st1 \<and>
     (\<exists>p0. producer_ok st1 p0 8 2 demo_cb \<and> frame_reset_desc st1 = Some 0 \<and>
        gpio_streaming st1 \<and> scan_line st1 = 0)"
proof -
  obtain st1 where s: "setResolution 0 demo_timings (-1) (-1) False demo_cfg = Inr st1"
    using demo_cfg_configures by blast
  have t: "0 < t_scan_count demo_timings" "0 < vp_dim (-1) (t_vvisible demo_timings)"
    "vp_dim (-1) (t_hvisible demo_timings) = int 8" "auto_run demo_cfg"
    by (simp_all add: demo_timings_def vp_dim_def demo_cfg_def demo_vdc_def VGADirectController_def)
  show ?thesis
    using setResolution_configures[OF demo_cfg_facts(1-4) _ t(1-3) demo_cfg_facts(5) s] s t(4) by auto
qed

section \<open>Reconfiguration\<close>

text \<open>
  C12. Reconfiguring after a configuration releases the previous pool, its table and
  \<open>s_DMALines\<close> exactly once before allocating new ones: the frees counted during
  the second \<open>setResolution\<close> are the blocks the first one allocated, and afterwards
  only the second configuration's blocks are live on top of the original heap.
\<close>

lemma setResolution_reconfigure_frees_once:
  assumes wf: "heap_wf (vdc_heap st)" and ch: "chain st = []" and cb: "draw_cb st = Some cb"
    and vb: "0 < t_vblank tm"
    and first: "setResolution blank tm vw vh db st = Inr st1"
    and second: "setResolution blank' tm' vw' vh' db' st1 = Inr st2"
  shows "\<exists>Bs Bs'. hp_live (vdc_heap st1) = Bs @ hp_live (vdc_heap st) \<and>
           hp_live (vdc_heap st2) = Bs' @ hp_live (vdc_heap st) \<and>
           hp_frees (vdc_heap st1) = hp_frees (vdc_heap st) \<and>
           hp_frees (vdc_heap st2) = hp_frees (vdc_heap st1) + length Bs"
proof -
  let ?stA = "st\<lparr>vp_width := vp_dim vw (t_hvisible tm), vp_height := vp_dim vh (t_vvisible tm)\<rparr>"
  obtain stB where a: "allocateViewPort ?stA = Inr stB"
    and k: "lines_tbl st1 = lines_tbl stB" "lines st1 = lines stB" "dma_lines_tbl st1 = dma_lines_tbl stB"
      "vdc_heap st1 = vdc_heap stB" and cb1: "draw_cb st1 = Some cb"
    and len: "length (chain st1) = nat (vp_dim vh (t_vvisible tm)) * t_scan_count tm + t_vblank tm"
    by (rule setResolution_fresh[OF ch cb first])
  have wfA: "heap_wf (vdc_heap ?stA)" using wf by simp
  obtain Bs h2 where fr: "freeViewPort st1 = Inr (st1\<lparr>lines_tbl := nullptr, lines := [], vdc_heap := h2\<rparr>)"
    and l1: "hp_live (vdc_heap stB) = Bs @ hp_live (vdc_heap ?stA)" and l2: "hp_live h2 = hp_live (vdc_heap ?stA)"
    and a1: "hp_allocs (vdc_heap stB) = hp_allocs (vdc_heap ?stA) + length Bs"
    and f1: "hp_frees (vdc_heap stB) = hp_frees (vdc_heap ?stA)"
    and a2: "hp_allocs h2 = hp_allocs (vdc_heap stB)" and f2: "hp_frees h2 = hp_frees (vdc_heap stB) + length Bs"
    and n2: "hp_next h2 = hp_next (vdc_heap stB)" and m2: "hp_limit h2 = hp_limit (vdc_heap stB)"
    by (rule allocate_then_free[OF wfA a k])
  have wfB: "heap_wf (vdc_heap stB)"
    using allocateViewPort_Inr[OF wfA a] by blast
  have wf2: "heap_wf h2" by (rule heap_wf_suffix[OF wfB _ n2 m2]) (simp add: l1 l2)
  have "chain st1 \<noteq> []" using len vb by auto
  then have e: "base_end st1 = Inr (st1\<lparr>lines_tbl := nullptr, lines := [], vdc_heap := h2,
                                       gpio_streaming := False, chain := []\<rparr>)"
    using fr by (simp add: base_end_def)
  let ?stD = "st1\<lparr>lines_tbl := nullptr, lines := [], vdc_heap := h2, gpio_streaming := False, chain := []\<rparr>"
  let ?stD' = "?stD\<lparr>vp_width := vp_dim vw' (t_hvisible tm'), vp_height := vp_dim vh' (t_vvisible tm')\<rparr>"
  obtain stB2 stC2 where a2': "allocateViewPort ?stD' = Inr stB2"
    and f2': "fillVertBuffers (t_scan_count tm') (t_vblank tm') blank' stB2 = Inr stC2"
    and st2: "st2 = (if auto_run stC2 then run stC2 else stC2)"
    using second cb1 e by (auto simp: setResolution_def base_setResolution_def ebind_Inr_iff)
  have wfD: "heap_wf (vdc_heap ?stD')" using wf2 by simp
  obtain tbl p0 dtbl where "tbl \<noteq> nullptr" "dtbl \<noteq> nullptr" "0 < lines_count ?stD'"
    "stB2 = ?stD'\<lparr>lines_tbl := tbl, lines := pool_rows p0 (nat (vp_width ?stD')) (nat (lines_count ?stD')),
              vdc_heap := vdc_heap stB2, dma_lines_tbl := dtbl,
              dma_lines := replicate (nat (vp_height ?stD')) None\<rparr>"
    "heap_wf (vdc_heap stB2)" "distinct (tbl # dtbl # map fst (hp_live (vdc_heap ?stD')))"
    and c2: "p0 = nullptr \<and> hp_live (vdc_heap stB2) = (dtbl, nat (max 1 (4 * vp_height ?stD'))) # (tbl, nat (4 * lines_count ?stD')) # hp_live (vdc_heap ?stD')
       \<and> hp_allocs (vdc_heap stB2) = hp_allocs (vdc_heap ?stD') + 2 \<and> hp_frees (vdc_heap stB2) = hp_frees (vdc_heap ?stD')
     \<or> p0 \<noteq> nullptr \<and> p0 \<notin> set (tbl # dtbl # map fst (hp_live (vdc_heap ?stD'))) \<and>
       hp_live (vdc_heap stB2) = (dtbl, nat (max 1 (4 * vp_height ?stD'))) # (p0, nat (vp_width ?stD' * lines_count ?stD')) # (tbl, nat (4 * lines_count ?stD')) # hp_live (vdc_heap ?stD')
       \<and> hp_allocs (vdc_heap stB2) = hp_allocs (vdc_heap ?stD') + 3 \<and> hp_frees (vdc_heap stB2) = hp_frees (vdc_heap ?stD')"
    by (rule allocateViewPort_Inr[OF wfD a2'])
  have "vdc_heap stC2 = vdc_heap stB2"
    using arg_cong[OF conjunct1[OF fillVertBuffers_keeps[OF f2']], of vdc_heap] by simp
  then have h2': "vdc_heap st2 = vdc_heap stB2"
    using st2 by (simp add: run_def Let_def)
  obtain Bs' where "hp_live (vdc_heap stB2) = Bs' @ hp_live h2" "hp_frees (vdc_heap stB2) = hp_frees h2"
    using c2 by (auto intro: that[of "[_, _]"] that[of "[_, _, _]"])
  then show ?thesis using l1 l2 f1 f2 k h2' by (intro exI[of _ Bs] exI[of _ Bs']) simp
qed

theorem setResolution_reconfigure_frees_once_witness:
  "\<exists>st1 st2. setResolution 0 demo_timings (-1) (-1) False demo_cfg = Inr st1 \<and>
     setResolution 0 demo_timings (-1) (-1) False st1 = Inr st2 \<and>
     (\<exists>Bs Bs'. hp_live (vdc_heap st1) = Bs @ hp_live (vdc_heap demo_cfg) \<and>
        hp_live (vdc_heap st2) = Bs' @ hp_live (vdc_heap demo_cfg) \<and>
        hp_frees (vdc_heap st2) = hp_frees (vdc_heap st1) + length Bs)"
proof -
  obtain st1 st2 where s: "setResolution 0 demo_timings (-1) (-1) False demo_cfg = Inr st1"
    and s2: "setResolution 0 demo_timings (-1) (-1) False st1 = Inr st2"
    using demo_cfg_reconfigures by blast
  have "0 < t_vblank demo_timings" by (simp add: demo_timings_def)
  then show ?thesis
    using setResolution_reconfigure_frees_once[OF demo_cfg_facts(1-3) _ s s2] s s2 by blast
qed

theorem setResolution_keeps_vsync_witness:
  "\<exists>st'. setResolution 0 demo_timings (-1) (-1) False (demo_cfg\<lparr>vsync := True\<rparr>) = Inr st' \<and>
     VSync st' \<and> scan_line st' = 0"
proof -
  obtain st' where s: "setResolution 0 demo_timings (-1) (-1) False (demo_cfg\<lparr>vsync := True\<rparr>) = Inr st'"
    by (simp add: setResolution_def base_setResolution_def base_end_def demo_cfg_def demo_vdc_def
      VGADirectController_def demo_timings_def vp_dim_def allocateViewPort_def demo_heap_def
      heap_caps_malloc_def cxx_new_array_def lines_loop_pool_rows [unfolded One_nat_def]
      fillVertBuffers_def onSetupDMABuffer_def c_index_def c_update_def c_mod_def pool_rows_def
      upt_rec Let_def blank_desc_def c_arith)
  then show ?thesis using setResolution_keeps_vsync [OF s]
    by (simp add: VSync_def demo_cfg_def demo_vdc_def VGADirectController_def)
qed

end
