(* ===== verification/Pipeline.thy ===== *)
theory Pipeline
  imports Configurator
begin

text \<open>
  The producer/consumer pipeline: the I2S DMA engine walking the descriptor ring the
  chain builder set up, and the interrupt handler that runs whenever a descriptor with
  the \<open>eof\<close> bit has been consumed. The engine is hardware; it is written from the
  specification (one descriptor per scanline-transmission slot, cyclic, an interrupt
  on \<open>eof\<close>). The handler is assumed to complete within its budget: it runs between
  the consumption of its descriptor and the next one (the specification's real-time
  contract; a handler that overruns causes tearing, which is outside the model).
\<close>

section \<open>The DMA engine\<close>

text \<open>
  One slot: the engine transmits the buffer the descriptor at \<open>pos\<close> points to; if the
  descriptor has \<open>eof\<close>, the peripheral raises \<open>out_eof\<close> with
  \<open>out_eof_des_addr = pos\<close> and the handler runs.
\<close>

definition dma_slot :: "vdc \<Rightarrow> nat \<Rightarrow> vdc_error + row \<times> vdc" where
  "dma_slot st pos =
     ebind (c_index (chain st) (int pos)) (\<lambda>d.
       let out = mem st (desc_buf d)
       in if desc_eof d
          then ebind (ISRHandler st True pos) (\<lambda>(_, st'). Inr (out, st'))
          else Inr (out, st))"

text \<open>
  \<open>k\<close> consecutive slots from \<open>pos\<close>, wrapping around the ring; the transmitted
  rows in order. The engine never stops; \<open>k\<close> is the observation horizon.
\<close>

fun pipe_run :: "vdc \<Rightarrow> nat \<Rightarrow> nat \<Rightarrow> vdc_error + row list \<times> vdc" where
  "pipe_run st pos 0 = Inr ([], st)"
| "pipe_run st pos (Suc k) =
     ebind (dma_slot st pos) (\<lambda>(out, st').
       ebind (pipe_run st' (Suc pos mod length (chain st)) k) (\<lambda>(outs, st'').
         Inr (out # outs, st'')))"

section \<open>A configured pipeline\<close>

text \<open>
  The state \<open>setResolution\<close> leaves for a pool of \<open>P = 2^(k+1)\<close> rows (so each interrupt
  renders \<open>n = 2^k\<close> rows) of \<open>w > 0\<close> bytes at \<open>p0\<close>, a viewport of \<open>H\<close> rows that is a
  multiple of \<open>P\<close>, each row sent \<open>S > 0\<close> times, and \<open>B\<close> blanking slots: the frame chain
  of the builder with slot 0 as frame-reset marker.
\<close>

definition pipe_ok :: "vdc \<Rightarrow> addr \<Rightarrow> nat \<Rightarrow> nat \<Rightarrow> nat \<Rightarrow> nat \<Rightarrow> addr \<Rightarrow> draw_callback \<Rightarrow> bool" where
  "pipe_ok st p0 w k S B blank cb \<longleftrightarrow>
     producer_ok st p0 w (2 ^ Suc k) cb \<and> 0 < w \<and> 0 < S \<and>
     nat (vp_height st) mod 2 ^ Suc k = 0 \<and> frame_reset_desc st = Some 0 \<and>
     chain st = map (frame_desc p0 w (2 ^ Suc k) S (nat (vp_height st) * S) blank)
                    [0..<nat (vp_height st) * S + B]"

section \<open>Concrete pipelines\<close>

text \<open>
  The demo controller with its frame chain (two rows of pool, four visible rows sent
  once, two blanking slots), and a timing of six visible rows for a pool of four rows.
\<close>

definition demo_pipe :: vdc where
  "demo_pipe = demo_isr\<lparr>chain := map (frame_desc 9 8 2 1 4 0) [0..<6], frame_reset_desc := Some 0\<rparr>"

definition demo_timings6 :: vga_timings where
  "demo_timings6 = \<lparr>t_hvisible = 8, t_vvisible = 6, t_scan_count = 1, t_vblank = 1\<rparr>"

section \<open>The handler changes only the pool contents and the production state\<close>

lemma isr_render_keeps:
  "isr_render st = Inr (c, st') \<Longrightarrow>
     st' = st\<lparr>mem := mem st', scan_line := scan_line st', vsync := vsync st'\<rparr>"
  by (simp add: isr_render_def Let_def ebind_case split: if_splits sum.splits option.splits) force+

lemma ISRHandler_keeps:
  "ISRHandler st b d = Inr (c, st') \<Longrightarrow>
     st' = st\<lparr>mem := mem st', scan_line := scan_line st', vsync := vsync st'\<rparr>"
  unfolding ISRHandler_def isr_detect_wrap_def
  by (auto dest!: isr_render_keeps split: if_splits)

lemma dma_slot_keeps:
  "dma_slot st pos = Inr (out, st') \<Longrightarrow>
     st' = st\<lparr>mem := mem st', scan_line := scan_line st', vsync := vsync st'\<rparr>"
  unfolding dma_slot_def Let_def
  by (auto simp: ebind_Inr_iff dest!: ISRHandler_keeps split: if_splits)

lemma pipe_run_keeps:
  "pipe_run st pos k = Inr (outs, st') \<Longrightarrow>
     st' = st\<lparr>mem := mem st', scan_line := scan_line st', vsync := vsync st'\<rparr> \<and> length outs = k"
proof (induction k arbitrary: st pos outs)
  case 0
  then show ?case by simp
next
  case (Suc k)
  then obtain out st1 outs' where s: "dma_slot st pos = Inr (out, st1)"
    and r: "pipe_run st1 (Suc pos mod length (chain st)) k = Inr (outs', st')" and o: "outs = out # outs'"
    by (auto simp: ebind_Inr_iff)
  obtain m s v where st1: "st1 = st\<lparr>mem := m, scan_line := s, vsync := v\<rparr>"
    using dma_slot_keeps [OF s] by blast
  show ?case using Suc.IH [OF r] o by (simp add: st1)
qed

text \<open>Unfolding a run of a numeral number of slots, for concrete runs.\<close>

lemma pipe_run_numeral:
  "pipe_run st pos (numeral m) =
     ebind (dma_slot st pos) (\<lambda>(out, st').
       ebind (pipe_run st' (Suc pos mod length (chain st)) (pred_numeral m)) (\<lambda>(outs, st'').
         Inr (out # outs, st'')))"
  by (simp add: numeral_eq_Suc)

lemma pipe_run_append:
  "pos < length (chain st) \<Longrightarrow> pipe_run st pos (a + b) =
     ebind (pipe_run st pos a) (\<lambda>(o1, st1).
       ebind (pipe_run st1 ((pos + a) mod length (chain st)) b) (\<lambda>(o2, st2). Inr (o1 @ o2, st2)))"
proof (induction a arbitrary: st pos)
  case 0
  then show ?case by (cases "pipe_run st pos b") auto
next
  case (Suc a)
  show ?case
  proof (cases "dma_slot st pos")
    case (Inl e)
    then show ?thesis by simp
  next
    case (Inr r)
    obtain out st1 where r: "r = (out, st1)" by fastforce
    have ch: "chain st1 = chain st"
      using arg_cong [OF dma_slot_keeps [OF Inr [unfolded r]], of chain] by simp
    have L: "0 < length (chain st)" using Suc.prems by arith
    have m: "(Suc pos mod length (chain st) + a) mod length (chain st) = (pos + Suc a) mod length (chain st)"
      by (simp add: mod_add_left_eq)
    show ?thesis
      using Inr r Suc.IH [of "Suc pos mod length (chain st)" st1] ch m L
      by (auto simp: ebind_case split: sum.splits)
  qed
qed

section \<open>Arithmetic of the frame layout\<close>

lemma mod_double_block:
  assumes "t < (n::nat)"
  shows "(q * n + t) mod (2 * n) = (q mod 2) * n + t"
proof -
  obtain a b where ab: "q = 2 * a + b" "b < 2" "b = q mod 2"
    by (metis div_mult_mod_eq mod_less_divisor mult.commute zero_less_numeral add.commute)
  have "q * n + t = a * (2 * n) + (b * n + t)" by (simp add: ab(1) algebra_simps)
  moreover have "b * n + t < 2 * n"
  proof -
    have "b = 0 \<or> b = 1" using ab(2) by arith
    then show ?thesis using assms by auto
  qed
  ultimately show ?thesis using ab(3) by (metis mod_mult_self3 mod_less)
qed

lemma block_no_eof:
  assumes "0 < (S::nat)" and "u * S < i" and "i < (u + n) * S" and "u mod n = 0"
  shows "\<not> (i mod S = 0 \<and> (i div S) mod n = 0)"
proof
  assume e: "i mod S = 0 \<and> (i div S) mod n = 0"
  have "u * S div S \<le> i div S" using assms(2) by (intro div_le_mono) simp
  then have lo: "u \<le> i div S" using assms(1) by simp
  have hi: "i div S < u + n" using assms(3) by (rule less_mult_imp_div_less)
  have "n dvd (i div S - u)" using e assms(4) mod_eq_dvd_iff_nat [OF lo, of n] by simp
  moreover have "i div S - u < n" using hi lo by simp
  ultimately have "i div S - u = 0" using nat_dvd_not_less [of "i div S - u" n] by auto
  then have "i div S = u" using lo by simp
  moreover have "i = i div S * S + i mod S" by simp
  ultimately have "i = u * S" using e by simp
  then show False using assms(2) by simp
qed

section \<open>Runs of slots without an interrupt\<close>

lemma pipe_run_plain:
  assumes "pos + k \<le> length (chain st)" and "\<forall>i. pos \<le> i \<and> i < pos + k \<longrightarrow> \<not> desc_eof (chain st ! i)"
  shows "pipe_run st pos k = Inr (map (\<lambda>i. mem st (desc_buf (chain st ! i))) [pos..<pos + k], st)"
  using assms
proof (induction k arbitrary: pos)
  case 0
  then show ?case by simp
next
  case (Suc k)
  have d: "dma_slot st pos = Inr (mem st (desc_buf (chain st ! pos)), st)"
    using Suc.prems by (simp add: dma_slot_def c_index_def)
  show ?case
  proof (cases k)
    case 0
    then show ?thesis using d by simp
  next
    case (Suc k')
    have p: "Suc pos mod length (chain st) = Suc pos" using Suc.prems(1) \<open>k = Suc k'\<close> by simp
    have "pipe_run st (Suc pos) k = Inr (map (\<lambda>i. mem st (desc_buf (chain st ! i))) [Suc pos..<Suc pos + k], st)"
      using Suc.prems by (intro Suc.IH) auto
    then show ?thesis using d p by (simp add: upt_conv_Cons del: upt_Suc)
  qed
qed

section \<open>One block of rows\<close>

text \<open>
  The rows of the pool, in blocks of \<open>n\<close>: block \<open>q\<close> occupies the half
  \<open>q mod 2\<close> of the pool. The handler at the start of block \<open>q\<close> writes the other half,
  so what block \<open>q\<close> transmits is not touched.
\<close>

lemma pool_halves_disjoint:
  assumes "0 < w" and "t < n" and "j < n"
  shows "p0 + ((q * n + t) mod (2 * n)) * w \<noteq> p0 + ((Suc q mod 2) * n) * w + j * (w::nat)"
proof -
  have "(q * n + t) mod (2 * n) = (q mod 2) * n + t" by (rule mod_double_block [OF assms(2)])
  moreover have "(q mod 2) * n + t \<noteq> (Suc q mod 2) * n + j"
    using assms(2,3) by (cases "q mod 2 = 0") (auto simp: mod_Suc)
  ultimately show ?thesis using assms(1)
    by (metis add_mult_distrib row_start_inj add.assoc)
qed

lemma pool_next_half:
  assumes "0 < w" and "j < n"
  shows "fill_rows m (p0 + ((Suc q mod 2) * n) * w) w cb y n (p0 + ((Suc q * n + j) mod (2 * n)) * w) =
           cb (y + int j)"
proof -
  have "(Suc q * n + j) mod (2 * n) = (Suc q mod 2) * n + j" by (rule mod_double_block [OF assms(2)])
  then have "p0 + ((Suc q * n + j) mod (2 * n)) * w = p0 + ((Suc q mod 2) * n) * w + j * w"
    by (simp add: algebra_simps)
  then show ?thesis
    using fill_rows_at [OF assms, of m "p0 + ((Suc q mod 2) * n) * w" cb y] by (simp only:)
qed

lemma pipe_ok_facts:
  assumes "pipe_ok st p0 w k S B blank cb"
  shows "producer_ok st p0 w (2 ^ Suc k) cb" "0 < w" "0 < S" "nat (vp_height st) mod 2 ^ Suc k = 0"
    "frame_reset_desc st = Some 0" "vp_height st = int (nat (vp_height st))" "0 < nat (vp_height st)"
    "chain st = map (frame_desc p0 w (2 ^ Suc k) S (nat (vp_height st) * S) blank)
                    [0..<nat (vp_height st) * S + B]"
  using assms by (auto simp: pipe_ok_def producer_ok_def)

text \<open>The interrupt at the first slot of block \<open>q\<close>, which starts at row \<open>u = q * n\<close>.\<close>

lemma pipe_block_isr:
  assumes ok: "pipe_ok st p0 w k S B blank cb" and q: "u = q * 2 ^ k" "u < nat (vp_height st)"
    and s: "u = 0 \<or> scan_line st = int u"
  shows "dma_slot st (u * S) =
     Inr (mem st (p0 + (u mod 2 ^ Suc k) * w),
          st\<lparr>mem := fill_rows (mem st) (p0 + ((Suc q mod 2) * 2 ^ k) * w) w cb
                        (int ((u + 2 ^ k) mod nat (vp_height st))) (2 ^ k),
             scan_line := int (u + 2 ^ k), vsync := (vp_height st \<le> int (u + 2 ^ k) \<or> (0 < u \<and> vsync st))\<rparr>)"
proof -
  let ?H = "nat (vp_height st)" and ?n = "2 ^ k :: nat" and ?P = "2 ^ Suc k :: nat"
  note f = pipe_ok_facts [OF ok]
  have pos: "u * S < ?H * S" using q(2) f(3) by simp
  have "u * S < ?H * S + B" using pos by (simp only: trans_less_add1)
  then have "chain st ! (u * S) = frame_desc p0 w ?P S (?H * S) blank (u * S)"
    by (simp only: f(8) nth_map length_upt nth_upt add_0 diff_zero)
  also have "\<dots> = \<lparr>desc_buf = p0 + (u mod ?P) * w, desc_eof = True\<rparr>"
    using pos f(3) q(1) by (simp add: frame_desc_def)
  finally have d: "chain st ! (u * S) = \<lparr>desc_buf = p0 + (u mod ?P) * w, desc_eof = True\<rparr>" .
  have ci: "c_index (chain st) (int (u * S)) = Inr \<lparr>desc_buf = p0 + (u mod ?P) * w, desc_eof = True\<rparr>"
  proof -
    have "u * S < length (chain st)"
      using \<open>u * S < ?H * S + B\<close> by (simp only: f(8) length_map length_upt diff_zero)
    then show ?thesis by (simp only: c_index_nat d)
  qed
  let ?stw = "st\<lparr>scan_line := int u, vsync := (frame_reset_desc st \<noteq> Some (u * S) \<and> vsync st)\<rparr>"
  have w: "isr_detect_wrap st (u * S) = ?stw"
    using s f(3,5) by (auto simp: isr_detect_wrap_eq)
  have okw: "producer_ok ?stw p0 w ?P cb" using f(1) by (simp add: producer_ok_def pool_ok_def)
  have y: "(int u + int (?P div 2)) mod vp_height st = int ((u + ?n) mod ?H)"
  proof -
    obtain Hn where Hn: "vp_height st = int Hn" using f(6) by blast
    show ?thesis unfolding Hn by (simp add: zmod_int)
  qed
  have i: "int ((u + ?n) mod ?H) AND (int ?P - 1) = int ((Suc q mod 2) * ?n)"
  proof -
    have "int ((u + ?n) mod ?H) AND (int ?P - 1) = int ((u + ?n) mod ?H) mod int ?P"
      using and_pow2_minus_one_eq_mod [of "int ((u + ?n) mod ?H)" "Suc k"] by simp
    also have "\<dots> = int ((u + ?n) mod ?H mod ?P)" by (simp only: zmod_int)
    also have "(u + ?n) mod ?H mod ?P = (u + ?n) mod ?P"
      using f(4) by (simp add: mod_mod_cancel dvd_eq_mod_eq_0)
    also have "(u + ?n) mod ?P = (Suc q * ?n + 0) mod (2 * ?n)" using q(1) by (simp add: add.commute)
    also have "\<dots> = (Suc q mod 2) * ?n" by (subst mod_double_block) simp_all
    finally show ?thesis .
  qed
  have r: "isr_render ?stw = Inr (Some \<lparr>call_dest = p0 + (Suc q mod 2) * ?n * w,
                                         call_scanline = int ((u + ?n) mod ?H)\<rparr>,
      ?stw\<lparr>mem := fill_rows (mem st) (p0 + ((Suc q mod 2) * ?n) * w) w cb (int ((u + ?n) mod ?H)) ?n,
           scan_line := int u + int ?n,
           vsync := (vp_height st \<le> int u + int ?n \<or> (frame_reset_desc st \<noteq> Some (u * S) \<and> vsync st))\<rparr>)"
    using isr_render_eq [of ?stw p0 w ?P cb] okw y i by (simp add: producer_ok_def nat_mult_distrib nat_power_eq)
  show ?thesis
    unfolding dma_slot_def ci ebind.simps Let_def lldesc.select_convs if_True ISRHandler_def not_True_eq_False
      if_False w r
    using f(3,5) by simp
qed

lemma block_end_le:
  assumes "u = q * (n::nat)" and "u < H" and "H mod (2 * n) = 0"
  shows "u + n \<le> H"
proof -
  obtain m where H: "H = m * n" using assms(3) by (metis dvd_eq_mod_eq_0 dvd_mult_left mult.commute dvd_def)
  then have "q < m" using assms(1,2) by (metis mult_less_cancel2)
  then show ?thesis using assms(1) H by (metis Suc_leI mult_Suc mult_le_mono1 add.commute)
qed

text \<open>
  Block \<open>q\<close>: its \<open>n * S\<close> slots transmit the rows \<open>u .. u + n - 1\<close> from the pool half
  they are bound to, as it was when the block started; the interrupt at its first slot
  renders the next \<open>n\<close> rows (modulo \<open>H\<close>) into the other half and advances the counter.
\<close>

lemma pipe_block:
  assumes ok: "pipe_ok st p0 w k S B blank cb" and q: "u = q * 2 ^ k" "u < nat (vp_height st)"
    and s: "u = 0 \<or> scan_line st = int u"
  shows "\<exists>v. pipe_run st (u * S) (2 ^ k * S) =
     Inr (map (\<lambda>i. mem st (p0 + ((i div S) mod 2 ^ Suc k) * w)) [u * S..<u * S + 2 ^ k * S],
          st\<lparr>mem := fill_rows (mem st) (p0 + ((Suc q mod 2) * 2 ^ k) * w) w cb
                        (int ((u + 2 ^ k) mod nat (vp_height st))) (2 ^ k),
             scan_line := int (u + 2 ^ k), vsync := v\<rparr>)"
proof -
  let ?H = "nat (vp_height st)" and ?n = "2 ^ k :: nat" and ?P = "2 ^ Suc k :: nat"
  let ?M = "fill_rows (mem st) (p0 + ((Suc q mod 2) * ?n) * w) w cb (int ((u + ?n) mod ?H)) ?n"
  let ?f = "\<lambda>i. mem st (p0 + ((i div S) mod ?P) * w)"
  note f = pipe_ok_facts [OF ok]
  obtain v where d: "dma_slot st (u * S) = Inr (mem st (p0 + (u mod ?P) * w),
      st\<lparr>mem := ?M, scan_line := int (u + ?n), vsync := v\<rparr>)"
    using pipe_block_isr [OF ok q s] by (rule that)
  let ?st1 = "st\<lparr>mem := ?M, scan_line := int (u + ?n), vsync := v\<rparr>"
  have un: "u + ?n \<le> ?H" using block_end_le [OF q(1,2)] f(4) by simp
  have L: "length (chain st) = ?H * S + B" by (simp add: f(8))
  have end_le: "(u + ?n) * S \<le> ?H * S" using un by simp
  have pos: "u * S < length (chain st)" using L q(2) f(3) by (simp add: trans_less_add1)
  have h1: "pipe_run st (u * S) 1 = Inr ([?f (u * S)], ?st1)"
    using d f(3) by simp
  have nS: "?n * S = 1 + (?n * S - 1)" using f(3) by simp
  have plain: "pipe_run ?st1 ((u * S + 1) mod length (chain st)) (?n * S - 1) =
      Inr (map ?f [u * S + 1..<u * S + ?n * S], ?st1)"
  proof (cases "?n * S - 1 = 0")
    case True
    then show ?thesis using nS by simp
  next
    case False
    then have lt: "u * S + 1 < length (chain st)" using L end_le by (simp add: algebra_simps)
    have noeof: "\<forall>i. u * S + 1 \<le> i \<and> i < u * S + 1 + (?n * S - 1) \<longrightarrow> \<not> desc_eof (chain ?st1 ! i)"
    proof (intro allI impI)
      fix i assume i: "u * S + 1 \<le> i \<and> i < u * S + 1 + (?n * S - 1)"
      then have "i < ?H * S" using end_le nS by (simp add: algebra_simps)
      moreover have "\<not> (i mod S = 0 \<and> (i div S) mod ?n = 0)"
      proof (rule block_no_eof [OF f(3)])
        show "u * S < i" using i by simp
        show "i < (u + ?n) * S" using i nS by (simp add: algebra_simps)
        show "u mod ?n = 0" using q(1) by simp
      qed
      ultimately show "\<not> desc_eof (chain ?st1 ! i)" by (simp add: f(8) frame_desc_def nth_append)
    qed
    have same: "\<forall>i \<in> set [u * S + 1..<u * S + ?n * S]. mem ?st1 (desc_buf (chain ?st1 ! i)) = ?f i"
    proof
      fix i assume "i \<in> set [u * S + 1..<u * S + ?n * S]"
      then have i: "u * S < i" "i < (u + ?n) * S" by (auto simp: algebra_simps)
      then have ih: "i < ?H * S" using end_le by (meson less_le_trans)
      have "u * S div S \<le> i div S" using i(1) by (intro div_le_mono) simp
      then have lo: "u \<le> i div S" using f(3) by simp
      have hi: "i div S < u + ?n" using i(2) by (rule less_mult_imp_div_less)
      obtain t where t: "i div S = u + t" "t < ?n"
      proof
        show "i div S = u + (i div S - u)" using lo by simp
        show "i div S - u < ?n" using lo hi by simp
      qed
      have "?M (p0 + ((i div S) mod ?P) * w) = mem st (p0 + ((i div S) mod ?P) * w)"
      proof (rule fill_rows_other, intro allI impI)
        fix j assume "j < ?n"
        then show "p0 + ((i div S) mod ?P) * w \<noteq> p0 + ((Suc q mod 2) * ?n) * w + j * w"
          using pool_halves_disjoint [OF f(2) t(2), of j p0 q] t(1) q(1) by simp
      qed
      then show "mem ?st1 (desc_buf (chain ?st1 ! i)) = ?f i"
        using ih by (simp add: f(8) frame_desc_def nth_append)
    qed
    have "pipe_run ?st1 (u * S + 1) (?n * S - 1) =
        Inr (map (\<lambda>i. mem ?st1 (desc_buf (chain ?st1 ! i))) [u * S + 1..<u * S + 1 + (?n * S - 1)], ?st1)"
      using lt L end_le noeof by (intro pipe_run_plain) (simp_all add: algebra_simps)
    moreover have "u * S + 1 + (?n * S - 1) = u * S + ?n * S" using nS by simp
    moreover have "map (\<lambda>i. mem ?st1 (desc_buf (chain ?st1 ! i))) [u * S + 1..<u * S + ?n * S] =
        map ?f [u * S + 1..<u * S + ?n * S]"
      using same by (intro map_cong refl) blast
    moreover have "(u * S + 1) mod length (chain st) = u * S + 1" using lt by simp
    ultimately show ?thesis by (simp only:)
  qed
  have "pipe_run st (u * S) (1 + (?n * S - 1)) =
      Inr ([?f (u * S)] @ map ?f [u * S + 1..<u * S + ?n * S], ?st1)"
    unfolding pipe_run_append [OF pos, of 1 "?n * S - 1"] h1 ebind.simps prod.case plain by (rule refl)
  then have "pipe_run st (u * S) (?n * S) =
      Inr ([?f (u * S)] @ map ?f [u * S + 1..<u * S + ?n * S], ?st1)"
    by (simp only: nS [symmetric])
  moreover have "[?f (u * S)] @ map ?f [u * S + 1..<u * S + ?n * S] = map ?f [u * S..<u * S + ?n * S]"
    using nS f(3) by (simp add: upt_conv_Cons)
  ultimately show ?thesis by auto
qed

lemma pipe_ok_update:
  "pipe_ok st p0 w k S B blank cb \<Longrightarrow> 0 \<le> s \<Longrightarrow>
     pipe_ok (st\<lparr>mem := m, scan_line := s, vsync := v\<rparr>) p0 w k S B blank cb"
  by (simp add: pipe_ok_def producer_ok_def pool_ok_def)

section \<open>A frame\<close>

text \<open>
  After the first \<open>q\<close> blocks of a frame started at slot 0: the rows sent so far are the
  callback's, except those of block 0, which come from the pool as it was when the frame
  started; the counter is \<open>q * n\<close>; and the pool half of block \<open>q\<close> holds the callback's
  rows \<open>q * n mod H ..\<close> (after the last block, rows \<open>0 .. n - 1\<close> of the next frame).
\<close>

lemma pipe_blocks:
  assumes ok: "pipe_ok st0 p0 w k S B blank cb"
  shows "q \<le> nat (vp_height st0) div 2 ^ k \<Longrightarrow>
    \<exists>outs st. pipe_run st0 0 (q * 2 ^ k * S) = Inr (outs, st) \<and> pipe_ok st p0 w k S B blank cb \<and>
      st = st0\<lparr>mem := mem st, scan_line := scan_line st, vsync := vsync st\<rparr> \<and>
      length outs = q * 2 ^ k * S \<and>
      (\<forall>i < q * 2 ^ k * S. outs ! i =
          (if i div S < 2 ^ k then mem st0 (p0 + (i div S) * w) else cb (int (i div S)))) \<and>
      (q = 0 \<longrightarrow> st = st0) \<and>
      (0 < q \<longrightarrow> scan_line st = int (q * 2 ^ k) \<and>
         (\<forall>j < 2 ^ k. mem st (p0 + ((q * 2 ^ k + j) mod 2 ^ Suc k) * w) =
                       cb (int ((q * 2 ^ k) mod nat (vp_height st0) + j))))"
proof (induction q)
  case 0
  then show ?case using ok by simp
next
  case (Suc q)
  let ?H = "nat (vp_height st0)" and ?n = "2 ^ k :: nat" and ?P = "2 ^ Suc k :: nat"
  note f = pipe_ok_facts [OF ok]
  have "Suc q * ?n \<le> ?H div ?n * ?n" using Suc.prems by (rule mult_le_mono1)
  then have "?n + q * ?n \<le> ?H div ?n * ?n" by simp
  moreover have "?H div ?n * ?n \<le> ?H" by (rule div_times_less_eq_dividend)
  moreover have "0 < ?n" by simp
  ultimately have qH: "q * ?n < ?H" by linarith
  obtain outs st where r: "pipe_run st0 0 (q * ?n * S) = Inr (outs, st)" and okst: "pipe_ok st p0 w k S B blank cb"
    and st: "st = st0\<lparr>mem := mem st, scan_line := scan_line st, vsync := vsync st\<rparr>"
    and len: "length outs = q * ?n * S"
    and o: "\<forall>i < q * ?n * S. outs ! i = (if i div S < ?n then mem st0 (p0 + (i div S) * w) else cb (int (i div S)))"
    and z: "q = 0 \<longrightarrow> st = st0"
    and inv: "0 < q \<longrightarrow> scan_line st = int (q * ?n) \<and>
         (\<forall>j < ?n. mem st (p0 + ((q * ?n + j) mod ?P) * w) = cb (int ((q * ?n) mod ?H + j)))"
    using Suc.IH Suc.prems by auto
  have Hst: "vp_height st = vp_height st0" and cst: "chain st = chain st0"
    using arg_cong [OF st, of vp_height] arg_cong [OF st, of chain] by simp_all
  have s: "q * ?n = 0 \<or> scan_line st = int (q * ?n)" using inv by auto
  obtain v where b: "pipe_run st (q * ?n * S) (?n * S) =
     Inr (map (\<lambda>i. mem st (p0 + ((i div S) mod ?P) * w)) [q * ?n * S..<q * ?n * S + ?n * S],
          st\<lparr>mem := fill_rows (mem st) (p0 + ((Suc q mod 2) * ?n) * w) w cb
                        (int ((q * ?n + ?n) mod ?H)) ?n,
             scan_line := int (q * ?n + ?n), vsync := v\<rparr>)"
    using pipe_block [OF okst refl _ s] qH Hst by auto
  let ?blk = "map (\<lambda>i. mem st (p0 + ((i div S) mod ?P) * w)) [q * ?n * S..<q * ?n * S + ?n * S]"
  let ?st' = "st\<lparr>mem := fill_rows (mem st) (p0 + ((Suc q mod 2) * ?n) * w) w cb
                        (int ((q * ?n + ?n) mod ?H)) ?n,
             scan_line := int (q * ?n + ?n), vsync := v\<rparr>"
  have L: "length (chain st0) = ?H * S + B" by (simp add: f(8))
  have qS: "q * ?n * S < length (chain st0)" using qH f(3) L by (simp add: trans_less_add1)
  have pos: "0 < length (chain st0)" using qS by arith
  have run: "pipe_run st0 0 (Suc q * ?n * S) = Inr (outs @ ?blk, ?st')"
  proof -
    have "Suc q * ?n * S = q * ?n * S + ?n * S" by (simp add: algebra_simps)
    moreover have "(0 + q * ?n * S) mod length (chain st0) = q * ?n * S" using qS by simp
    ultimately show ?thesis
      by (simp only: pipe_run_append [OF pos] r b ebind.simps prod.case cst)
  qed
  have outs: "\<forall>i < Suc q * ?n * S. (outs @ ?blk) ! i =
        (if i div S < ?n then mem st0 (p0 + (i div S) * w) else cb (int (i div S)))"
  proof (intro allI impI)
    fix i assume i: "i < Suc q * ?n * S"
    show "(outs @ ?blk) ! i = (if i div S < ?n then mem st0 (p0 + (i div S) * w) else cb (int (i div S)))"
    proof (cases "i < q * ?n * S")
      case True
      then show ?thesis using o len by (simp add: nth_append)
    next
      case False
      have j: "i - q * ?n * S < ?n * S" using i False by (simp add: algebra_simps)
      have "[q * ?n * S..<q * ?n * S + ?n * S] ! (i - q * ?n * S) = i" using j False by simp
      then have e: "(outs @ ?blk) ! i = mem st (p0 + ((i div S) mod ?P) * w)"
        using False j len by (simp add: nth_append)
      have "q * ?n * S div S \<le> i div S" using False by (intro div_le_mono) simp
      then have lo: "q * ?n \<le> i div S" using f(3) by simp
      have hi: "i div S < q * ?n + ?n" using i by (intro less_mult_imp_div_less) (simp add: algebra_simps)
      show ?thesis
      proof (cases "q = 0")
        case True
        then show ?thesis using e z hi by simp
      next
        case False
        have j: "i div S - q * ?n < ?n" using hi lo by simp
        have m1: "mem st (p0 + ((q * ?n + (i div S - q * ?n)) mod ?P) * w) =
                     cb (int ((q * ?n) mod ?H + (i div S - q * ?n)))"
          using inv False j by blast
        have e2: "q * ?n + (i div S - q * ?n) = i div S" using lo by simp
        have e3: "(q * ?n) mod ?H = q * ?n" using qH by simp
        have "?n \<le> q * ?n" using False by simp
        then have "\<not> i div S < ?n" using lo by linarith
        then show ?thesis using e m1 by (simp only: e2 e3 if_False)
      qed
    qed
  qed
  have nxt: "\<forall>j < ?n. mem ?st' (p0 + ((Suc q * ?n + j) mod ?P) * w) =
                       cb (int ((Suc q * ?n) mod ?H + j))"
    using pool_next_half [OF f(2), of _ "?n" "mem st" p0 q cb "int ((q * ?n + ?n) mod ?H)"]
    by (simp add: add.commute)
  show ?case
  proof (intro exI conjI)
    show "pipe_run st0 0 (Suc q * ?n * S) = Inr (outs @ ?blk, ?st')" by (rule run)
    show "pipe_ok ?st' p0 w k S B blank cb" by (rule pipe_ok_update [OF okst]) simp
    show "?st' = st0\<lparr>mem := mem ?st', scan_line := scan_line ?st', vsync := vsync ?st'\<rparr>"
      by (subst st) simp
    show "length (outs @ ?blk) = Suc q * ?n * S" using len by (simp add: algebra_simps)
    show "\<forall>i < Suc q * ?n * S. (outs @ ?blk) ! i =
        (if i div S < ?n then mem st0 (p0 + (i div S) * w) else cb (int (i div S)))" by (rule outs)
    show "Suc q = 0 \<longrightarrow> ?st' = st0" by simp
    show "0 < Suc q \<longrightarrow> scan_line ?st' = int (Suc q * ?n) \<and>
         (\<forall>j < ?n. mem ?st' (p0 + ((Suc q * ?n + j) mod ?P) * w) =
                       cb (int ((Suc q * ?n) mod ?H + j)))"
      using nxt by simp
  qed
qed

text \<open>
  A whole frame from slot 0: the \<open>H / n\<close> blocks, then the blanking slots, which have
  no \<open>eof\<close>. The engine is back at slot 0 with rows \<open>0 .. n - 1\<close> of the next frame
  already in the pool.
\<close>

lemma pipe_frame:
  assumes ok: "pipe_ok st0 p0 w k S B blank cb"
  shows "\<exists>outs st. pipe_run st0 0 (length (chain st0)) = Inr (outs, st) \<and> pipe_ok st p0 w k S B blank cb \<and>
      st = st0\<lparr>mem := mem st, scan_line := scan_line st, vsync := vsync st\<rparr> \<and>
      length outs = length (chain st0) \<and>
      (\<forall>i < nat (vp_height st0) * S. outs ! i =
          (if i div S < 2 ^ k then mem st0 (p0 + (i div S) * w) else cb (int (i div S)))) \<and>
      (\<forall>j < 2 ^ k. mem st (p0 + j * w) = cb (int j))"
proof -
  let ?H = "nat (vp_height st0)" and ?n = "2 ^ k :: nat" and ?P = "2 ^ Suc k :: nat"
  note f = pipe_ok_facts [OF ok]
  have "?P dvd ?H" using f(4) by (simp only: dvd_eq_mod_eq_0)
  moreover have "?n dvd ?P" by simp
  ultimately have "?n dvd ?H" by (rule dvd_trans [rotated])
  then have Hn: "?H div ?n * ?n = ?H" by (rule dvd_div_mult_self)
  have Q0: "0 < ?H div ?n" using Hn f(7) by (cases "?H div ?n = 0") simp_all
  obtain outs st where r: "pipe_run st0 0 (?H div ?n * ?n * S) = Inr (outs, st)"
    and okst: "pipe_ok st p0 w k S B blank cb"
    and st: "st = st0\<lparr>mem := mem st, scan_line := scan_line st, vsync := vsync st\<rparr>"
    and len: "length outs = ?H div ?n * ?n * S"
    and o: "\<forall>i < ?H div ?n * ?n * S. outs ! i =
          (if i div S < ?n then mem st0 (p0 + (i div S) * w) else cb (int (i div S)))"
    and inv: "0 < ?H div ?n \<longrightarrow> scan_line st = int (?H div ?n * ?n) \<and>
         (\<forall>j < ?n. mem st (p0 + ((?H div ?n * ?n + j) mod ?P) * w) =
                       cb (int ((?H div ?n * ?n) mod ?H + j)))"
    using pipe_blocks [OF ok order_refl] apply (elim exE conjE) apply (rule that) apply assumption+ done
  have cst: "chain st = chain st0" using arg_cong [OF st, of chain] by simp
  have L: "length (chain st0) = ?H * S + B" by (simp add: f(8))
  have pos: "0 < length (chain st0)" using f(3,7) L by simp
  have blank_run: "\<exists>bo. pipe_run st ((0 + ?H * S) mod length (chain st0)) B = Inr (bo, st) \<and> length bo = B"
  proof (cases "B = 0")
    case True
    then show ?thesis by simp
  next
    case False
    then have m: "(0 + ?H * S) mod length (chain st0) = ?H * S" using L by simp
    have "pipe_run st (?H * S) B = Inr (map (\<lambda>i. mem st (desc_buf (chain st ! i))) [?H * S..<?H * S + B], st)"
    proof (rule pipe_run_plain)
      show "?H * S + B \<le> length (chain st)" using cst L by simp
      show "\<forall>i. ?H * S \<le> i \<and> i < ?H * S + B \<longrightarrow> \<not> desc_eof (chain st ! i)"
        using cst by (simp add: f(8) frame_desc_def blank_desc_def)
    qed
    then show ?thesis using m by simp
  qed
  then obtain bo where b: "pipe_run st ((0 + ?H * S) mod length (chain st0)) B = Inr (bo, st)"
    and lb: "length bo = B" by blast
  have run: "pipe_run st0 0 (length (chain st0)) = Inr (outs @ bo, st)"
    using pipe_run_append [OF pos, of "?H * S" B] r b Hn L by simp
  have rows: "\<forall>j < ?n. mem st (p0 + j * w) = cb (int j)"
  proof (intro allI impI)
    fix j assume j: "j < ?n"
    have "(?H + j) mod ?P = (?H mod ?P + j) mod ?P" by (simp only: mod_add_left_eq)
    also have "\<dots> = j" using f(4) j by simp
    finally have "(?H + j) mod ?P = j" .
    moreover have "mem st (p0 + ((?H div ?n * ?n + j) mod ?P) * w) = cb (int ((?H div ?n * ?n) mod ?H + j))"
      using inv Q0 j by blast
    ultimately show "mem st (p0 + j * w) = cb (int j)" by (simp only: Hn mod_self add_0)
  qed
  have lens: "length (outs @ bo) = length (chain st0)" using len lb Hn L by simp
  have outs: "\<forall>i < ?H * S. (outs @ bo) ! i =
          (if i div S < ?n then mem st0 (p0 + (i div S) * w) else cb (int (i div S)))"
  proof (intro allI impI)
    fix i assume "i < ?H * S"
    then have i: "i < ?H div ?n * ?n * S" using Hn by simp
    then have "(outs @ bo) ! i = outs ! i" using len by (simp add: nth_append)
    then show "(outs @ bo) ! i = (if i div S < ?n then mem st0 (p0 + (i div S) * w) else cb (int (i div S)))"
      using o i by simp
  qed
  show ?thesis using run okst st lens outs rows by blast
qed

section \<open>Any number of frames\<close>

lemma pipe_frames:
  assumes ok: "pipe_ok st0 p0 w k S B blank cb"
  defines "L \<equiv> length (chain st0)" and "HS \<equiv> nat (vp_height st0) * S"
  shows "\<exists>outs st. pipe_run st0 0 (F * L) = Inr (outs, st) \<and> length outs = F * L \<and>
      pipe_ok st p0 w k S B blank cb \<and>
      st = st0\<lparr>mem := mem st, scan_line := scan_line st, vsync := vsync st\<rparr> \<and>
      (0 < F \<longrightarrow> (\<forall>j < 2 ^ k. mem st (p0 + j * w) = cb (int j))) \<and>
      (\<forall>j < F * L. j mod L < HS \<and> (L \<le> j \<or> 2 ^ k \<le> j mod L div S) \<longrightarrow>
          outs ! j = cb (int (j mod L div S)))"
proof (induction F)
  case 0
  then show ?case using ok by simp
next
  case (Suc F)
  let ?n = "2 ^ k :: nat"
  obtain outs st where r: "pipe_run st0 0 (F * L) = Inr (outs, st)" and len: "length outs = F * L"
    and okst: "pipe_ok st p0 w k S B blank cb"
    and st: "st = st0\<lparr>mem := mem st, scan_line := scan_line st, vsync := vsync st\<rparr>"
    and rows: "0 < F \<longrightarrow> (\<forall>j < ?n. mem st (p0 + j * w) = cb (int j))"
    and o: "\<forall>j < F * L. j mod L < HS \<and> (L \<le> j \<or> ?n \<le> j mod L div S) \<longrightarrow>
          outs ! j = cb (int (j mod L div S))"
    using Suc.IH by (elim exE conjE) (rule that; assumption)
  have cst: "chain st = chain st0" and hst: "vp_height st = vp_height st0"
    using arg_cong [OF st, of chain] arg_cong [OF st, of vp_height] by simp_all
  obtain outs2 st2 where r2: "pipe_run st 0 (length (chain st)) = Inr (outs2, st2)"
    and ok2: "pipe_ok st2 p0 w k S B blank cb"
    and st2: "st2 = st\<lparr>mem := mem st2, scan_line := scan_line st2, vsync := vsync st2\<rparr>"
    and len2: "length outs2 = length (chain st)"
    and o2: "\<forall>i < nat (vp_height st) * S. outs2 ! i =
          (if i div S < ?n then mem st (p0 + (i div S) * w) else cb (int (i div S)))"
    and rows2: "\<forall>j < ?n. mem st2 (p0 + j * w) = cb (int j)"
    using pipe_frame [OF okst] by (elim exE conjE) (rule that; assumption)
  have L0: "0 < L" using pipe_ok_facts [OF ok] by (simp add: L_def)
  have run: "pipe_run st0 0 (Suc F * L) = Inr (outs @ outs2, st2)"
  proof -
    have "Suc F * L = F * L + L" by simp
    moreover have "(0 + F * L) mod length (chain st0) = 0" by (simp add: L_def)
    ultimately show ?thesis
      using pipe_run_append [OF L0 [unfolded L_def], of "F * L" L] r r2 cst by (simp add: L_def add.commute)
  qed
  have outs: "\<forall>j < Suc F * L. j mod L < HS \<and> (L \<le> j \<or> ?n \<le> j mod L div S) \<longrightarrow>
          (outs @ outs2) ! j = cb (int (j mod L div S))"
  proof (intro allI impI)
    fix j assume j: "j < Suc F * L" and c: "j mod L < HS \<and> (L \<le> j \<or> ?n \<le> j mod L div S)"
    show "(outs @ outs2) ! j = cb (int (j mod L div S))"
    proof (cases "j < F * L")
      case True
      then show ?thesis using o c len by (simp add: nth_append)
    next
      case False
      define i where "i = j - F * L"
      have i: "i < L" "j = F * L + i" using j False by (simp_all add: i_def)
      have jm: "j mod L = i" using i by simp
      have e: "(outs @ outs2) ! j = outs2 ! i" using len False by (simp add: nth_append i_def)
      have iv: "i < nat (vp_height st) * S" using c jm hst by (simp add: HS_def)
      show ?thesis
      proof (cases "i div S < ?n")
        case True
        then have "0 < F" using c jm i by (cases F) auto
        then show ?thesis using e o2 iv True rows jm by simp
      next
        case False
        then show ?thesis using e o2 iv jm by simp
      qed
    qed
  qed
  have "st2 = st0\<lparr>mem := mem st2, scan_line := scan_line st2, vsync := vsync st2\<rparr>"
    by (subst st2, subst st) simp
  then show ?case using run len len2 cst ok2 rows2 outs by (simp add: L_def)
qed

section \<open>The configured controller displays the callback's rows\<close>

lemma demo_pipe_ok: "pipe_ok demo_pipe 9 8 0 1 2 0 demo_cb"
  by (simp add: pipe_ok_def demo_pipe_def demo_isr_def demo_pool_def demo_vdc_def
      VGADirectController_def producer_ok_def pool_ok_def)

text \<open>
  C1. End to end: configure a fresh controller with \<open>setResolution\<close> for a pool of
  \<open>P = 2^(k+1)\<close> rows and a viewport height that is a multiple of \<open>P\<close>; then however
  many frames the DMA engine transmits, with the interrupt handler running on every
  \<open>eof\<close> descriptor, it never fails, and every visible transmission slot sends the
  callback's rendering of its own row, \<open>cb (slot div scanCount)\<close>, except the first
  \<open>P/2\<close> rows of the very first frame, which are transmitted before any interrupt ran.
\<close>

theorem setResolution_pipeline_shows_rows:
  assumes wf: "heap_wf (vdc_heap st)" and ch: "chain st = []" and cb: "draw_cb st = Some cb"
    and lc: "lines_count st = int (2 ^ Suc k)" and S: "0 < t_scan_count tm"
    and H: "0 < vp_dim vh (t_vvisible tm)" and HP: "nat (vp_dim vh (t_vvisible tm)) mod 2 ^ Suc k = 0"
    and W: "vp_dim vw (t_hvisible tm) = int w" "0 < w" and sl: "0 \<le> scan_line st"
    and ok: "setResolution blank tm vw vh db st = Inr st1"
  defines "HS \<equiv> nat (vp_dim vh (t_vvisible tm)) * t_scan_count tm"
  defines "L \<equiv> HS + t_vblank tm"
  shows "\<exists>outs st'. pipe_run st1 0 (F * L) = Inr (outs, st') \<and>
     (\<forall>j < F * L. j mod L < HS \<and> (L \<le> j \<or> 2 ^ k \<le> j mod L div t_scan_count tm) \<longrightarrow>
        outs ! j = cb (int (j mod L div t_scan_count tm)))"
proof -
  have P2: "2 \<le> (2::nat) ^ Suc k" by simp
  obtain p0 where c: "producer_ok st1 p0 w (2 ^ Suc k) cb \<and> vp_height st1 = vp_dim vh (t_vvisible tm) \<and>
     chain st1 = map (frame_desc p0 w (2 ^ Suc k) (t_scan_count tm) (nat (vp_dim vh (t_vvisible tm)) * t_scan_count tm) blank)
                     [0..<nat (vp_dim vh (t_vvisible tm)) * t_scan_count tm + t_vblank tm] \<and>
     frame_reset_desc st1 = Some 0"
    using setResolution_configures [OF wf ch cb lc P2 S H W(1) sl ok] by blast
  have pok: "pipe_ok st1 p0 w k (t_scan_count tm) (t_vblank tm) blank cb"
    using c S W(2) HP by (simp add: pipe_ok_def)
  have "length (chain st1) = L" using c by (simp add: L_def HS_def)
  moreover have "nat (vp_height st1) * t_scan_count tm = HS" using c by (simp add: HS_def)
  ultimately show ?thesis using pipe_frames [OF pok, of F] by auto
qed

theorem setResolution_pipeline_shows_rows_witness:
  "\<exists>st1. setResolution 0 demo_timings (-1) (-1) False demo_cfg = Inr st1 \<and>
     (\<exists>outs st'. pipe_run st1 0 (2 * 6) = Inr (outs, st') \<and>
       (\<forall>j < 2 * 6. j mod 6 < 4 \<and> (6 \<le> j \<or> 1 \<le> j mod 6 div 1) \<longrightarrow>
          outs ! j = demo_cb (int (j mod 6 div 1))))"
proof -
  obtain st1 where s: "setResolution 0 demo_timings (-1) (-1) False demo_cfg = Inr st1"
    using demo_cfg_configures by blast
  have t: "0 < t_scan_count demo_timings" "0 < vp_dim (-1) (t_vvisible demo_timings)"
    "nat (vp_dim (-1) (t_vvisible demo_timings)) mod 2 ^ Suc 0 = 0"
    "vp_dim (-1) (t_hvisible demo_timings) = int 8" "lines_count demo_cfg = int (2 ^ Suc 0)"
    by (simp_all add: demo_timings_def vp_dim_def demo_cfg_def demo_vdc_def VGADirectController_def)
  have "\<exists>outs st'. pipe_run st1 0 (2 * (nat (vp_dim (-1) (t_vvisible demo_timings)) * t_scan_count demo_timings
          + t_vblank demo_timings)) = Inr (outs, st') \<and>
     (\<forall>j < 2 * (nat (vp_dim (-1) (t_vvisible demo_timings)) * t_scan_count demo_timings + t_vblank demo_timings).
        j mod (nat (vp_dim (-1) (t_vvisible demo_timings)) * t_scan_count demo_timings + t_vblank demo_timings)
          < nat (vp_dim (-1) (t_vvisible demo_timings)) * t_scan_count demo_timings \<and>
        (nat (vp_dim (-1) (t_vvisible demo_timings)) * t_scan_count demo_timings + t_vblank demo_timings \<le> j \<or>
         2 ^ 0 \<le> j mod (nat (vp_dim (-1) (t_vvisible demo_timings)) * t_scan_count demo_timings + t_vblank demo_timings)
            div t_scan_count demo_timings) \<longrightarrow>
        outs ! j = demo_cb (int (j mod (nat (vp_dim (-1) (t_vvisible demo_timings)) * t_scan_count demo_timings
            + t_vblank demo_timings) div t_scan_count demo_timings)))"
    by (rule setResolution_pipeline_shows_rows [OF demo_cfg_facts(1-3) t(5) t(1,2,3,4) _ demo_cfg_facts(5) s]) simp
  then show ?thesis using s by (simp add: demo_timings_def vp_dim_def)
qed

section \<open>The producer never writes the rows being transmitted\<close>

text \<open>
  C4. The half-pool lead: the interrupt raised by the first descriptor of block \<open>q\<close>
  (rows \<open>u = q * P/2 .. u + P/2 - 1\<close>, whose scans the engine is about to transmit)
  leaves the buffers of exactly those rows untouched, and fills the other half of the
  pool with the next \<open>P/2\<close> rows (modulo the height).
\<close>

theorem pipe_isr_spares_transmitted_half:
  assumes ok: "pipe_ok st p0 w k S B blank cb" and q: "u = q * 2 ^ k" "u < nat (vp_height st)"
    and s: "u = 0 \<or> scan_line st = int u"
    and d: "dma_slot st (u * S) = Inr (out, st')"
  shows "(\<forall>v. u \<le> v \<and> v < u + 2 ^ k \<longrightarrow>
            mem st' (p0 + (v mod 2 ^ Suc k) * w) = mem st (p0 + (v mod 2 ^ Suc k) * w)) \<and>
         (\<forall>j < 2 ^ k. mem st' (p0 + ((u + 2 ^ k + j) mod 2 ^ Suc k) * w) =
            cb (int ((u + 2 ^ k) mod nat (vp_height st) + j)))"
proof -
  let ?n = "2 ^ k :: nat"
  note f = pipe_ok_facts [OF ok]
  obtain v where "dma_slot st (u * S) =
     Inr (mem st (p0 + (u mod 2 ^ Suc k) * w),
          st\<lparr>mem := fill_rows (mem st) (p0 + ((Suc q mod 2) * ?n) * w) w cb
                        (int ((u + ?n) mod nat (vp_height st))) ?n,
             scan_line := int (u + ?n), vsync := v\<rparr>)"
    using pipe_block_isr [OF ok q s] by blast
  then have m: "mem st' = fill_rows (mem st) (p0 + ((Suc q mod 2) * ?n) * w) w cb
                        (int ((u + ?n) mod nat (vp_height st))) ?n"
    using d by simp
  have keep: "\<forall>v. u \<le> v \<and> v < u + ?n \<longrightarrow>
            mem st' (p0 + (v mod 2 ^ Suc k) * w) = mem st (p0 + (v mod 2 ^ Suc k) * w)"
  proof (intro allI impI)
    fix v assume v: "u \<le> v \<and> v < u + ?n"
    have vq: "v = q * ?n + (v - u)" "v - u < ?n" using v q(1) by linarith+
    show "mem st' (p0 + (v mod 2 ^ Suc k) * w) = mem st (p0 + (v mod 2 ^ Suc k) * w)"
      unfolding m
    proof (rule fill_rows_other, intro allI impI)
      fix j assume "j < ?n"
      then show "p0 + (v mod 2 ^ Suc k) * w \<noteq> p0 + ((Suc q mod 2) * ?n) * w + j * w"
        using pool_halves_disjoint [OF f(2) vq(2), of j p0 q] vq(1) by simp
    qed
  qed
  have next_rows: "\<forall>j < ?n. mem st' (p0 + ((u + ?n + j) mod 2 ^ Suc k) * w) =
            cb (int ((u + ?n) mod nat (vp_height st) + j))"
  proof (intro allI impI)
    fix j assume j: "j < ?n"
    have "u + ?n + j = Suc q * ?n + j" using q(1) by simp
    then show "mem st' (p0 + ((u + ?n + j) mod 2 ^ Suc k) * w) = cb (int ((u + ?n) mod nat (vp_height st) + j))"
      using pool_next_half [OF f(2) j, of "mem st" p0 q cb "int ((u + ?n) mod nat (vp_height st))"] m
      by (simp add: add.commute)
  qed
  show ?thesis using keep next_rows by blast
qed

lemma demo_pipe_slot0:
  "\<exists>out st'. dma_slot demo_pipe 0 = Inr (out, st')"
  by (simp add: dma_slot_def demo_pipe_def demo_isr_def demo_pool_def demo_vdc_def VGADirectController_def
      c_index_def frame_desc_def ISRHandler_def isr_detect_wrap_def isr_render_def c_mod_def c_arith
      pool_rows_def Let_def)

theorem pipe_isr_spares_transmitted_half_witness:
  "\<exists>out st'. dma_slot demo_pipe (0 * 1) = Inr (out, st') \<and>
     mem st' (9 + (0 mod 2) * 8) = mem demo_pipe (9 + (0 mod 2) * 8) \<and>
     mem st' (9 + ((0 + 1 + 0) mod 2) * 8) = demo_cb (int ((0 + 1) mod 4 + 0))"
proof -
  obtain out st' where d: "dma_slot demo_pipe (0 * 1) = Inr (out, st')" using demo_pipe_slot0 by auto
  have h: "0 < nat (vp_height demo_pipe)" "scan_line demo_pipe = 0" "nat (vp_height demo_pipe) = 4"
    by (simp_all add: demo_pipe_def demo_isr_def demo_pool_def demo_vdc_def VGADirectController_def)
  have "(\<forall>v. 0 \<le> v \<and> v < 0 + 2 ^ 0 \<longrightarrow>
            mem st' (9 + (v mod 2 ^ Suc 0) * 8) = mem demo_pipe (9 + (v mod 2 ^ Suc 0) * 8)) \<and>
         (\<forall>j < 2 ^ 0. mem st' (9 + ((0 + 2 ^ 0 + j) mod 2 ^ Suc 0) * 8) =
            demo_cb (int ((0 + 2 ^ 0) mod nat (vp_height demo_pipe) + j)))"
    using pipe_isr_spares_transmitted_half [OF demo_pipe_ok, of 0 0, OF _ _ _ d] h by simp
  then show ?thesis using d h by simp
qed

end
