(* ===== verification/PipelineInv.thy ===== *)
theory PipelineInv
  imports Pipeline
begin

text \<open>
  The pipeline as a transition system: the DMA engine consumes one descriptor slot per
  step (running the interrupt handler on \<open>eof\<close> slots), cycling through the ring. The
  states reachable from a configured pipeline are characterised by an invariant on the
  production state (\<open>s_scanLine\<close>, \<open>s_VSync\<close>) proved by rule induction; from it follow
  the bounds of the scanline counter, the exact timing of \<open>VSync()\<close>, and that the
  engine never faults at any slot of any frame.
\<close>

section \<open>Reachable states\<close>

inductive pipe_reach :: "vdc \<Rightarrow> vdc \<Rightarrow> nat \<Rightarrow> bool" for st0 :: vdc where
  pipe_start: "pipe_reach st0 st0 0"
| pipe_step: "pipe_reach st0 st pos \<Longrightarrow> dma_slot st pos = Inr (out, st') \<Longrightarrow>
    pipe_reach st0 st' (Suc pos mod length (chain st))"

text \<open>The number of blocks whose first slot lies before slot \<open>pos\<close>, at most the \<open>m\<close> of a frame.\<close>

definition sent_blocks :: "nat \<Rightarrow> nat \<Rightarrow> nat \<Rightarrow> nat" where
  "sent_blocks N m pos = min m ((pos + N - 1) div N)"

text \<open>
  The invariant at slot \<open>pos\<close> of a pipeline configured as \<open>st0\<close>: only the pool
  contents and the production state have changed; the counter lies in \<open>[0, H]\<close>; and
  inside a frame it is \<open>n\<close> times the number of blocks started, with \<open>s_VSync\<close> set
  exactly when it has reached \<open>H\<close>.
\<close>

definition pipe_inv :: "vdc \<Rightarrow> nat \<Rightarrow> nat \<Rightarrow> vdc \<Rightarrow> nat \<Rightarrow> bool" where
  "pipe_inv st0 k S st pos \<longleftrightarrow>
     st = st0\<lparr>mem := mem st, scan_line := scan_line st, vsync := vsync st\<rparr> \<and>
     pos < length (chain st0) \<and> 0 \<le> scan_line st \<and> scan_line st \<le> vp_height st0 \<and>
     (0 < pos \<longrightarrow>
        scan_line st = int (2 ^ k * sent_blocks (2 ^ k * S) (nat (vp_height st0) div 2 ^ k) pos) \<and>
        (vsync st \<longleftrightarrow> scan_line st = vp_height st0))"

section \<open>One slot\<close>

lemma pipe_slot_eof:
  assumes ok: "pipe_ok st p0 w k S B blank cb" and pos: "pos < length (chain st)"
  shows "desc_eof (chain st ! pos) \<longleftrightarrow> pos < nat (vp_height st) * S \<and> pos mod (2 ^ k * S) = 0"
proof -
  note f = pipe_ok_facts [OF ok]
  have "chain st ! pos = frame_desc p0 w (2 ^ Suc k) S (nat (vp_height st) * S) blank pos"
    using pos by (simp only: f(8) nth_map length_map length_upt diff_zero nth_upt add_0)
  then show ?thesis
    using block_eof_iff [OF f(3), of pos "2 ^ k"] by (simp add: frame_desc_def blank_desc_def)
qed

lemma pipe_slot_plain:
  assumes ok: "pipe_ok st p0 w k S B blank cb" and pos: "pos < length (chain st)"
    and ne: "\<not> (pos < nat (vp_height st) * S \<and> pos mod (2 ^ k * S) = 0)"
  shows "dma_slot st pos = Inr (mem st (desc_buf (chain st ! pos)), st)"
  using pipe_slot_eof [OF ok pos] ne pos by (simp add: dma_slot_def c_index_def)

text \<open>Arithmetic of the frame: \<open>H = m n\<close> with \<open>m \<ge> 2\<close>, and the blocks started.\<close>

lemma frame_blocks:
  assumes "H mod (2 * n) = 0" and "0 < H" and "0 < (n::nat)"
  shows "H = H div n * n" and "2 \<le> H div n"
proof -
  have "2 * n dvd H" using assms(1) by (simp add: dvd_eq_mod_eq_0)
  then obtain c where c: "H = 2 * n * c" by (elim dvdE)
  then have "0 < c" using assms(2) by (cases c) simp_all
  then show "H = H div n * n" "2 \<le> H div n" using c assms(3) by simp_all
qed

lemma sent_blocks_start:
  assumes "0 < N" and "pos mod N = 0" and "pos div N < m"
  shows "sent_blocks N m (Suc pos) = Suc (pos div N)" and "0 < pos \<Longrightarrow> sent_blocks N m pos = pos div N"
proof -
  have c: "(pos + N) div N = (pos + N - 1) div N + 1" using ceil_div_step [OF assms(1), of pos] assms(2) by simp
  have "(pos + N) div N = Suc (pos div N)" using assms(1) by (simp add: div_add_self2)
  then show "sent_blocks N m (Suc pos) = Suc (pos div N)" using assms(3) by (simp add: sent_blocks_def)
  show "sent_blocks N m pos = pos div N" if "0 < pos"
    using c \<open>(pos + N) div N = Suc (pos div N)\<close> assms(3) by (simp add: sent_blocks_def)
qed

lemma sent_blocks_plain:
  assumes "0 < N" and "\<not> (pos < m * N \<and> pos mod N = 0)"
  shows "sent_blocks N m (Suc pos) = sent_blocks N m pos"
proof (cases "pos < m * N")
  case True
  then have "pos mod N \<noteq> 0" using assms(2) by simp
  then show ?thesis using ceil_div_step [OF assms(1), of pos] by (simp add: sent_blocks_def)
next
  case False
  have "m * N div N \<le> pos div N" using False by (intro div_le_mono) simp
  then have "m \<le> pos div N" using assms(1) by simp
  moreover have "pos \<le> pos + N - 1" using assms(1) by simp
  then have "pos div N \<le> (pos + N - 1) div N" by (rule div_le_mono)
  moreover have "pos div N \<le> (pos + N) div N" by (simp add: div_le_mono)
  ultimately show ?thesis by (simp add: sent_blocks_def)
qed

lemma sent_blocks_le: "sent_blocks N m pos \<le> m"
  by (simp add: sent_blocks_def)

lemma pipe_inv_static:
  "st = st0\<lparr>mem := mem st, scan_line := scan_line st, vsync := vsync st\<rparr> \<Longrightarrow>
     st\<lparr>mem := a, scan_line := b, vsync := c\<rparr> = st0\<lparr>mem := a, scan_line := b, vsync := c\<rparr>"
  by (subst (asm) eq_commute) (erule subst, simp)

text \<open>Progress and preservation: from an invariant state the engine consumes the slot without fault, and the invariant holds at the next slot.\<close>

lemma pipe_inv_step:
  assumes ok: "pipe_ok st0 p0 w k S B blank cb" and inv: "pipe_inv st0 k S st pos"
  shows "\<exists>out st'. dma_slot st pos = Inr (out, st') \<and> pipe_inv st0 k S st' (Suc pos mod length (chain st))"
proof -
  let ?H = "nat (vp_height st0)" and ?n = "2 ^ k :: nat"
  let ?N = "?n * S" and ?L = "length (chain st0)"
  define m where "m = ?H div ?n"
  note f = pipe_ok_facts [OF ok]
  have st: "st = st0\<lparr>mem := mem st, scan_line := scan_line st, vsync := vsync st\<rparr>"
    using inv unfolding pipe_inv_def by blast
  have pl: "pos < ?L" and s0: "0 \<le> scan_line st" and sH: "scan_line st \<le> vp_height st0"
    using inv unfolding pipe_inv_def by blast+
  have sp: "0 < pos \<Longrightarrow> scan_line st = int (?n * sent_blocks ?N m pos) \<and>
                          (vsync st \<longleftrightarrow> scan_line st = vp_height st0)"
    using inv unfolding pipe_inv_def m_def by blast
  have okst: "pipe_ok st p0 w k S B blank cb"
  proof -
    have "pipe_ok (st0\<lparr>mem := mem st, scan_line := scan_line st, vsync := vsync st\<rparr>) p0 w k S B blank cb"
      by (rule pipe_ok_update [OF ok s0])
    then show ?thesis by (simp only: st [symmetric])
  qed
  have cst: "chain st = chain st0" and hst: "vp_height st = vp_height st0"
    using arg_cong [OF st, of chain] arg_cong [OF st, of vp_height] by simp_all
  have N0: "0 < ?N" using f(3) by simp
  have H2: "?H mod (2 * ?n) = 0" using f(4) by simp
  have Hm: "?H = m * ?n" "2 \<le> m" using frame_blocks [OF H2 f(7)] unfolding m_def by simp_all
  have HS: "?H * S = m * ?N" using Hm(1) by (simp add: mult.assoc)
  have L: "?L = ?H * S + B" using f(8) by simp
  have L0: "0 < ?L" using L f(3,7) by simp
  consider (blk) "pos < ?H * S \<and> pos mod ?N = 0" | (plain) "\<not> (pos < ?H * S \<and> pos mod ?N = 0)" by blast
  then show ?thesis
  proof cases
    case blk
    define q where "q = pos div ?N"
    define u where "u = q * ?n"
    have pu: "pos = u * S" using blk div_mult_mod_eq [of pos ?N] by (simp add: u_def q_def mult.assoc)
    have uH: "u < ?H" using blk pu f(3) by simp
    have qm: "q < m" using uH Hm(1) by (simp add: u_def)
    have s: "u = 0 \<or> scan_line st = int u"
    proof (cases "pos = 0")
      case True
      then show ?thesis using pu f(3) by simp
    next
      case False
      have "sent_blocks ?N m pos = q" using sent_blocks_start(2) [OF N0 _ qm [unfolded q_def]] blk False
        by (simp add: q_def)
      then show ?thesis using sp False by (simp add: u_def mult.commute)
    qed
    have un: "u + ?n \<le> ?H" using block_end_le [OF u_def uH H2] .
    have unI: "int (u + ?n) \<le> vp_height st0"
    proof -
      have "int (u + ?n) \<le> int ?H" using un by (simp only: of_nat_le_iff)
      then show ?thesis using f(6) by linarith
    qed
    obtain X where e: "dma_slot st pos = Inr (mem st (p0 + (u mod 2 ^ Suc k) * w),
        st\<lparr>mem := X, scan_line := int (u + ?n),
           vsync := (vp_height st0 \<le> int (u + ?n) \<or> (0 < u \<and> vsync st))\<rparr>)"
      using pipe_block_isr [OF okst u_def, unfolded hst, OF uH s] pu by blast
    let ?st' = "st\<lparr>mem := X, scan_line := int (u + ?n),
           vsync := (vp_height st0 \<le> int (u + ?n) \<or> (0 < u \<and> vsync st))\<rparr>"
    have vs: "0 < u \<Longrightarrow> \<not> vsync st"
    proof -
      assume "0 < u"
      then have "0 < pos" using pu f(3) by simp
      then show "\<not> vsync st" using sp s uH f(6) \<open>0 < u\<close> by auto
    qed
    have nxt: "0 < Suc pos mod ?L \<Longrightarrow> Suc pos mod ?L = Suc pos"
      using pl by (cases "Suc pos = ?L") simp_all
    have sb: "sent_blocks ?N m (Suc pos) = Suc q"
      using sent_blocks_start(1) [OF N0 _ qm [unfolded q_def]] blk by (simp add: q_def)
    have "pipe_inv st0 k S ?st' (Suc pos mod length (chain st))"
      unfolding pipe_inv_def cst
    proof (intro conjI impI)
      show "?st' = st0\<lparr>mem := mem ?st', scan_line := scan_line ?st', vsync := vsync ?st'\<rparr>"
        using pipe_inv_static [OF st] by simp
      show "Suc pos mod ?L < ?L" using L0 by simp
      show "0 \<le> scan_line ?st'" by simp
      show "scan_line ?st' \<le> vp_height st0" using unI by simp
      assume p: "0 < Suc pos mod ?L"
      show "scan_line ?st' = int (?n * sent_blocks ?N (?H div ?n) (Suc pos mod ?L))"
        using nxt [OF p] sb by (simp add: m_def [symmetric] u_def)
      show "vsync ?st' \<longleftrightarrow> scan_line ?st' = vp_height st0"
        using vs unI by (cases "0 < u") auto
    qed
    then show ?thesis using e by blast
  next
    case plain
    have p0: "0 < pos" using plain f(3,7) by (cases pos) simp_all
    have e: "dma_slot st pos = Inr (mem st (desc_buf (chain st ! pos)), st)"
      using pipe_slot_plain [OF okst] plain pl cst hst by simp
    have sb: "sent_blocks ?N m (Suc pos) = sent_blocks ?N m pos"
      using sent_blocks_plain [OF N0] plain HS by simp
    have "pipe_inv st0 k S st (Suc pos mod length (chain st))"
      unfolding pipe_inv_def cst
    proof (intro conjI impI)
      show "st = st0\<lparr>mem := mem st, scan_line := scan_line st, vsync := vsync st\<rparr>" by (rule st)
      show "Suc pos mod ?L < ?L" using L0 by simp
      show "0 \<le> scan_line st" "scan_line st \<le> vp_height st0" by (rule s0, rule sH)
      assume p: "0 < Suc pos mod ?L"
      then have "Suc pos mod ?L = Suc pos" using pl by (cases "Suc pos = ?L") simp_all
      then show "scan_line st = int (?n * sent_blocks ?N (?H div ?n) (Suc pos mod ?L))"
        "vsync st \<longleftrightarrow> scan_line st = vp_height st0"
        using sp [OF p0] sb by (simp_all add: m_def)
    qed
    then show ?thesis using e by blast
  qed
qed

section \<open>The reachable states\<close>

lemma pipe_inv_start:
  assumes ok: "pipe_ok st0 p0 w k S B blank cb" and sH: "scan_line st0 \<le> vp_height st0"
  shows "pipe_inv st0 k S st0 0"
proof -
  note f = pipe_ok_facts [OF ok]
  have "0 < length (chain st0)" using f(3,7) by (simp only: f(8) length_map length_upt) simp
  moreover have "0 \<le> scan_line st0" using f(1) by (simp add: producer_ok_def)
  ultimately show ?thesis using sH unfolding pipe_inv_def by simp
qed

lemma pipe_reach_inv:
  assumes ok: "pipe_ok st0 p0 w k S B blank cb" and sH: "scan_line st0 \<le> vp_height st0"
  shows "pipe_reach st0 st pos \<Longrightarrow> pipe_inv st0 k S st pos"
proof (induction rule: pipe_reach.induct)
  case pipe_start
  then show ?case using pipe_inv_start [OF ok sH] .
next
  case (pipe_step st pos out st')
  then show ?case using pipe_inv_step [OF ok pipe_step.IH] by auto
qed

lemma pipe_inv_chain:
  "pipe_inv st0 k S st pos \<Longrightarrow> chain st = chain st0"
proof -
  assume "pipe_inv st0 k S st pos"
  then have "st = st0\<lparr>mem := mem st, scan_line := scan_line st, vsync := vsync st\<rparr>"
    unfolding pipe_inv_def by blast
  from arg_cong [OF this, of chain] show ?thesis by simp
qed

text \<open>Runs of the engine from a reachable state never fault and end in a reachable state.\<close>

lemma pipe_reach_run:
  assumes ok: "pipe_ok st0 p0 w k S B blank cb" and sH: "scan_line st0 \<le> vp_height st0"
  shows "pipe_reach st0 st pos \<Longrightarrow>
    \<exists>outs st'. pipe_run st pos p = Inr (outs, st') \<and> pipe_reach st0 st' ((pos + p) mod length (chain st0))"
proof (induction p arbitrary: st pos)
  case 0
  have "pos < length (chain st0)" using pipe_reach_inv [OF ok sH 0] by (simp add: pipe_inv_def)
  then show ?case using 0 by simp
next
  case (Suc p)
  have inv: "pipe_inv st0 k S st pos" using pipe_reach_inv [OF ok sH Suc.prems] .
  obtain out st1 where s: "dma_slot st pos = Inr (out, st1)" using pipe_inv_step [OF ok inv] by blast
  have r1: "pipe_reach st0 st1 (Suc pos mod length (chain st))" using pipe_step [OF Suc.prems s] .
  obtain outs st2 where r: "pipe_run st1 (Suc pos mod length (chain st)) p = Inr (outs, st2)"
    and r2: "pipe_reach st0 st2 ((Suc pos mod length (chain st) + p) mod length (chain st0))"
    using Suc.IH [OF r1] by blast
  have "(Suc pos mod length (chain st0) + p) mod length (chain st0) = (pos + Suc p) mod length (chain st0)"
    by (simp add: mod_add_left_eq)
  then show ?case using s r r2 pipe_inv_chain [OF inv] by simp
qed

text \<open>\<open>VSync()\<close> at a slot of a frame, from the invariant.\<close>

lemma pipe_inv_vsync:
  assumes ok: "pipe_ok st0 p0 w k S B blank cb"
    and inv: "pipe_inv st0 k S st pos" and p: "0 < pos"
  shows "VSync st \<longleftrightarrow> (nat (vp_height st0) - 2 ^ k) * S < pos"
proof -
  let ?H = "nat (vp_height st0)" and ?n = "2 ^ k :: nat"
  let ?N = "?n * S"
  define m where "m = ?H div ?n"
  note f = pipe_ok_facts [OF ok]
  have i: "scan_line st = int (?n * sent_blocks ?N m pos)" "vsync st \<longleftrightarrow> scan_line st = vp_height st0"
    using inv p unfolding pipe_inv_def m_def by blast+
  have N0: "0 < ?N" using f(3) by simp
  have Hm: "?H = m * ?n" "2 \<le> m" using frame_blocks [of ?H ?n] f(4,7) unfolding m_def by simp_all
  have "vsync st \<longleftrightarrow> ?n * sent_blocks ?N m pos = m * ?n"
    using i f(6) Hm(1) by (metis of_nat_eq_iff)
  also have "\<dots> \<longleftrightarrow> sent_blocks ?N m pos = m" by simp
  also have "\<dots> \<longleftrightarrow> m \<le> (pos + ?N - 1) div ?N" by (auto simp: sent_blocks_def min_def)
  also have "\<dots> \<longleftrightarrow> m * ?N \<le> pos + ?N - 1" by (rule less_eq_div_iff_mult_less_eq [OF N0])
  also have "\<dots> \<longleftrightarrow> (m - 1) * ?N < pos"
  proof -
    have "m * ?N = (m - 1) * ?N + ?N" using Hm(2) by (simp add: diff_mult_distrib)
    then show ?thesis using p N0 by linarith
  qed
  also have "(m - 1) * ?N = (?H - ?n) * S" by (simp add: Hm(1) diff_mult_distrib mult.assoc)
  finally show ?thesis by (simp add: VSync_def)
qed

section \<open>Properties of the running pipeline\<close>

text \<open>
  C7. The invariant of the production state: in every state the engine and the handler
  reach from a configured pipeline whose counter starts within the viewport,
  \<open>s_scanLine\<close> stays in \<open>[0, H]\<close>, and at slot \<open>pos > 0\<close> of a frame it is \<open>P/2\<close> times
  the number of blocks whose first slot has been consumed, \<open>min (H / (P/2)) \<lceil>pos / (P/2 * S)\<rceil>\<close>.
\<close>

theorem pipe_reach_scan_line:
  assumes ok: "pipe_ok st0 p0 w k S B blank cb" and sH: "scan_line st0 \<le> vp_height st0"
    and r: "pipe_reach st0 st pos"
  shows "0 \<le> scan_line st \<and> scan_line st \<le> vp_height st0 \<and>
    (0 < pos \<longrightarrow> scan_line st =
       int (2 ^ k * min (nat (vp_height st0) div 2 ^ k) ((pos + 2 ^ k * S - 1) div (2 ^ k * S))))"
  using pipe_reach_inv [OF ok sH r] unfolding pipe_inv_def sent_blocks_def by blast

text \<open>
  C8. \<open>VSync()\<close> inside a frame: at every slot \<open>pos > 0\<close> it holds exactly when the
  engine has passed the first slot of the last block, \<open>(H - P/2) * S\<close>: the handler
  raises it when it renders the last rows of the frame, and the frame-reset interrupt
  at slot 0 clears it.
\<close>

theorem pipe_reach_vsync:
  assumes ok: "pipe_ok st0 p0 w k S B blank cb" and sH: "scan_line st0 \<le> vp_height st0"
    and r: "pipe_reach st0 st pos" and p: "0 < pos"
  shows "VSync st \<longleftrightarrow> (nat (vp_height st0) - 2 ^ k) * S < pos"
  using pipe_inv_vsync [OF ok pipe_reach_inv [OF ok sH r] p] .

text \<open>
  C9. No overflow of the 32-bit scanline arithmetic: when \<open>H + P/2\<close> fits an \<open>int\<close>, the
  handler's \<open>s_scanLine + m_linesCount / 2\<close> computed in 32-bit two's complement equals
  the exact sum in every reachable state, so the unbounded integers of the model are
  the values of the C code.
\<close>

theorem pipe_reach_int32:
  assumes ok: "pipe_ok st0 p0 w k S B blank cb" and sH: "scan_line st0 \<le> vp_height st0"
    and r: "pipe_reach st0 st pos" and b: "vp_height st0 + 2 ^ k < 2 ^ 31"
  shows "sint (word_of_int (scan_line st) + word_of_int (lines_count st sdiv 2) :: 32 word) =
           scan_line st + lines_count st sdiv 2"
proof -
  have inv: "pipe_inv st0 k S st pos" using pipe_reach_inv [OF ok sH r] .
  have st: "st = st0\<lparr>mem := mem st, scan_line := scan_line st, vsync := vsync st\<rparr>"
    and s: "0 \<le> scan_line st" "scan_line st \<le> vp_height st0"
    using inv unfolding pipe_inv_def by blast+
  have "lines_count st = lines_count st0" using arg_cong [OF st, of lines_count] by simp
  also have "\<dots> = 2 ^ Suc k"
    using pipe_ok_facts(1) [OF ok] by (simp add: producer_ok_def pool_ok_def)
  finally have lc: "lines_count st sdiv 2 = 2 ^ k" by (simp add: sdiv_nonneg_eq_div)
  have "(0::int) \<le> 2 ^ k" "(0::int) \<le> 2 ^ 31" by simp_all
  then have lo: "- (2 ^ 31) \<le> scan_line st + lines_count st sdiv 2" using lc s(1) by linarith
  have hi: "scan_line st + lines_count st sdiv 2 < 2 ^ 31" using lc s(2) b by simp
  show ?thesis using sint_word_of_int_add [OF lo hi] .
qed

text \<open>
  C10. Liveness of the engine: from a configured pipeline, a run of any number of slots
  succeeds (no interrupt faults, the engine never stalls), and ends at a reachable
  state at the slot the ring position says.
\<close>

theorem pipe_runs_forever:
  assumes ok: "pipe_ok st0 p0 w k S B blank cb" and sH: "scan_line st0 \<le> vp_height st0"
  shows "\<exists>outs st. pipe_run st0 0 p = Inr (outs, st) \<and> pipe_reach st0 st (p mod length (chain st0))"
  using pipe_reach_run [OF ok sH pipe_start, of p] by simp

text \<open>
  C11. \<open>VSync()\<close> pulses once per frame: in every frame \<open>f\<close> of a configured pipeline with
  a vertical blanking interval, the run reaches the frame's second slot with
  \<open>VSync()\<close> false (the frame reset cleared it) and the slot after the first slot of
  the last block with \<open>VSync()\<close> true, without any fault on the way.
\<close>

theorem pipe_vsync_every_frame:
  assumes ok: "pipe_ok st0 p0 w k S B blank cb" and sH: "scan_line st0 \<le> vp_height st0"
    and B: "0 < B"
  shows "\<exists>outs st outs' st'.
     pipe_run st0 0 (f * length (chain st0) + 1) = Inr (outs, st) \<and> \<not> VSync st \<and>
     pipe_run st0 0 (f * length (chain st0) + ((nat (vp_height st0) - 2 ^ k) * S + 1)) = Inr (outs', st') \<and>
     VSync st'"
proof -
  let ?H = "nat (vp_height st0)" and ?n = "2 ^ k :: nat" and ?L = "length (chain st0)"
  let ?V = "(?H - ?n) * S + 1"
  note f = pipe_ok_facts [OF ok]
  have H2: "?H mod (2 * ?n) = 0" using f(4) by simp
  have Hm: "?H = ?H div ?n * ?n" "2 \<le> ?H div ?n" using frame_blocks [OF H2 f(7)] by simp_all
  have nH: "?n \<le> ?H - ?n"
  proof -
    have "2 * ?n \<le> ?H div ?n * ?n" using Hm(2) by (intro mult_right_mono) simp_all
    then show ?thesis using Hm(1) by linarith
  qed
  have L: "?L = ?H * S + B" using f(8) by simp
  have V1: "1 < ?V"
  proof -
    have "1 \<le> ?n * S" using f(3) by simp
    also have "\<dots> \<le> (?H - ?n) * S" using nH by (rule mult_right_mono) simp
    finally have "1 \<le> (?H - ?n) * S" .
    then show ?thesis by linarith
  qed
  have VL: "?V < ?L"
  proof -
    have "?H - ?n + ?n = ?H" using nH by simp
    then have e: "(?H - ?n) * S + ?n * S = ?H * S" by (metis add_mult_distrib)
    have "1 \<le> ?n * S" using f(3) by simp
    then show ?thesis using e L B by linarith
  qed
  obtain outs st where r1: "pipe_run st0 0 (f * ?L + 1) = Inr (outs, st)"
    and q1: "pipe_reach st0 st ((0 + (f * ?L + 1)) mod ?L)"
    using pipe_reach_run [OF ok sH pipe_start, of "f * ?L + 1"] by blast
  obtain outs' st' where r2: "pipe_run st0 0 (f * ?L + ?V) = Inr (outs', st')"
    and q2: "pipe_reach st0 st' ((0 + (f * ?L + ?V)) mod ?L)"
    using pipe_reach_run [OF ok sH pipe_start, of "f * ?L + ?V"] by blast
  have m1: "(0 + (f * ?L + 1)) mod ?L = 1"
  proof -
    have "(0 + (f * ?L + 1)) mod ?L = 1 mod ?L" by (simp only: add_0 mod_mult_self3)
    also have "\<dots> = 1" using V1 VL by simp
    finally show ?thesis .
  qed
  have m2: "(0 + (f * ?L + ?V)) mod ?L = ?V"
  proof -
    have "(0 + (f * ?L + ?V)) mod ?L = ?V mod ?L" by (simp only: add_0 mod_mult_self3)
    also have "\<dots> = ?V" using VL by (rule mod_less)
    finally show ?thesis .
  qed
  have "\<not> VSync st"
    using pipe_inv_vsync [OF ok pipe_reach_inv [OF ok sH q1 [unfolded m1]]] V1 by simp
  moreover have "VSync st'"
    using pipe_inv_vsync [OF ok pipe_reach_inv [OF ok sH q2 [unfolded m2]]] by simp
  ultimately show ?thesis using r1 r2 by blast
qed

section \<open>Witnesses\<close>

lemma demo_pipe_start: "scan_line demo_pipe \<le> vp_height demo_pipe" "length (chain demo_pipe) = 6"
  "nat (vp_height demo_pipe) = 4" "vp_height demo_pipe = 4" "lines_count demo_pipe = 2"
  by (simp_all add: demo_pipe_def demo_isr_def demo_pool_def demo_vdc_def VGADirectController_def)

lemma demo_pipe_reach:
  "\<exists>st. pipe_reach demo_pipe st (p mod 6)"
  using pipe_reach_run [OF demo_pipe_ok demo_pipe_start(1) pipe_start, of p] demo_pipe_start(2) by auto

lemma demo_pipe_reach_at:
  "\<exists>st. pipe_reach demo_pipe st 1" "\<exists>st. pipe_reach demo_pipe st 4"
  using demo_pipe_reach [of 1] demo_pipe_reach [of 4] by simp_all

theorem pipe_reach_scan_line_witness:
  "\<exists>st. pipe_reach demo_pipe st 1 \<and> scan_line st = 1"
proof -
  obtain st where r: "pipe_reach demo_pipe st 1" using demo_pipe_reach_at(1) by blast
  have "scan_line st = int (2 ^ 0 * min (nat (vp_height demo_pipe) div 2 ^ 0) ((1 + 2 ^ 0 * 1 - 1) div (2 ^ 0 * 1)))"
    using pipe_reach_scan_line [OF demo_pipe_ok demo_pipe_start(1) r] by simp
  then show ?thesis using r demo_pipe_start(3) by auto
qed

theorem pipe_reach_vsync_witness:
  "\<exists>st st'. pipe_reach demo_pipe st 1 \<and> \<not> VSync st \<and> pipe_reach demo_pipe st' 4 \<and> VSync st'"
proof -
  obtain st where r: "pipe_reach demo_pipe st 1" using demo_pipe_reach_at(1) by blast
  obtain st' where r': "pipe_reach demo_pipe st' 4" using demo_pipe_reach_at(2) by blast
  have "\<not> VSync st" using pipe_reach_vsync [OF demo_pipe_ok demo_pipe_start(1) r] demo_pipe_start(3) by simp
  moreover have "VSync st'" using pipe_reach_vsync [OF demo_pipe_ok demo_pipe_start(1) r'] demo_pipe_start(3) by simp
  ultimately show ?thesis using r r' by blast
qed

theorem pipe_reach_int32_witness:
  "\<exists>st. pipe_reach demo_pipe st 4 \<and>
     sint (word_of_int (scan_line st) + word_of_int (lines_count st sdiv 2) :: 32 word) =
       scan_line st + lines_count st sdiv 2"
proof -
  obtain st where r: "pipe_reach demo_pipe st 4" using demo_pipe_reach_at(2) by blast
  have b: "vp_height demo_pipe + 2 ^ 0 < 2 ^ 31" using demo_pipe_start(4) by simp
  show ?thesis using r pipe_reach_int32 [OF demo_pipe_ok demo_pipe_start(1) r b] by blast
qed

theorem pipe_runs_forever_witness:
  "\<exists>outs st. pipe_run demo_pipe 0 100 = Inr (outs, st) \<and> pipe_reach demo_pipe st 4"
  using pipe_runs_forever [OF demo_pipe_ok demo_pipe_start(1), of 100] demo_pipe_start(2) by simp

theorem pipe_vsync_every_frame_witness:
  "\<exists>outs st outs' st'. pipe_run demo_pipe 0 (3 * 6 + 1) = Inr (outs, st) \<and> \<not> VSync st \<and>
     pipe_run demo_pipe 0 (3 * 6 + ((4 - 1) * 1 + 1)) = Inr (outs', st') \<and> VSync st'"
  using pipe_vsync_every_frame [OF demo_pipe_ok demo_pipe_start(1), of 3] demo_pipe_start by simp

end
