(* ===== verification/ReadBack.thy ===== *)
theory ReadBack
  imports Producer
begin

text \<open>
  The read-back path: \<open>VGADirectController::readScreen\<close> (vgadirectcontroller.cpp lines
  279-288), which for each row of a rectangle calls the rendering callback into the
  default buffer \<open>m_lines[0]\<close> and decodes the requested pixels of the packed
  \<open>SBGR2222\<close> format into \<open>RGB888\<close> colours. The types \<open>Rect\<close>, \<open>RGB888\<close> and the macro
  \<open>VGA_PIXELINROW\<close> come from the base library (not in this repository) and are written
  from its definitions: \<open>VGA_PIXELINROW(row, X) = row[X ^ 2]\<close> (the peripheral sends the
  bytes of each 32-bit word in swapped half-word order).
\<close>

section \<open>Types\<close>

record rgb888 =
  R :: "8 word"
  G :: "8 word"
  B :: "8 word"

text \<open>
  FabGL's \<open>Rect\<close> has \<open>int16_t\<close> fields. \<open>readScreen\<close> copies them into \<open>int\<close> loop
  counters, so the model keeps their values as \<open>int\<close>; a bound never comes near
  \<open>INT_MAX\<close>, and the counters never overflow.
\<close>

record rect =
  X1 :: int
  Y1 :: int
  X2 :: int
  Y2 :: int

section \<open>Operations\<close>

text \<open>
  \<open>VGA_PIXELINROW(row, X)\<close>: the byte of pixel \<open>X\<close>. Memory is row-granular: a row
  buffer holds the row the callback wrote there. A pixel outside it is an out-of-range
  read in the model, while the code would read the following bytes of the pool block.
  The theorems below read only pixels inside the rendered row.
\<close>

definition VGA_PIXELINROW :: "row \<Rightarrow> int \<Rightarrow> vdc_error + 8 word" where
  "VGA_PIXELINROW row X = c_index row (X XOR 2)"

text \<open>
  Line 285: \<open>RGB888((rawpix & 3) * 85, ((rawpix >> 2) & 3) * 85, ((rawpix >> 4) & 3) * 85)\<close>.
  The products are at most 255, so computing them in \<open>8 word\<close> is exact.
\<close>

definition decode_pixel :: "8 word \<Rightarrow> rgb888" where
  "decode_pixel rawpix =
     \<lparr>R = (rawpix AND 3) * 85, G = (drop_bit 2 rawpix AND 3) * 85, B = (drop_bit 4 rawpix AND 3) * 85\<rparr>"

text \<open>The inner loop over \<open>x = rect.X1 .. rect.X2\<close>, appending to \<open>destBuf\<close>.\<close>

fun read_cols :: "row \<Rightarrow> int list \<Rightarrow> vdc_error + rgb888 list" where
  "read_cols row [] = Inr []"
| "read_cols row (x # xs) =
     ebind (VGA_PIXELINROW row x) (\<lambda>rawpix.
       ebind (read_cols row xs) (\<lambda>ps. Inr (decode_pixel rawpix # ps)))"

text \<open>
  The outer loop over \<open>y = rect.Y1 .. rect.Y2\<close>: the callback is called with
  \<open>m_lines[0]\<close> and \<open>y\<close> (it fills \<open>m_linesCount / 2\<close> consecutive rows there, as for
  the interrupt handler), then the row at \<open>m_lines[0]\<close> is decoded. A missing callback
  or a null table faults only when a row is actually read.
\<close>

fun read_rows :: "vdc \<Rightarrow> rect \<Rightarrow> int list \<Rightarrow> vdc_error + rgb888 list \<times> vdc" where
  "read_rows st r [] = Inr ([], st)"
| "read_rows st r (y # ys) =
     (case draw_cb st of
        None \<Rightarrow> Inl NullPointer
      | Some cb \<Rightarrow>
          ebind (if lines_tbl st = nullptr then Inl NullPointer else c_index (lines st) 0) (\<lambda>dest.
            let st1 = st\<lparr>mem := fill_rows (mem st) dest (nat (vp_width st)) cb y
                                   (nat (lines_count st sdiv 2))\<rparr>
            in ebind (read_cols (mem st1 dest) [X1 r..X2 r]) (\<lambda>ps.
                 ebind (read_rows st1 r ys) (\<lambda>(qs, st2). Inr (ps @ qs, st2)))))"

definition readScreen :: "vdc \<Rightarrow> rect \<Rightarrow> vdc_error + rgb888 list \<times> vdc" where
  "readScreen st r = read_rows st r [Y1 r..Y2 r]"

section \<open>The callback's writes, repeated\<close>

definition demo_row_cb :: draw_callback where
  "demo_row_cb y = replicate 8 (of_int y)"

definition demo_rb :: vdc where
  "demo_rb = demo_pool\<lparr>draw_cb := Some demo_row_cb\<rparr>"

definition demo_rect :: rect where
  "demo_rect = \<lparr>X1 = 0, Y1 = 0, X2 = 3, Y2 = 1\<rparr>"

text \<open>Calling the callback again on the same buffer overwrites every row the previous call wrote.\<close>

lemma fill_rows_twice:
  assumes "0 < w"
  shows "fill_rows (fill_rows m d w cb y n) d w cb' y' n = fill_rows m d w cb' y' n"
proof
  fix a
  show "fill_rows (fill_rows m d w cb y n) d w cb' y' n a = fill_rows m d w cb' y' n a"
  proof (cases "\<exists>j<n. a = d + j * w")
    case True
    then obtain j where "j < n" "a = d + j * w" by blast
    then show ?thesis using fill_rows_at [OF assms] by simp
  next
    case False
    then show ?thesis by (simp add: fill_rows_other)
  qed
qed

section \<open>The loops\<close>

lemma read_cols_eq:
  "\<forall>x \<in> set xs. 0 \<le> x XOR 2 \<and> x XOR 2 < int (length row) \<Longrightarrow>
     read_cols row xs = Inr (map (\<lambda>x. decode_pixel (row ! nat (x XOR 2))) xs)"
  by (induction xs) (simp_all add: VGA_PIXELINROW_def c_index_def)

text \<open>
  The row loop on a configured controller whose callback rows are wide enough for the
  requested columns: the decoded pixels of each callback row in turn, and the default
  buffer holds what the callback wrote for the last row.
\<close>

lemma read_rows_eq:
  assumes cb: "draw_cb st = Some cb" and tbl: "lines_tbl st \<noteq> nullptr" and l0: "lines st \<noteq> []"
    and w: "0 < nat (vp_width st)" and n: "0 < nat (lines_count st sdiv 2)"
    and fit: "\<forall>y \<in> set ys. \<forall>x \<in> set [X1 r..X2 r]. 0 \<le> x XOR 2 \<and> x XOR 2 < int (length (cb y))"
  shows "read_rows st r ys =
     Inr (concat (map (\<lambda>y. map (\<lambda>x. decode_pixel (cb y ! nat (x XOR 2))) [X1 r..X2 r]) ys),
          if ys = [] then st
          else st\<lparr>mem := fill_rows (mem st) (lines st ! 0) (nat (vp_width st)) cb (last ys)
                            (nat (lines_count st sdiv 2))\<rparr>)"
  using assms
proof (induction ys arbitrary: st)
  case Nil
  then show ?case by simp
next
  case (Cons y ys)
  let ?n = "nat (lines_count st sdiv 2)" and ?w = "nat (vp_width st)" and ?d = "lines st ! 0"
  let ?st1 = "st\<lparr>mem := fill_rows (mem st) ?d ?w cb y ?n\<rparr>"
  note p = Cons.prems
  have d: "c_index (lines st) 0 = Inr ?d" using p(3) by (simp add: c_index_def)
  have row: "mem ?st1 ?d = cb y" using fill_rows_at [OF p(4,5), of "mem st" ?d cb y] by simp
  have cols: "read_cols (mem ?st1 ?d) [X1 r..X2 r] =
      Inr (map (\<lambda>x. decode_pixel (cb y ! nat (x XOR 2))) [X1 r..X2 r])"
    using p(6) row by (simp add: read_cols_eq)
  have ih: "read_rows ?st1 r ys =
     Inr (concat (map (\<lambda>y. map (\<lambda>x. decode_pixel (cb y ! nat (x XOR 2))) [X1 r..X2 r]) ys),
          if ys = [] then ?st1
          else ?st1\<lparr>mem := fill_rows (mem ?st1) ?d ?w cb (last ys) ?n\<rparr>)"
    using Cons.IH [of ?st1] p by simp
  have "?st1\<lparr>mem := fill_rows (mem ?st1) ?d ?w cb (last ys) ?n\<rparr> =
        st\<lparr>mem := fill_rows (mem st) ?d ?w cb (last ys) ?n\<rparr>"
    using fill_rows_twice [OF p(4)] by simp
  then show ?case using ih cols d p(1,2) by (simp add: Let_def)
qed

section \<open>Pixel decoding\<close>

text \<open>The decoding of line 285 reads the three 2-bit fields of the byte.\<close>

lemma decode_pixel_unat:
  "decode_pixel p =
     \<lparr>R = of_nat (unat p mod 4) * 85, G = of_nat (unat p div 4 mod 4) * 85,
      B = of_nat (unat p div 16 mod 4) * 85\<rparr>"
  by (simp add: decode_pixel_def and3_word unat_drop_bit_word)

lemma level_cases:
  assumes "v < (4::nat)"
  shows "(of_nat v * 85 :: 8 word) \<in> {0, 85, 170, 255}"
proof -
  have "v = 0 \<or> v = 1 \<or> v = 2 \<or> v = 3" using assms by arith
  then show ?thesis by auto
qed

text \<open>C26. Every channel of a decoded pixel is one of the four levels 0, 85, 170, 255.\<close>

theorem decode_pixel_levels:
  "R (decode_pixel p) \<in> {0, 85, 170, 255} \<and> G (decode_pixel p) \<in> {0, 85, 170, 255} \<and>
   B (decode_pixel p) \<in> {0, 85, 170, 255}"
  by (simp only: decode_pixel_unat rgb888.simps) (intro conjI level_cases; simp)

text \<open>
  C25. Decoding inverts the packing of the colour format: the byte with red, green and
  blue levels r, g, b (each below 4, in bits 0-1, 2-3, 4-5) and any sync bits s in
  bits 6-7 decodes to the colour with channels 85 r, 85 g, 85 b.
\<close>

theorem decode_pixel_pack:
  assumes "r < 4" "g < 4" "b < 4" "s < 4"
  shows "decode_pixel (of_nat (r + 4 * g + 16 * b + 64 * s)) =
           \<lparr>R = of_nat (85 * r), G = of_nat (85 * g), B = of_nat (85 * b)\<rparr>"
proof -
  define N where "N = r + 4 * g + 16 * b + 64 * s"
  have lt: "N < 256" using assms unfolding N_def by arith
  have u: "unat (of_nat N :: 8 word) = N" by (simp only: unat_of_nat) (simp add: lt)
  have "N mod 4 = r \<and> N div 4 mod 4 = g \<and> N div 16 mod 4 = b"
    unfolding N_def using base4_digits assms(1-3) .
  then have "decode_pixel (of_nat N) = \<lparr>R = of_nat (85 * r), G = of_nat (85 * g), B = of_nat (85 * b)\<rparr>"
    by (simp only: decode_pixel_unat u) (simp add: of_nat_mult mult.commute)
  then show ?thesis unfolding N_def .
qed

theorem decode_pixel_pack_witness:
  "(2::nat) < 4 \<and> (1::nat) < 4 \<and> (3::nat) < 4 \<and> (0::nat) < 4 \<and>
   decode_pixel 54 = \<lparr>R = 170, G = 85, B = 255\<rparr>"
  using decode_pixel_pack [of 2 1 3 0] by simp

section \<open>Reading a rectangle back\<close>

lemma last_upto:
  "(i::int) \<le> j \<Longrightarrow> [i..j] \<noteq> [] \<and> last [i..j] = j"
  by (simp add: upto_rec2)

lemma readScreen_reads_callback_eq:
  assumes cb: "draw_cb st = Some cb" and tbl: "lines_tbl st \<noteq> nullptr" and l0: "lines st \<noteq> []"
    and w: "0 < nat (vp_width st)" and n: "0 < nat (lines_count st sdiv 2)"
    and y: "Y1 r \<le> Y2 r"
    and fit: "\<forall>y \<in> set [Y1 r..Y2 r]. \<forall>x \<in> set [X1 r..X2 r]. 0 \<le> x XOR 2 \<and> x XOR 2 < int (length (cb y))"
  shows "readScreen st r =
     Inr (concat (map (\<lambda>y. map (\<lambda>x. decode_pixel (cb y ! nat (x XOR 2))) [X1 r..X2 r]) [Y1 r..Y2 r]),
          st\<lparr>mem := fill_rows (mem st) (lines st ! 0) (nat (vp_width st)) cb (Y2 r)
                            (nat (lines_count st sdiv 2))\<rparr>)"
  using read_rows_eq [OF cb tbl l0 w n fit] last_upto [OF y] by (simp add: readScreen_def)

text \<open>
  C17. On a controller with a callback, a line table and a viewport, \<open>readScreen\<close> of a
  non-empty rectangle whose columns lie in every callback row returns, row by row, the
  decoded pixels the callback renders for that row; and it leaves in the default buffer
  \<open>m_lines[0]\<close> (and the \<open>m_linesCount / 2 - 1\<close> rows after it, all rows of the
  pool the DMA engine is transmitting from) what the callback rendered for row \<open>Y2\<close>.
\<close>

theorem readScreen_reads_callback:
  assumes cb: "draw_cb st = Some cb" and tbl: "lines_tbl st \<noteq> nullptr" and l0: "lines st \<noteq> []"
    and w: "0 < nat (vp_width st)" and n: "0 < nat (lines_count st sdiv 2)"
    and y: "Y1 r \<le> Y2 r"
    and fit: "\<forall>y \<in> set [Y1 r..Y2 r]. \<forall>x \<in> set [X1 r..X2 r]. 0 \<le> x XOR 2 \<and> x XOR 2 < int (length (cb y))"
  shows "readScreen st r =
     Inr (concat (map (\<lambda>y. map (\<lambda>x. decode_pixel (cb y ! nat (x XOR 2))) [X1 r..X2 r]) [Y1 r..Y2 r]),
          st\<lparr>mem := fill_rows (mem st) (lines st ! 0) (nat (vp_width st)) cb (Y2 r)
                            (nat (lines_count st sdiv 2))\<rparr>)"
  using readScreen_reads_callback_eq [OF cb tbl l0 w n y fit] .

theorem readScreen_reads_callback_witness:
  "\<exists>st'. readScreen demo_rb demo_rect =
     Inr ([\<lparr>R = 0, G = 0, B = 0\<rparr>, \<lparr>R = 0, G = 0, B = 0\<rparr>, \<lparr>R = 0, G = 0, B = 0\<rparr>,
          \<lparr>R = 0, G = 0, B = 0\<rparr>, \<lparr>R = 85, G = 0, B = 0\<rparr>, \<lparr>R = 85, G = 0, B = 0\<rparr>,
          \<lparr>R = 85, G = 0, B = 0\<rparr>, \<lparr>R = 85, G = 0, B = 0\<rparr>], st')"
  using readScreen_reads_callback [of demo_rb demo_row_cb demo_rect]
  by (simp add: demo_rb_def demo_pool_def demo_vdc_def VGADirectController_def demo_rect_def
      demo_row_cb_def upto.simps decode_pixel_def pool_rows_def)

text \<open>
  C16. The read-back property of the spec: when the callback renders every row \<open>y\<close> as
  \<open>vp_width\<close> copies of one byte \<open>c y\<close>, the viewport width is a multiple of 4 and the
  rectangle lies within the viewport columns, \<open>readScreen\<close> returns for each row
  \<open>X2 - X1 + 1\<close> copies of the decoded colour of \<open>c y\<close>.
\<close>

theorem readScreen_constant_rows:
  assumes cb: "draw_cb st = Some cb" and rows: "\<forall>y. cb y = replicate (nat (vp_width st)) (c y)"
    and tbl: "lines_tbl st \<noteq> nullptr" and l0: "lines st \<noteq> []"
    and n: "2 \<le> lines_count st" and w4: "vp_width st mod 4 = 0"
    and x: "0 \<le> X1 r" "X1 r \<le> X2 r" "X2 r < vp_width st" and y: "Y1 r \<le> Y2 r"
  shows "\<exists>st'. readScreen st r =
     Inr (concat (map (\<lambda>y. replicate (nat (X2 r - X1 r + 1)) (decode_pixel (c y))) [Y1 r..Y2 r]), st')"
proof -
  have w: "0 < nat (vp_width st)" using x by simp
  have n': "0 < nat (lines_count st sdiv 2)" using n by (simp add: sdiv_nonneg_eq_div)
  have xb: "0 \<le> x XOR 2 \<and> x XOR 2 < vp_width st" if "x \<in> set [X1 r..X2 r]" for x
    using that x w4 by (simp add: xor2_bound)
  have fit: "\<forall>y \<in> set [Y1 r..Y2 r]. \<forall>x \<in> set [X1 r..X2 r]. 0 \<le> x XOR 2 \<and> x XOR 2 < int (length (cb y))"
    using xb rows x by simp
  have row: "map (\<lambda>x. decode_pixel (cb y ! nat (x XOR 2))) [X1 r..X2 r] =
             replicate (nat (X2 r - X1 r + 1)) (decode_pixel (c y))" for y
  proof -
    have "map (\<lambda>x. decode_pixel (cb y ! nat (x XOR 2))) [X1 r..X2 r] =
          map (\<lambda>x. decode_pixel (c y)) [X1 r..X2 r]"
    proof (rule map_cong [OF refl])
      fix x assume "x \<in> set [X1 r..X2 r]"
      then have "nat (x XOR 2) < nat (vp_width st)" using xb w by (simp add: nat_less_eq_zless)
      then show "decode_pixel (cb y ! nat (x XOR 2)) = decode_pixel (c y)" using rows by simp
    qed
    then show ?thesis by (simp add: map_replicate_const)
  qed
  show ?thesis using readScreen_reads_callback_eq [OF cb tbl l0 w n' y fit] row by simp
qed

theorem readScreen_constant_rows_witness:
  "\<exists>st'. readScreen demo_rb demo_rect =
     Inr (replicate 4 (decode_pixel 0) @ replicate 4 (decode_pixel 1), st')"
  using readScreen_constant_rows [of demo_rb demo_row_cb "\<lambda>y. of_int y" demo_rect]
  by (simp add: demo_rb_def demo_pool_def demo_vdc_def VGADirectController_def demo_rect_def
      demo_row_cb_def upto.simps pool_rows_def)

text \<open>
  C27. The error paths of \<open>readScreen\<close>: an empty row range reads nothing and leaves the
  controller unchanged; otherwise a missing callback is a call through a null pointer,
  and a missing line table is a null dereference of \<open>m_lines\<close>.
\<close>

theorem readScreen_errors:
  "(Y2 r < Y1 r \<longrightarrow> readScreen st r = Inr ([], st)) \<and>
   (Y1 r \<le> Y2 r \<longrightarrow> draw_cb st = None \<longrightarrow> readScreen st r = Inl NullPointer) \<and>
   (Y1 r \<le> Y2 r \<longrightarrow> draw_cb st \<noteq> None \<longrightarrow> lines_tbl st = nullptr \<longrightarrow>
      readScreen st r = Inl NullPointer)"
proof (intro conjI impI)
  assume "Y2 r < Y1 r"
  then show "readScreen st r = Inr ([], st)" by (simp add: readScreen_def)
next
  assume "Y1 r \<le> Y2 r" "draw_cb st = None"
  then show "readScreen st r = Inl NullPointer" by (simp add: readScreen_def upto_rec1)
next
  assume "Y1 r \<le> Y2 r" "draw_cb st \<noteq> None" "lines_tbl st = nullptr"
  then show "readScreen st r = Inl NullPointer" by (auto simp: readScreen_def upto_rec1)
qed

theorem readScreen_errors_witness:
  "readScreen demo_rb (demo_rect\<lparr>Y1 := 2\<rparr>) = Inr ([], demo_rb) \<and>
   readScreen demo_pool demo_rect = Inl NullPointer \<and>
   readScreen (demo_vdc\<lparr>draw_cb := Some demo_row_cb\<rparr>) demo_rect = Inl NullPointer"
  using readScreen_errors [of "demo_rect\<lparr>Y1 := 2\<rparr>" demo_rb]
    readScreen_errors [of demo_rect demo_pool]
    readScreen_errors [of demo_rect "demo_vdc\<lparr>draw_cb := Some demo_row_cb\<rparr>"]
  by (simp_all add: demo_rb_def demo_pool_def demo_vdc_def VGADirectController_def demo_rect_def
      demo_row_cb_def pool_rows_def)

end
