(* ===== verification/Drawing.thy ===== *)
theory Drawing
  imports ReadBack
begin

text \<open>
  The drawing primitives \<open>VGADirectController\<close> overrides from the bitmapped display
  controller (declared in vgadirectcontroller.h lines 179-241, defined in
  vgadirectcontroller.cpp lines 151-159, 204-276 and 291-308). They are hook points:
  every body is empty (\<open>rawCopyToBitmap\<close>'s is commented out), so each leaves the
  controller, the line buffers and the \<open>updateRect\<close> out-parameter as they were. The
  arguments whose types come from the base library (\<open>PixelDesc\<close>, \<open>Size\<close>, \<open>Glyph\<close>,
  \<open>GlyphOptions\<close>, \<open>Bitmap\<close>, raw pointers) are left out of the constructors; the
  integer, colour and rectangle arguments are kept.
\<close>

section \<open>The primitives\<close>

datatype draw_op =
    SetPixelAt rect
  | DrawEllipse rect
  | DrawArc rect rect
  | FillSegment rect rect
  | FillSector rect rect
  | Clear rect
  | VScroll int rect
  | HScroll int rect
  | DrawGlyph rgb888 rgb888 rect
  | InvertRect rect rect
  | CopyRect rect rect
  | SwapFGBG rect rect
  | RawFillRow_RGB888 int int int rgb888
  | RawFillRow_Index int int int "8 word"
  | RawInvertRow int int int
  | RawCopyRow int int int int
  | SwapRows int int int int
  | AbsDrawLine int int int int rgb888

text \<open>
  The bodies of cpp lines 204-276: \<open>setPixelAt\<close>, \<open>absDrawLine\<close>, both \<open>rawFillRow\<close>s,
  \<open>rawInvertRow\<close>, \<open>rawCopyRow\<close>, \<open>swapRows\<close>, \<open>drawEllipse\<close>, \<open>clear\<close>, \<open>VScroll\<close>,
  \<open>HScroll\<close>, \<open>drawGlyph\<close>, \<open>invertRect\<close>, \<open>swapFGBG\<close>, \<open>copyRect\<close>: each returns at once.
  \<open>drawArc\<close>, \<open>fillSegment\<close> and \<open>fillSector\<close> are declared (header lines 185-191) but
  defined nowhere in the repository; they are given the same empty effect.
\<close>

fun draw_step :: "draw_op \<Rightarrow> vdc \<Rightarrow> vdc \<times> rect option" where
  "draw_step (SetPixelAt u) st = (st, Some u)"
| "draw_step (DrawEllipse u) st = (st, Some u)"
| "draw_step (DrawArc r u) st = (st, Some u)"
| "draw_step (FillSegment r u) st = (st, Some u)"
| "draw_step (FillSector r u) st = (st, Some u)"
| "draw_step (Clear u) st = (st, Some u)"
| "draw_step (VScroll s u) st = (st, Some u)"
| "draw_step (HScroll s u) st = (st, Some u)"
| "draw_step (DrawGlyph pen brush u) st = (st, Some u)"
| "draw_step (InvertRect r u) st = (st, Some u)"
| "draw_step (CopyRect r u) st = (st, Some u)"
| "draw_step (SwapFGBG r u) st = (st, Some u)"
| "draw_step (RawFillRow_RGB888 y x1 x2 c) st = (st, None)"
| "draw_step (RawFillRow_Index y x1 x2 c) st = (st, None)"
| "draw_step (RawInvertRow y x1 x2) st = (st, None)"
| "draw_step (RawCopyRow x1 x2 sy dy) st = (st, None)"
| "draw_step (SwapRows ya yb x1 x2) st = (st, None)"
| "draw_step (AbsDrawLine x1 y1 x2 y2 c) st = (st, None)"

text \<open>
  The four bitmap blitters of cpp lines 291-308 (\<open>rawDrawBitmap_Native\<close>, \<open>_Mask\<close>,
  \<open>_RGBA2222\<close>, \<open>_RGBA8888\<close>), with their destination and source window, and their
  empty bodies.
\<close>

datatype bitmap_op =
    RawDrawBitmap_Native int int int int int int
  | RawDrawBitmap_Mask int int int int int int
  | RawDrawBitmap_RGBA2222 int int int int int int
  | RawDrawBitmap_RGBA8888 int int int int int int

fun rawDrawBitmap :: "bitmap_op \<Rightarrow> vdc \<Rightarrow> vdc" where
  "rawDrawBitmap (RawDrawBitmap_Native destX destY x1 y1 xCount yCount) st = st"
| "rawDrawBitmap (RawDrawBitmap_Mask destX destY x1 y1 xCount yCount) st = st"
| "rawDrawBitmap (RawDrawBitmap_RGBA2222 destX destY x1 y1 xCount yCount) st = st"
| "rawDrawBitmap (RawDrawBitmap_RGBA8888 destX destY x1 y1 xCount yCount) st = st"

text \<open>
  \<open>rawCopyToBitmap(srcX, srcY, width, saveBuffer, X1, Y1, XCount, YCount)\<close> (cpp lines
  151-159): the call to \<open>genericRawCopyToBitmap\<close> is commented out, so the save buffer
  (here its byte contents) is returned unchanged. \<open>X1\<close>, \<open>Y1\<close>, \<open>XCount\<close>,
  \<open>YCount\<close> are written in lower case, the upper-case names being the fields of \<open>rect\<close>.
\<close>

definition rawCopyToBitmap ::
  "int \<Rightarrow> int \<Rightarrow> int \<Rightarrow> row \<Rightarrow> int \<Rightarrow> int \<Rightarrow> int \<Rightarrow> int \<Rightarrow> vdc \<Rightarrow> row \<times> vdc" where
  "rawCopyToBitmap srcX srcY width saveBuffer x1 y1 xCount yCount st = (saveBuffer, st)"

text \<open>\<open>fillRow(y, x1, x2, color)\<close> (header line 134), an inline empty override.\<close>

definition fillRow :: "int \<Rightarrow> int \<Rightarrow> int \<Rightarrow> rgb888 \<Rightarrow> vdc \<Rightarrow> vdc" where
  "fillRow y x1 x2 color st = st"

text \<open>\<open>getBitmapSavePixelSize()\<close> (header line 241): one byte per saved pixel.\<close>

definition getBitmapSavePixelSize :: int where
  "getBitmapSavePixelSize = 1"

end
