(* ===== verification/KbdLayouts.thy ===== *)
theory KbdLayouts
  imports Prelude
begin

text \<open>
  The keyboard-layout tables of \<open>devdrivers/kbdlayouts.h\<close>: the layout records, the
  eighteen layouts the header declares (their contents are defined in
  \<open>kbdlayouts.cpp\<close>, which is not in this repository, so a layout is reached through an
  environment \<open>layout_env\<close> from the declared symbols to their records), and the three
  tables of \<open>SupportedLayouts\<close>, which must list the same layouts in the same order.
  The type of virtual keys (\<open>VirtualKey\<close>, from \<open>fabutils.h\<close>) is a type parameter.
\<close>

section \<open>Layout records\<close>

record 'vk VirtualKeyDef =
  scancode :: "8 word"
  virtualKey :: 'vk

text \<open>The four one-bit fields \<open>ctrl\<close>, \<open>lalt\<close>, \<open>ralt\<close>, \<open>shift\<close> are \<open>1 word\<close>s.\<close>

record 'vk AltVirtualKeyDef =
  reqVirtualKey :: 'vk
  ctrl :: "1 word"
  lalt :: "1 word"
  ralt :: "1 word"
  shift :: "1 word"
  alt_virtualKey :: 'vk

record 'vk DeadKeyVirtualKeyDef =
  deadKey :: 'vk
  dead_reqVirtualKey :: 'vk
  dead_virtualKey :: 'vk

text \<open>The layouts the header declares \<open>extern\<close>, in declaration order (lines 96-148).\<close>

datatype layout_ref =
    USLayout | UKLayout | GermanLayout | ItalianLayout | SpanishLayout | FrenchLayout
  | BelgianLayout | NorwegianLayout | JapaneseLayout | USInternationalLayout
  | USInternationalAltLayout | SwissGLayout | SwissFLayout | DanishLayout | SwedishLayout
  | PortugueseLayout | BrazilianPortugueseLayout | DvorakLayout

text \<open>
  \<open>KeyboardLayout\<close>: the C strings \<open>name\<close> and \<open>desc\<close> as HOL strings, the
  \<open>inherited\<close> pointer as an optional layout (\<open>None\<close> for \<open>nullptr\<close>), the fixed-size
  arrays (86, 22, 73, 8 and 60 entries) as lists.
\<close>

record 'vk KeyboardLayout =
  name :: string
  desc :: string
  inherited :: "layout_ref option"
  scancodeToVK :: "'vk VirtualKeyDef list"
  exScancodeToVK :: "'vk VirtualKeyDef list"
  alternateVK :: "'vk AltVirtualKeyDef list"
  deadKeysVK :: "'vk list"
  deadkeysToVK :: "'vk DeadKeyVirtualKeyDef list"

type_synonym 'vk layout_env = "layout_ref \<Rightarrow> 'vk KeyboardLayout"

section \<open>SupportedLayouts\<close>

definition LAYOUTSCOUNT :: int where
  "LAYOUTSCOUNT = 18"

definition count :: int where
  "count = LAYOUTSCOUNT"

text \<open>\<open>LAYOUTS\<close>, the table of \<open>layouts()\<close> (lines 206-228), in its order.\<close>

definition LAYOUTS :: "layout_ref list" where
  "LAYOUTS = [GermanLayout, ItalianLayout, UKLayout, USLayout, SpanishLayout, FrenchLayout,
     BelgianLayout, NorwegianLayout, JapaneseLayout, USInternationalLayout,
     USInternationalAltLayout, SwissGLayout, SwissFLayout, DanishLayout, SwedishLayout,
     PortugueseLayout, BrazilianPortugueseLayout, DvorakLayout]"

text \<open>\<open>NAMES\<close> of \<open>names()\<close> (lines 158-180): the \<open>desc\<close> of each layout, written out in its own order.\<close>

definition names :: "'vk layout_env \<Rightarrow> string list" where
  "names env = [desc (env GermanLayout), desc (env ItalianLayout), desc (env UKLayout),
     desc (env USLayout), desc (env SpanishLayout), desc (env FrenchLayout),
     desc (env BelgianLayout), desc (env NorwegianLayout), desc (env JapaneseLayout),
     desc (env USInternationalLayout), desc (env USInternationalAltLayout),
     desc (env SwissGLayout), desc (env SwissFLayout), desc (env DanishLayout),
     desc (env SwedishLayout), desc (env PortugueseLayout),
     desc (env BrazilianPortugueseLayout), desc (env DvorakLayout)]"

text \<open>\<open>SNAMES\<close> of \<open>shortNames()\<close> (lines 182-204): the \<open>name\<close> of each layout.\<close>

definition shortNames :: "'vk layout_env \<Rightarrow> string list" where
  "shortNames env = [name (env GermanLayout), name (env ItalianLayout), name (env UKLayout),
     name (env USLayout), name (env SpanishLayout), name (env FrenchLayout),
     name (env BelgianLayout), name (env NorwegianLayout), name (env JapaneseLayout),
     name (env USInternationalLayout), name (env USInternationalAltLayout),
     name (env SwissGLayout), name (env SwissFLayout), name (env DanishLayout),
     name (env SwedishLayout), name (env PortugueseLayout),
     name (env BrazilianPortugueseLayout), name (env DvorakLayout)]"

section \<open>Properties\<close>

definition demo_kbd_env :: "unit layout_env" where
  "demo_kbd_env l =
     \<lparr>name = (if l = USLayout then ''US'' else ''--''), desc = (if l = USLayout then ''US'' else ''--''),
      inherited = None, scancodeToVK = [], exScancodeToVK = [], alternateVK = [], deadKeysVK = [],
      deadkeysToVK = []\<rparr>"

lemma layout_ref_cases_all:
  "x \<in> set LAYOUTS"
  by (cases x) (simp_all add: LAYOUTS_def)

text \<open>
  C32. The table of \<open>layouts()\<close> has \<open>count()\<close> entries and lists every layout the
  header declares exactly once.
\<close>

theorem LAYOUTS_bij:
  "int (length LAYOUTS) = count \<and> distinct LAYOUTS \<and> set LAYOUTS = UNIV"
  using layout_ref_cases_all by (auto simp: LAYOUTS_def count_def LAYOUTSCOUNT_def)

text \<open>
  C33. The three tables agree: for every index below \<open>count()\<close>, \<open>names()[i]\<close> is the
  description and \<open>shortNames()[i]\<close> the name of the layout \<open>layouts()[i]\<close>; every
  other index is out of range of all three.
\<close>

theorem SupportedLayouts_aligned:
  "(0 \<le> i \<and> i < count \<longrightarrow>
      c_index (names env) i = Inr (desc (env (LAYOUTS ! nat i))) \<and>
      c_index (shortNames env) i = Inr (name (env (LAYOUTS ! nat i)))) \<and>
   (\<not> (0 \<le> i \<and> i < count) \<longrightarrow>
      c_index (names env) i = Inl IndexOutOfRange \<and>
      c_index (shortNames env) i = Inl IndexOutOfRange \<and>
      c_index LAYOUTS i = Inl IndexOutOfRange)"
proof -
  have "names env = map (\<lambda>l. desc (env l)) LAYOUTS" "shortNames env = map (\<lambda>l. name (env l)) LAYOUTS"
    by (simp_all add: names_def shortNames_def LAYOUTS_def)
  moreover have "length LAYOUTS = 18" by (simp add: LAYOUTS_def)
  ultimately show ?thesis
    by (auto simp: c_index_def count_def LAYOUTSCOUNT_def)
qed

theorem SupportedLayouts_aligned_witness:
  "c_index (shortNames demo_kbd_env) 3 = Inr ''US'' \<and> c_index (names demo_kbd_env) 3 = Inr ''US'' \<and>
   c_index (names demo_kbd_env) 18 = Inl IndexOutOfRange"
  using SupportedLayouts_aligned [of 3 demo_kbd_env] SupportedLayouts_aligned [of 18 demo_kbd_env]
  by (simp add: count_def LAYOUTSCOUNT_def LAYOUTS_def demo_kbd_env_def)

end
