(* ===== verification/StreamIface.thy ===== *)
theory StreamIface
  imports Prelude
begin

text \<open>
  The \<open>Stream\<close> interface of src/src/userspace-platform/Stream.h (lines 5-12): an
  abstract class whose methods are all virtual and have no body in this repository.
  It is a record of its methods over the state \<open>'s\<close> of the device behind it, as an
  implementing class would supply them:
  \<^item> \<open>available()\<close>: the number of bytes that can be read;
  \<^item> \<open>read()\<close>: the next byte, or \<open>-1\<close>;
  \<^item> \<open>write(uint8_t)\<close>: the number of bytes written (a \<open>size_t\<close>);
  \<^item> \<open>readBytes(buffer, len)\<close>: the count read, with the bytes it stores into \<open>buffer\<close>.
  \<open>read\<close> and \<open>write\<close> are named \<open>read_byte\<close> and \<open>write_byte\<close>, \<open>write\<close> being
  reserved. The virtual destructor has no effect.
\<close>

record 's Stream =
  available :: "'s \<Rightarrow> int"
  read_byte :: "'s \<Rightarrow> int \<times> 's"
  write_byte :: "8 word \<Rightarrow> 's \<Rightarrow> nat \<times> 's"
  readBytes :: "int \<Rightarrow> 's \<Rightarrow> int \<times> 8 word list \<times> 's"

end
