(* ===== verification/Instances.thy ===== *)
theory Instances
  imports Pipeline
begin

text \<open>
  Several controllers in one program. The constructor (vgadirectcontroller.cpp
  lines 76-83) records \<open>this\<close> in the static \<open>s_instance\<close>, which \<open>instance()\<close>
  (header line 98) returns. The other statics (\<open>s_scanLine\<close>, \<open>s_VSync\<close>,
  \<open>s_frameResetDesc\<close>, \<open>s_DMALines\<close>, cpp lines 66-72) are one copy shared by
  every object. Here a world holds an object store of controllers, the statics in a
  record of their own, and the environment all objects share: the DMA memory, the
  heap and the single I2S peripheral. Each member function runs on the view of its
  object, the object's fields together with the statics, and its result is written
  back. With one controller, the world model and the single-object model of the
  other theories agree.
\<close>

section \<open>Objects and statics\<close>

text \<open>
  An object is named by its position in the store (its \<open>this\<close>). The statics
  \<open>s_frameResetDesc\<close> and \<open>s_DMALines\<close> point at descriptors, which live in the
  arena of the object that built them, so a shared descriptor pointer names the
  owning object and the index in its arena.
\<close>

type_synonym obj_id = nat
type_synonym gdesc = "obj_id \<times> desc_id"

record statics =
  s_instance :: "obj_id option"
  s_scanLine :: int
  s_VSync :: bool
  s_frameResetDesc :: "gdesc option"
  s_DMALines_tbl :: addr
  s_DMALines :: "gdesc option list"

record world =
  objs :: "vdc list"
  glob :: statics
  w_mem :: memory
  w_heap :: heap
  w_gpio :: bool
  w_eof :: bool

text \<open>
  Object \<open>i\<close> sees a shared descriptor pointer as one of its own descriptors only when
  it owns it. A pointer into another object's arena equals none of its descriptors.
\<close>

definition local_desc :: "obj_id \<Rightarrow> gdesc option \<Rightarrow> desc_id option" where
  "local_desc i p = (case p of Some (j, d) \<Rightarrow> if j = i then Some d else None | None \<Rightarrow> None)"

definition obj_view :: "world \<Rightarrow> obj_id \<Rightarrow> vdc" where
  "obj_view w i =
     (objs w ! i)\<lparr>scan_line := s_scanLine (glob w), vsync := s_VSync (glob w),
        frame_reset_desc := local_desc i (s_frameResetDesc (glob w)),
        dma_lines_tbl := s_DMALines_tbl (glob w),
        dma_lines := map (local_desc i) (s_DMALines (glob w)),
        mem := w_mem w, vdc_heap := w_heap w,
        gpio_streaming := w_gpio w, eof_intr_enabled := w_eof w\<rparr>"

text \<open>
  Writing a member function's result back: the object's own fields into the store
  (\<open>own_fields\<close> blanks the shared ones there, which only the world holds),
  the shared ones into the statics and the environment. \<open>obj_put\<close> is for members
  that do not assign the descriptor statics. \<open>obj_put_descs\<close> is for the
  configuration, which allocates a fresh \<open>s_DMALines\<close> array and fills it with the
  object's own descriptors, and may assign \<open>s_frameResetDesc\<close>: it stays as it was
  when the object left its view of it unchanged.
\<close>

definition own_fields :: "vdc \<Rightarrow> vdc" where
  "own_fields st =
     st\<lparr>scan_line := 0, vsync := False, frame_reset_desc := None, dma_lines_tbl := nullptr,
        dma_lines := [], mem := (\<lambda>_. []),
        vdc_heap := \<lparr>hp_next = 0, hp_limit = 0, hp_live = [], hp_allocs = 0, hp_frees = 0\<rparr>,
        gpio_streaming := False, eof_intr_enabled := False\<rparr>"

definition obj_put :: "world \<Rightarrow> obj_id \<Rightarrow> vdc \<Rightarrow> world" where
  "obj_put w i st =
     w\<lparr>objs := (objs w)[i := own_fields st],
       glob := (glob w)\<lparr>s_scanLine := scan_line st, s_VSync := vsync st,
                        s_DMALines_tbl := dma_lines_tbl st\<rparr>,
       w_mem := mem st, w_heap := vdc_heap st,
       w_gpio := gpio_streaming st, w_eof := eof_intr_enabled st\<rparr>"

definition obj_put_descs :: "world \<Rightarrow> obj_id \<Rightarrow> vdc \<Rightarrow> world" where
  "obj_put_descs w i st =
     (let w1 = obj_put w i st; g = glob w1;
          fr = (if frame_reset_desc st = local_desc i (s_frameResetDesc (glob w))
                then s_frameResetDesc (glob w) else map_option (Pair i) (frame_reset_desc st))
      in w1\<lparr>glob := g\<lparr>s_frameResetDesc := fr,
                       s_DMALines := map (map_option (Pair i)) (dma_lines st)\<rparr>\<rparr>)"

section \<open>Member functions on the world\<close>

text \<open>
  The constructor: a new object at the end of the store, as
  \<open>VGADirectController\<close> builds it, and \<open>s_instance = this\<close>. Nothing checks that
  another controller exists, and the other statics are not reset. \<open>instance()\<close>
  returns \<open>s_instance\<close>.
\<close>

definition w_VGADirectController :: "bool \<Rightarrow> world \<Rightarrow> obj_id \<times> world" where
  "w_VGADirectController autoRun w =
     (let i = length (objs w)
      in (i, w\<lparr>objs := objs w @ [own_fields (VGADirectController autoRun (w_mem w) (w_heap w))],
               glob := (glob w)\<lparr>s_instance := Some i\<rparr>\<rparr>))"

definition get_instance :: "world \<Rightarrow> obj_id option" where
  "get_instance w = s_instance (glob w)"

definition w_setDrawScanlineCallback :: "draw_callback option \<Rightarrow> obj_id \<Rightarrow> world \<Rightarrow> world" where
  "w_setDrawScanlineCallback cb i w = obj_put w i (setDrawScanlineCallback cb (obj_view w i))"

definition w_run :: "obj_id \<Rightarrow> world \<Rightarrow> world" where
  "w_run i w = obj_put w i (run (obj_view w i))"

text \<open>
  \<open>setResolution\<close> on object \<open>i\<close>: the early return without a callback, the base's
  configuration on the object's view, then \<open>run()\<close> when \<open>autoRun\<close> is set.
\<close>

definition w_setResolution ::
  "addr \<Rightarrow> vga_timings \<Rightarrow> int \<Rightarrow> int \<Rightarrow> bool \<Rightarrow> obj_id \<Rightarrow> world \<Rightarrow> vdc_error + world" where
  "w_setResolution blank tm viewPortWidth viewPortHeight doubleBuffered i w =
     (if draw_cb (obj_view w i) = None then Inr w
      else ebind (base_setResolution blank tm viewPortWidth viewPortHeight (obj_view w i))
             (\<lambda>st'. let w' = obj_put_descs w i st' in Inr (if auto_run st' then w_run i w' else w')))"

text \<open>
  The interrupt handler installed by object \<open>i\<close> (\<open>arg = this\<close>). The descriptor the
  peripheral has just completed, \<open>I2S1.out_eof_des_addr\<close> (cpp line 324), belongs to
  whichever chain the one I2S peripheral is walking, so it is a shared descriptor pointer,
  and it is compared with the static \<open>s_frameResetDesc\<close> (lines 326-329). The rest of
  the handler (lines 322, 331-341) renders from the object's fields and the statics.
\<close>

definition w_isr_detect_wrap :: "world \<Rightarrow> gdesc \<Rightarrow> world" where
  "w_isr_detect_wrap w desc =
     (if s_frameResetDesc (glob w) = Some desc
      then w\<lparr>glob := (glob w)\<lparr>s_scanLine := 0, s_VSync := False\<rparr>\<rparr> else w)"

definition w_ISRHandler :: "obj_id \<Rightarrow> bool \<Rightarrow> gdesc \<Rightarrow> world \<Rightarrow> vdc_error + cb_call option \<times> world" where
  "w_ISRHandler i out_eof desc w =
     (if \<not> out_eof then Inr (None, w)
      else let w1 = w_isr_detect_wrap w desc
           in ebind (isr_render (obj_view w1 i)) (\<lambda>(c, st'). Inr (c, obj_put w1 i st')))"

text \<open>
  \<open>setScanlineBuffer\<close> and \<open>getScanlineBuffer\<close> (cpp lines 181-195) do not use
  \<open>this\<close>: they follow the static \<open>s_DMALines[scanline]\<close> into whichever arena it
  points to. \<open>VSync()\<close> reads the static flag.
\<close>

definition w_setScanlineBuffer :: "world \<Rightarrow> int \<Rightarrow> addr \<Rightarrow> vdc_error + world" where
  "w_setScanlineBuffer w scanline lineBuffer =
     ebind (c_index (s_DMALines (glob w)) scanline) (\<lambda>e.
       case e of
         None \<Rightarrow> Inl UninitializedRead
       | Some (j, d) \<Rightarrow>
           if j < length (objs w) \<and> d < length (chain (objs w ! j))
           then Inr (w\<lparr>objs := (objs w)[j := (objs w ! j)\<lparr>chain :=
                      (chain (objs w ! j))[d := (chain (objs w ! j) ! d)\<lparr>desc_buf := lineBuffer\<rparr>]\<rparr>]\<rparr>)
           else Inl IndexOutOfRange)"

definition w_getScanlineBuffer :: "world \<Rightarrow> int \<Rightarrow> vdc_error + addr" where
  "w_getScanlineBuffer w scanline =
     ebind (c_index (s_DMALines (glob w)) scanline) (\<lambda>e.
       case e of
         None \<Rightarrow> Inl UninitializedRead
       | Some (j, d) \<Rightarrow>
           if j < length (objs w) \<and> d < length (chain (objs w ! j))
           then Inr (desc_buf (chain (objs w ! j) ! d)) else Inl IndexOutOfRange)"

definition w_VSync :: "world \<Rightarrow> bool" where
  "w_VSync w = s_VSync (glob w)"

section \<open>One controller\<close>

text \<open>The world of a program with the one controller \<open>st\<close>, at position 0.\<close>

definition world_of :: "vdc \<Rightarrow> world" where
  "world_of st =
     \<lparr>objs = [own_fields st],
      glob = \<lparr>s_instance = Some 0, s_scanLine = scan_line st, s_VSync = vsync st,
              s_frameResetDesc = map_option (Pair 0) (frame_reset_desc st),
              s_DMALines_tbl = dma_lines_tbl st,
              s_DMALines = map (map_option (Pair 0)) (dma_lines st)\<rparr>,
      w_mem = mem st, w_heap = vdc_heap st,
      w_gpio = gpio_streaming st, w_eof = eof_intr_enabled st\<rparr>"

section \<open>A concrete program with two controllers\<close>

text \<open>
  Two controllers built as \<open>demo_cfg\<close> (the demo controller with its callback
  registered), the second one constructed last, and the statics as the program
  starts them.
\<close>

definition demo_world2 :: world where
  "demo_world2 =
     \<lparr>objs = [own_fields demo_cfg, own_fields demo_cfg],
      glob = \<lparr>s_instance = Some 1, s_scanLine = 0, s_VSync = False, s_frameResetDesc = None,
              s_DMALines_tbl = nullptr, s_DMALines = []\<rparr>,
      w_mem = (\<lambda>_. []), w_heap = demo_heap, w_gpio = False, w_eof = False\<rparr>"

lemma own_fields_sel [simp]:
  "chain (own_fields st) = chain st" "lines_count (own_fields st) = lines_count st"
  "lines (own_fields st) = lines st" "lines_tbl (own_fields st) = lines_tbl st"
  "draw_cb (own_fields st) = draw_cb st" "auto_run (own_fields st) = auto_run st"
  "own_fields (st\<lparr>scan_line := x, vsync := y\<rparr>) = own_fields st"
  "own_fields (st\<lparr>chain := c\<rparr>) = (own_fields st)\<lparr>chain := c\<rparr>"
  by (simp_all add: own_fields_def)

lemma local_desc_own [simp]: "local_desc i (map_option (Pair i) p) = p"
  by (cases p) (simp_all add: local_desc_def)

lemma local_desc_own_comp [simp]: "local_desc i \<circ> map_option (Pair i) = id"
  by (rule ext) simp

lemma obj_view_world_of [simp]: "obj_view (world_of st) 0 = st"
  by (simp add: obj_view_def world_of_def own_fields_def map_idI)

lemma obj_put_world_of:
  "frame_reset_desc st' = frame_reset_desc st \<Longrightarrow> dma_lines st' = dma_lines st \<Longrightarrow>
     obj_put (world_of st) 0 st' = world_of st'"
  by (simp add: obj_put_def world_of_def)

lemma obj_put_descs_world_of [simp]: "obj_put_descs (world_of st) 0 st' = world_of st'"
  by (simp add: obj_put_descs_def obj_put_def world_of_def Let_def)

lemma w_run_world_of: "w_run 0 (world_of st) = world_of (run st)"
  by (simp add: w_run_def obj_put_world_of run_def Let_def)


lemma w_isr_detect_wrap_world_of:
  "w_isr_detect_wrap (world_of st) (0, d) = world_of (isr_detect_wrap st d)"
  by (cases "frame_reset_desc st") (auto simp: w_isr_detect_wrap_def isr_detect_wrap_def world_of_def)

lemma w_ISRHandler_world_of:
  "w_ISRHandler 0 e (0, d) (world_of st) = map_sum id (apsnd world_of) (ISRHandler st e d)"
proof (cases "e \<and> (\<exists>x. isr_render (isr_detect_wrap st d) = Inr x)")
  case False
  then show ?thesis
    by (auto simp: w_ISRHandler_def ISRHandler_def w_isr_detect_wrap_world_of Let_def ebind_case
        split: sum.splits)
next
  case True
  then obtain c st' where e: e and r: "isr_render (isr_detect_wrap st d) = Inr (c, st')" by auto
  have k: "st' = (isr_detect_wrap st d)\<lparr>mem := mem st', scan_line := scan_line st', vsync := vsync st'\<rparr>"
    using isr_render_keeps [OF r] .
  have "frame_reset_desc st' = frame_reset_desc (isr_detect_wrap st d)"
    "dma_lines st' = dma_lines (isr_detect_wrap st d)"
    using arg_cong[OF k, of frame_reset_desc] arg_cong[OF k, of dma_lines] by simp_all
  then show ?thesis
    using e r by (simp add: w_ISRHandler_def ISRHandler_def w_isr_detect_wrap_world_of obj_put_world_of)
qed

lemma w_setResolution_world_of:
  "w_setResolution blank tm vw vh db 0 (world_of st) =
     map_sum id world_of (setResolution blank tm vw vh db st)"
  by (cases "base_setResolution blank tm vw vh st")
     (simp_all add: w_setResolution_def setResolution_def Let_def w_run_world_of)

lemma w_setScanlineBuffer_world_of:
  "w_setScanlineBuffer (world_of st) v b = map_sum id world_of (setScanlineBuffer st v b)"
  by (auto simp: w_setScanlineBuffer_def setScanlineBuffer_def c_index_def world_of_def
      split: option.splits)

lemma w_getScanlineBuffer_world_of:
  "w_getScanlineBuffer (world_of st) v = getScanlineBuffer st v"
  by (auto simp: w_getScanlineBuffer_def getScanlineBuffer_def c_index_def world_of_def
      split: option.splits)


section \<open>What the configuration assigns to the statics\<close>

lemma onSetupDMABuffer_frame_reset:
  "onSetupDMABuffer st d b sc vis v = Inr st' \<Longrightarrow>
     frame_reset_desc st' = (if vis \<and> sc = 0 \<and> v = 0 then Some d else frame_reset_desc st)"
  by (auto simp: onSetupDMABuffer_def Let_def ebind_case c_mod_def split: if_splits sum.splits)

lemma slot_zero_iff: "(i mod S = 0 \<and> i div S = 0) \<longleftrightarrow> (i::nat) = 0"
  by (metis div_0 div_mult_mod_eq mod_0 mult_zero_right add_0)

lemma setup_descs_frame_reset:
  "setup_descs S HS st is = Inr st' \<Longrightarrow>
     frame_reset_desc st' = (if 0 \<in> set is \<and> 0 < HS then Some 0 else frame_reset_desc st)"
proof (induction "is" arbitrary: st)
  case Nil
  then show ?case by simp
next
  case (Cons i "is")
  obtain st1 where h: "onSetupDMABuffer st i (i = HS) (int (i mod S)) (i < HS) (int (i div S)) = Inr st1"
    and r: "setup_descs S HS st1 is = Inr st'"
    using Cons.prems by (auto simp: ebind_Inr_iff)
  have "frame_reset_desc st1 = (if i = 0 \<and> 0 < HS then Some 0 else frame_reset_desc st)"
    using onSetupDMABuffer_frame_reset[OF h] slot_zero_iff[of i S] by auto
  then show ?case using Cons.IH[OF r] by auto
qed

lemma fillVertBuffers_frame_reset:
  assumes f: "fillVertBuffers S B blank st = Inr st'" and "0 < S" and "0 < vp_height st"
  shows "frame_reset_desc st' = Some 0"
proof -
  let ?HS = "nat (vp_height st) * S"
  have "setup_descs S ?HS (st\<lparr>chain := replicate (?HS + B) (blank_desc blank)\<rparr>) [0..<?HS + B] = Inr st'"
    using f by (simp add: fillVertBuffers_def Let_def)
  from setup_descs_frame_reset[OF this] show ?thesis using assms(2,3) by simp
qed

lemma allocateViewPort_keeps_height:
  "allocateViewPort st = Inr st' \<Longrightarrow> vp_height st' = vp_height st \<and> auto_run st' = auto_run st"
  by (auto simp: allocateViewPort_def Let_def split: prod.splits if_splits sum.splits)

lemma base_setResolution_frame_reset:
  assumes "base_setResolution blank tm vw vh st = Inr st'"
    and "0 < t_scan_count tm" and "0 < vp_dim vh (t_vvisible tm)"
  shows "frame_reset_desc st' = Some 0"
proof -
  obtain st1 stB where "base_end st = Inr st1"
    and a: "allocateViewPort (st1\<lparr>vp_width := vp_dim vw (t_hvisible tm), vp_height := vp_dim vh (t_vvisible tm)\<rparr>) = Inr stB"
    and f: "fillVertBuffers (t_scan_count tm) (t_vblank tm) blank stB = Inr st'"
    using assms(1) by (auto simp: base_setResolution_def ebind_Inr_iff)
  show ?thesis
    using fillVertBuffers_frame_reset[OF f assms(2)] allocateViewPort_keeps_height[OF a] assms(3) by simp
qed

lemma base_end_keeps_auto_run: "base_end st = Inr st' \<Longrightarrow> auto_run st' = auto_run st"
  by (auto simp: base_end_def freeViewPort_def ebind_case split: if_splits sum.splits)

lemma fillVertBuffers_keeps_auto_run:
  assumes "fillVertBuffers S B blank st = Inr st'"
  shows "auto_run st' = auto_run st"
proof -
  obtain x y z where "st' = st\<lparr>dma_lines := x, chain := y, frame_reset_desc := z\<rparr>"
    using fillVertBuffers_keeps[OF assms] by blast
  then show ?thesis by simp
qed

lemma base_setResolution_auto_run:
  assumes "base_setResolution blank tm vw vh st = Inr st'"
  shows "auto_run st' = auto_run st"
proof -
  obtain st1 stB where e: "base_end st = Inr st1"
    and a: "allocateViewPort (st1\<lparr>vp_width := vp_dim vw (t_hvisible tm), vp_height := vp_dim vh (t_vvisible tm)\<rparr>) = Inr stB"
    and f: "fillVertBuffers (t_scan_count tm) (t_vblank tm) blank stB = Inr st'"
    using assms by (auto simp: base_setResolution_def ebind_Inr_iff)
  show ?thesis
    using base_end_keeps_auto_run[OF e] allocateViewPort_keeps_height[OF a] fillVertBuffers_keeps_auto_run[OF f]
    by simp
qed

lemma fillVertBuffers_keeps_heap:
  assumes "fillVertBuffers S B blank st = Inr st'"
  shows "vdc_heap st' = vdc_heap st \<and> dma_lines_tbl st' = dma_lines_tbl st"
proof -
  obtain x y z where "st' = st\<lparr>dma_lines := x, chain := y, frame_reset_desc := z\<rparr>"
    using fillVertBuffers_keeps[OF assms] by blast
  then show ?thesis by simp
qed

text \<open>
  Configuring a controller that has no chain yet skips \<open>end()\<close>, so it frees nothing:
  every live block stays live, and the new \<open>s_DMALines\<close> array is a fresh block.
\<close>

lemma base_setResolution_fresh_heap:
  assumes ch: "chain st = []" and wf: "heap_wf (vdc_heap st)"
    and ok: "base_setResolution blank tm vw vh st = Inr st'"
  shows "set (hp_live (vdc_heap st)) \<subseteq> set (hp_live (vdc_heap st'))"
    and "dma_lines_tbl st' \<notin> fst ` set (hp_live (vdc_heap st))"
proof -
  let ?stA = "st\<lparr>vp_width := vp_dim vw (t_hvisible tm), vp_height := vp_dim vh (t_vvisible tm)\<rparr>"
  obtain stB where a: "allocateViewPort ?stA = Inr stB"
    and f: "fillVertBuffers (t_scan_count tm) (t_vblank tm) blank stB = Inr st'"
    using ok ch by (auto simp: base_setResolution_def base_end_def ebind_Inr_iff)
  have wfA: "heap_wf (vdc_heap ?stA)" using wf by simp
  have e: "vdc_heap ?stA = vdc_heap st" by simp
  obtain tbl p0 dtbl where
    st: "stB = ?stA\<lparr>lines_tbl := tbl, lines := pool_rows p0 (nat (vp_width ?stA)) (nat (lines_count ?stA)),
              vdc_heap := vdc_heap stB, dma_lines_tbl := dtbl, dma_lines := replicate (nat (vp_height ?stA)) None\<rparr>"
    and d: "distinct (tbl # dtbl # map fst (hp_live (vdc_heap st)))"
    and h: "p0 = nullptr \<and> hp_live (vdc_heap stB) = (dtbl, nat (max 1 (4 * vp_height ?stA))) # (tbl, nat (4 * lines_count ?stA)) # hp_live (vdc_heap st)
       \<and> hp_allocs (vdc_heap stB) = hp_allocs (vdc_heap st) + 2 \<and> hp_frees (vdc_heap stB) = hp_frees (vdc_heap st)
     \<or> p0 \<noteq> nullptr \<and> p0 \<notin> set (tbl # dtbl # map fst (hp_live (vdc_heap st))) \<and>
       hp_live (vdc_heap stB) = (dtbl, nat (max 1 (4 * vp_height ?stA))) # (p0, nat (vp_width ?stA * lines_count ?stA)) # (tbl, nat (4 * lines_count ?stA)) # hp_live (vdc_heap st)
       \<and> hp_allocs (vdc_heap stB) = hp_allocs (vdc_heap st) + 3 \<and> hp_frees (vdc_heap stB) = hp_frees (vdc_heap st)"
    by (rule allocateViewPort_Inr[OF wfA a, unfolded e])
  have dt: "dma_lines_tbl stB = dtbl" using arg_cong[OF st, of dma_lines_tbl] by simp
  have l: "set (hp_live (vdc_heap st)) \<subseteq> set (hp_live (vdc_heap stB))" using h by auto
  show "set (hp_live (vdc_heap st)) \<subseteq> set (hp_live (vdc_heap st'))"
    using l fillVertBuffers_keeps_heap[OF f] by simp
  show "dma_lines_tbl st' \<notin> fst ` set (hp_live (vdc_heap st))"
    using d dt fillVertBuffers_keeps_heap[OF f] by auto
qed

section \<open>Two controllers\<close>

lemma local_desc_SomeD: "local_desc i p = Some d \<Longrightarrow> p = Some (i, d)"
  by (auto simp: local_desc_def split: option.splits if_splits)

lemma local_desc_other [simp]: "a \<noteq> b \<Longrightarrow> local_desc a (Some (b, d)) = None"
  by (simp add: local_desc_def)

lemma local_desc_other_map [simp]: "a \<noteq> b \<Longrightarrow> local_desc a (map_option (Pair b) p) = None"
  by (cases p) (simp_all add: local_desc_def)

lemma objs_put_other [simp]:
  "a \<noteq> i \<Longrightarrow> objs (obj_put w i st) ! a = objs w ! a"
  "a \<noteq> i \<Longrightarrow> objs (obj_put_descs w i st) ! a = objs w ! a"
  "a \<noteq> i \<Longrightarrow> objs (w_run i w) ! a = objs w ! a"
  by (simp_all add: obj_put_descs_def obj_put_def w_run_def Let_def)

lemma statics_put [simp]:
  "s_frameResetDesc (glob (obj_put w i st)) = s_frameResetDesc (glob w)"
  "s_DMALines (glob (obj_put w i st)) = s_DMALines (glob w)"
  "s_scanLine (glob (obj_put w i st)) = scan_line st"
  "s_DMALines (glob (obj_put_descs w i st)) = map (map_option (Pair i)) (dma_lines st)"
  by (simp_all add: obj_put_descs_def obj_put_def Let_def)

lemma w_run_shared [simp]:
  "w_heap (w_run i w) = w_heap w" "s_DMALines_tbl (glob (w_run i w)) = s_DMALines_tbl (glob w)"
  "s_frameResetDesc (glob (w_run i w)) = s_frameResetDesc (glob w)"
  "s_DMALines (glob (w_run i w)) = s_DMALines (glob w)" "s_scanLine (glob (w_run i w)) = 0"
  by (simp_all add: w_run_def obj_put_def obj_view_def run_def Let_def)

lemma obj_put_descs_shared [simp]:
  "w_heap (obj_put_descs w i st) = vdc_heap st"
  "s_DMALines_tbl (glob (obj_put_descs w i st)) = dma_lines_tbl st"
  by (simp_all add: obj_put_descs_def obj_put_def Let_def)

lemma obj_put_descs_frame_reset:
  "frame_reset_desc st = Some d \<Longrightarrow> s_frameResetDesc (glob (obj_put_descs w i st)) = Some (i, d)"
  by (auto simp: obj_put_descs_def obj_put_def Let_def dest: local_desc_SomeD [OF sym])

lemma w_setResolution_Inr:
  assumes "draw_cb (objs w ! b) \<noteq> None"
    and "w_setResolution blank tm vw vh db b w = Inr w'"
  obtains st' where "base_setResolution blank tm vw vh (obj_view w b) = Inr st'"
    "w' = (if auto_run st' then w_run b (obj_put_descs w b st') else obj_put_descs w b st')"
  using assms by (auto simp: w_setResolution_def obj_view_def ebind_Inr_iff Let_def)

lemma isr_render_scan_line:
  "isr_render st = Inr (c, st') \<Longrightarrow> scan_line st' = scan_line st + lines_count st sdiv 2"
  by (auto simp: isr_render_def Let_def ebind_case split: if_splits sum.splits option.splits)

text \<open>
  One interrupt of controller \<open>a\<close>: the shared counter restarts exactly when the
  completed descriptor is the shared frame-reset marker, whichever controller owns it,
  and then advances by \<open>a\<close>'s \<open>m_linesCount / 2\<close>.
\<close>

lemma w_ISRHandler_scan_line:
  assumes "w_ISRHandler a True desc w = Inr (c, w'')"
  shows "s_scanLine (glob w'') =
           (if s_frameResetDesc (glob w) = Some desc then 0 else s_scanLine (glob w)) +
           lines_count (objs w ! a) sdiv 2"
proof -
  obtain c' st' where r: "isr_render (obj_view (w_isr_detect_wrap w desc) a) = Inr (c', st')"
    and w'': "w'' = obj_put (w_isr_detect_wrap w desc) a st'"
    using assms by (auto simp: w_ISRHandler_def Let_def ebind_Inr_iff)
  show ?thesis
    using isr_render_scan_line[OF r] w'' by (simp add: obj_view_def w_isr_detect_wrap_def)
qed

lemma w_setScanlineBuffer_foreign:
  assumes "\<forall>e \<in> set (s_DMALines (glob w)). local_desc a e = None"
    and "w_setScanlineBuffer w v buf = Inr w''"
  shows "objs w'' ! a = objs w ! a"
proof -
  obtain j d where e: "c_index (s_DMALines (glob w)) v = Inr (Some (j, d))"
    and w'': "w'' = w\<lparr>objs := (objs w)[j := (objs w ! j)\<lparr>chain :=
                      (chain (objs w ! j))[d := (chain (objs w ! j) ! d)\<lparr>desc_buf := buf\<rparr>]\<rparr>]\<rparr>"
    using assms(2) by (auto simp: w_setScanlineBuffer_def ebind_Inr_iff split: option.splits if_splits)
  have "Some (j, d) \<in> set (s_DMALines (glob w))"
    using e by (rule c_index_in_set)
  then have "j \<noteq> a" using assms(1) by (auto simp: local_desc_def)
  then show ?thesis by (simp add: w'')
qed

section \<open>Properties\<close>

text \<open>
  With a single controller the world model is the model of the other theories:
  on the world of one controller, \<open>setResolution\<close>, \<open>run\<close>, the interrupt handler,
  \<open>setScanlineBuffer\<close>, \<open>getScanlineBuffer\<close> and \<open>VSync\<close> give the world of the
  single-object result, and \<open>instance()\<close> names that controller.
\<close>

theorem single_controller_refines:
  "w_setResolution blank tm vw vh db 0 (world_of st) = map_sum id world_of (setResolution blank tm vw vh db st) \<and>
   w_run 0 (world_of st) = world_of (run st) \<and>
   w_ISRHandler 0 e (0, d) (world_of st) = map_sum id (apsnd world_of) (ISRHandler st e d) \<and>
   w_setScanlineBuffer (world_of st) v b = map_sum id world_of (setScanlineBuffer st v b) \<and>
   w_getScanlineBuffer (world_of st) v = getScanlineBuffer st v \<and>
   w_VSync (world_of st) = VSync st \<and> get_instance (world_of st) = Some 0"
proof -
  have "w_VSync (world_of st) = VSync st \<and> get_instance (world_of st) = Some 0"
    by (simp add: w_VSync_def VSync_def get_instance_def world_of_def)
  then show ?thesis
    by (simp add: w_setResolution_world_of w_run_world_of w_ISRHandler_world_of
        w_setScanlineBuffer_world_of w_getScanlineBuffer_world_of)
qed

text \<open>
  C20. Nothing enforces a single controller, and the statics are shared. Once a second
  controller \<open>b\<close> is configured (with a callback, a positive height and scan count),
  the first controller \<open>a\<close> keeps its own fields, but the statics now belong to \<open>b\<close>:
  \<^item> the frame-reset marker is \<open>b\<close>'s first descriptor. \<open>a\<close>'s handler, still installed
    on the one I2S interrupt, restarts the frame when \<open>b\<close>'s marker completes, and no
    longer when \<open>a\<close>'s own first descriptor does;
  \<^item> no entry of \<open>s_DMALines\<close> points into \<open>a\<close>'s chain, so \<open>setScanlineBuffer\<close> no
    longer reaches \<open>a\<close>'s descriptors;
  \<^item> with \<open>autoRun\<close>, \<open>b\<close>'s \<open>run()\<close> resets the counter \<open>a\<close> renders from.
\<close>

theorem second_controller_takes_statics:
  assumes ab: "a \<noteq> b" and cb: "draw_cb (objs w ! b) \<noteq> None"
    and S: "0 < t_scan_count tm" and H: "0 < vp_dim vh (t_vvisible tm)"
    and ok: "w_setResolution blank tm vw vh db b w = Inr w'"
  shows "objs w' ! a = objs w ! a \<and> s_frameResetDesc (glob w') = Some (b, 0) \<and>
    (\<forall>c w''. w_ISRHandler a True (b, 0) w' = Inr (c, w'') \<longrightarrow>
        s_scanLine (glob w'') = lines_count (objs w ! a) sdiv 2) \<and>
    (\<forall>d c w''. w_ISRHandler a True (a, d) w' = Inr (c, w'') \<longrightarrow>
        s_scanLine (glob w'') = s_scanLine (glob w') + lines_count (objs w ! a) sdiv 2) \<and>
    (\<forall>e \<in> set (s_DMALines (glob w')). local_desc a e = None) \<and>
    (\<forall>v buf w''. w_setScanlineBuffer w' v buf = Inr w'' \<longrightarrow> objs w'' ! a = objs w ! a) \<and>
    (auto_run (objs w ! b) \<longrightarrow> s_scanLine (glob w') = 0)"
proof -
  obtain st' where base: "base_setResolution blank tm vw vh (obj_view w b) = Inr st'"
    and w': "w' = (if auto_run st' then w_run b (obj_put_descs w b st') else obj_put_descs w b st')"
    using w_setResolution_Inr[OF cb ok] by blast
  have fr: "s_frameResetDesc (glob w') = Some (b, 0)"
    using obj_put_descs_frame_reset[OF base_setResolution_frame_reset[OF base S H]]
    by (simp add: w' w_run_def)
  have objs_a: "objs w' ! a = objs w ! a" using ab by (simp add: w')
  have tbl: "\<forall>e \<in> set (s_DMALines (glob w')). local_desc a e = None"
    using ab by (auto simp: w' w_run_def)
  have ar: "auto_run st' = auto_run (objs w ! b)"
    using base_setResolution_auto_run[OF base] by (simp add: obj_view_def)
  have run0: "auto_run (objs w ! b) \<longrightarrow> s_scanLine (glob w') = 0"
    using ar by (simp add: w' w_run_def run_def Let_def)
  have isr_b: "\<forall>c w''. w_ISRHandler a True (b, 0) w' = Inr (c, w'') \<longrightarrow>
        s_scanLine (glob w'') = lines_count (objs w ! a) sdiv 2"
    using w_ISRHandler_scan_line[of a "(b, 0)" w'] fr objs_a by simp
  have isr_a: "\<forall>d c w''. w_ISRHandler a True (a, d) w' = Inr (c, w'') \<longrightarrow>
        s_scanLine (glob w'') = s_scanLine (glob w') + lines_count (objs w ! a) sdiv 2"
    using w_ISRHandler_scan_line[of a _ w'] fr ab objs_a by simp
  show ?thesis
    using objs_a fr isr_b isr_a tbl run0 w_setScanlineBuffer_foreign[OF tbl] by simp
qed

text \<open>
  C21. The first controller's \<open>s_DMALines\<close> array leaks when a second controller is
  configured. A controller that has no chain yet skips \<open>end()\<close> and frees nothing,
  and its \<open>allocateViewPort()\<close> overwrites the static with a new array. The array
  the static pointed to stays allocated, and the static no longer points to it.
\<close>

theorem second_controller_leaks_table:
  assumes wf: "heap_wf (w_heap w)" and fresh: "chain (objs w ! b) = []"
    and cb: "draw_cb (objs w ! b) \<noteq> None"
    and live: "s_DMALines_tbl (glob w) \<in> fst ` set (hp_live (w_heap w))"
    and ok: "w_setResolution blank tm vw vh db b w = Inr w'"
  shows "s_DMALines_tbl (glob w) \<in> fst ` set (hp_live (w_heap w')) \<and>
         s_DMALines_tbl (glob w') \<noteq> s_DMALines_tbl (glob w)"
proof -
  obtain st' where base: "base_setResolution blank tm vw vh (obj_view w b) = Inr st'"
    and w': "w' = (if auto_run st' then w_run b (obj_put_descs w b st') else obj_put_descs w b st')"
    using w_setResolution_Inr[OF cb ok] by blast
  have v: "chain (obj_view w b) = []" "vdc_heap (obj_view w b) = w_heap w"
    using fresh by (simp_all add: obj_view_def)
  note l = base_setResolution_fresh_heap[OF v(1) _ base, unfolded v(2), OF wf]
  have g: "w_heap w' = vdc_heap st'" "s_DMALines_tbl (glob w') = dma_lines_tbl st'"
    by (simp_all add: w')
  have "s_DMALines_tbl (glob w) \<in> fst ` set (hp_live (w_heap w'))" using l(1) live g(1) by auto
  moreover have "s_DMALines_tbl (glob w') \<noteq> s_DMALines_tbl (glob w)" by (metis g(2) l(2) live)
  ultimately show ?thesis ..
qed

text \<open>
  The concrete program: controller 0 is configured and running, then controller 1 is
  configured.
\<close>

lemma demo_two_configured:
  "\<exists>w1 w2. w_setResolution 0 demo_timings (-1) (-1) False 0 demo_world2 = Inr w1 \<and>
     w_setResolution 0 demo_timings (-1) (-1) False 1 w1 = Inr w2 \<and>
     heap_wf (w_heap w1) \<and> chain (objs w1 ! 1) = [] \<and> draw_cb (objs w1 ! 1) \<noteq> None \<and>
     auto_run (objs w1 ! 1) \<and> s_frameResetDesc (glob w1) = Some (0, 0) \<and>
     s_DMALines_tbl (glob w1) \<in> fst ` set (hp_live (w_heap w1))"
  by (simp add: w_setResolution_def base_setResolution_def base_end_def demo_cfg_def demo_vdc_def
      VGADirectController_def demo_timings_def vp_dim_def allocateViewPort_def demo_heap_def
      heap_caps_malloc_def cxx_new_array_def lines_loop_pool_rows [unfolded One_nat_def]
      fillVertBuffers_def onSetupDMABuffer_def c_index_def c_update_def c_mod_def pool_rows_def
      upt_rec Let_def blank_desc_def c_arith obj_view_def demo_world2_def local_desc_def
      obj_put_descs_def obj_put_def w_run_def run_def heap_wf_def)

lemma second_controller_takes_statics_witness:
  "\<exists>w1 w2. w_setResolution 0 demo_timings (-1) (-1) False 0 demo_world2 = Inr w1 \<and>
      w_setResolution 0 demo_timings (-1) (-1) False 1 w1 = Inr w2 \<and>
      s_frameResetDesc (glob w1) = Some (0, 0) \<and>
      objs w2 ! 0 = objs w1 ! 0 \<and> s_frameResetDesc (glob w2) = Some (1, 0) \<and> s_scanLine (glob w2) = 0 \<and>
      (\<forall>e \<in> set (s_DMALines (glob w2)). local_desc 0 e = None)"
proof -
  obtain w1 w2 where w: "w_setResolution 0 demo_timings (-1) (-1) False 0 demo_world2 = Inr w1"
    "w_setResolution 0 demo_timings (-1) (-1) False 1 w1 = Inr w2"
    "draw_cb (objs w1 ! 1) \<noteq> None" "auto_run (objs w1 ! 1)" "s_frameResetDesc (glob w1) = Some (0, 0)"
    using demo_two_configured by blast
  have t: "0 < t_scan_count demo_timings" "0 < vp_dim (-1) (t_vvisible demo_timings)"
    by (simp_all add: demo_timings_def vp_dim_def)
  show ?thesis
    using second_controller_takes_statics[of 0 1 w1 demo_timings "-1" 0 "-1" False w2] w t
    by auto
qed

lemma second_controller_leaks_table_witness:
  "\<exists>w1 w2. w_setResolution 0 demo_timings (-1) (-1) False 0 demo_world2 = Inr w1 \<and>
      w_setResolution 0 demo_timings (-1) (-1) False 1 w1 = Inr w2 \<and>
      s_DMALines_tbl (glob w1) \<in> fst ` set (hp_live (w_heap w2)) \<and>
      s_DMALines_tbl (glob w2) \<noteq> s_DMALines_tbl (glob w1)"
proof -
  obtain w1 w2 where w: "w_setResolution 0 demo_timings (-1) (-1) False 0 demo_world2 = Inr w1"
    "w_setResolution 0 demo_timings (-1) (-1) False 1 w1 = Inr w2"
    "heap_wf (w_heap w1)" "chain (objs w1 ! 1) = []" "draw_cb (objs w1 ! 1) \<noteq> None"
    "s_DMALines_tbl (glob w1) \<in> fst ` set (hp_live (w_heap w1))"
    using demo_two_configured by blast
  show ?thesis
    using second_controller_leaks_table[of w1 1 0 demo_timings "-1" "-1" False w2] w by blast
qed

end
