(* ===== verification/Spec2Isabelle.thy ===== *)
theory Spec2Isabelle
  imports PipelineInv Drawing KbdLayouts StreamIface Instances
begin

text \<open>
  \<^bold>\<open>A verification model of fabgl's VGADirectController (userspace-vdp-gl).\<close>

  \<^bold>\<open>The program.\<close> \<open>VGADirectController\<close> (src/src/dispdrivers/vgadirectcontroller.h
  and .cpp) produces VGA video without a frame buffer. At \<open>setResolution\<close> time it
  allocates a pool of \<open>P = m_linesCount\<close> DMA-capable row buffers
  (\<open>allocateViewPort\<close>). It then builds one DMA descriptor per transmission slot of a
  frame. The base controller does this by calling the hook \<open>onSetupDMABuffer\<close>, which
  binds visible row \<open>v\<close> to buffer \<open>v mod P\<close> and puts an \<open>eof\<close> bit on the first scan of
  every \<open>P/2\<close>-th row. The I2S engine walks the descriptor ring forever. On every
  \<open>eof\<close> it raises an interrupt whose handler \<open>ISRHandler\<close> does two things:
  \<^item> it resets the production state (\<open>s_scanLine\<close>, \<open>s_VSync\<close>) when the descriptor is
    the frame-reset marker;
  \<^item> it calls the user's \<open>DrawScanlineCallback\<close> to render the \<open>P/2\<close> rows half a pool
    ahead into the other half of the pool.
  \<open>readScreen\<close> renders rows synchronously and decodes the packed pixels. The drawing
  primitives are empty hooks. kbdlayouts.h holds static keyboard-layout tables.

  \<^bold>\<open>Theories and correspondence.\<close>
  \<^item> \<open>Prelude\<close>: the types (addresses, rows of \<open>8 word\<close>, memory, the callback), the
    error type \<open>vdc_error\<close> that turns every crash or undefined behaviour of the C++ code
    into an \<open>Inl\<close> value, the error monad \<open>ebind\<close>, and the C operators:
    \<^item> truncating \<open>/\<close> and \<open>%\<close> as \<open>sdiv\<close>/\<open>smod\<close>, failing on a zero divisor;
    \<^item> array reads and writes that fail out of range;
    \<^item> a heap model of \<open>heap_caps_malloc\<close>/\<open>heap_caps_free\<close>/\<open>new[]\<close>.
    It also holds the generic lemmas on them, on bits and on division.
  \<^item> \<open>Controller\<close>: the record \<open>vdc\<close> of the object's fields, the statics \<open>s_scanLine\<close>,
    \<open>s_VSync\<close>, \<open>s_frameResetDesc\<close> and \<open>s_DMALines\<close>, and the base fields the methods read.
    Also the constructor and the inline members of the header.
  \<^item> \<open>BufferPool\<close>: \<open>allocateViewPort\<close> (with the loop \<open>lines_loop\<close>), \<open>freeViewPort\<close>,
    \<open>getDefaultScanlineBuffer\<close>.
  \<^item> \<open>DMAChain\<close>: \<open>onSetupDMABuffer\<close>, \<open>setScanlineBuffer\<close> and \<open>getScanlineBuffer\<close>.
    The base class's frame builder \<open>fillVertBuffers\<close>/\<open>setup_descs\<close> is written from
    the specification; it is not in the repository.
  \<^item> \<open>Producer\<close>: \<open>ISRHandler\<close> as \<open>isr_detect_wrap\<close> followed by \<open>isr_render\<close>; the
    callback's effect \<open>fill_rows\<close> (it fills \<open>P/2\<close> consecutive rows); runs of
    interrupts \<open>isr_run\<close>.
  \<^item> \<open>Configurator\<close>: \<open>setResolution\<close> and \<open>run\<close>, over the base class's \<open>end()\<close> and
    \<open>setResolution\<close>, which are written from the specification.
  \<^item> \<open>Pipeline\<close>: the DMA engine (spec-modelled: one slot per step, \<open>dma_slot\<close>, and
    runs \<open>pipe_run\<close>) together with the handler.
  \<^item> \<open>PipelineInv\<close>: the same system as the inductive step relation \<open>pipe_reach\<close> with
    its invariant \<open>pipe_inv\<close>.
  \<^item> \<open>ReadBack\<close>: \<open>readScreen\<close> with its loops \<open>read_rows\<close>/\<open>read_cols\<close> and
    \<open>decode_pixel\<close>, over unbounded integers.
  \<^item> \<open>StreamIface\<close>: the abstract class \<open>Stream\<close> as a record of its virtual methods.
  \<^item> \<open>Drawing\<close>: the empty drawing overrides.
  \<^item> \<open>KbdLayouts\<close>: the layout records and the \<open>SupportedLayouts\<close> tables.
  \<^item> \<open>Instances\<close>: a program with several controllers. A \<open>world\<close> holds an object store
    of \<open>vdc\<close> records, the record \<open>statics\<close> (\<open>s_instance\<close>, \<open>s_scanLine\<close>, \<open>s_VSync\<close>,
    \<open>s_frameResetDesc\<close>, \<open>s_DMALines\<close>, cpp lines 66-72), and the memory, heap and I2S
    flags that all objects share. A shared descriptor pointer names the object whose
    arena holds it. \<open>instance()\<close> is \<open>get_instance\<close>. The member functions
    (\<open>w_setResolution\<close>, \<open>w_run\<close>, ...) run the single-object definitions on the
    object's view of the world (\<open>obj_view\<close>) and write the result back (\<open>obj_put\<close>;
    the store keeps only the object's own fields). The handler \<open>w_ISRHandler\<close>
    compares the descriptor the one I2S peripheral completed, which may belong to any
    controller, with the shared marker (\<open>w_isr_detect_wrap\<close>), then renders on the
    object's view. \<open>setScanlineBuffer\<close>/\<open>getScanlineBuffer\<close> follow the static table
    and do not use \<open>this\<close>.
  Every operation that changes state takes the \<open>vdc\<close> record (in \<open>Instances\<close>, the
  world) and returns it updated, in \<open>vdc_error + _\<close>.

  \<^bold>\<open>What is proved.\<close>
  \<^item> The end-to-end property (\<open>setResolution_pipeline_shows_rows\<close>). After
    \<open>setResolution\<close> with a pool \<open>P = 2^(k+1)\<close> and a height \<open>H\<close> that is a multiple of
    \<open>P\<close>, every visible slot of every frame transmits the callback's rendering of its
    own row. The only exception is the first \<open>P/2\<close> rows of the first frame. The proof
    goes by induction over blocks (\<open>pipe_block\<close>), frames (\<open>pipe_frame\<close>) and runs
    of frames (\<open>pipe_frames\<close>).
  \<^item> Non-interference (\<open>pipe_isr_spares_transmitted_half\<close>). The handler never writes
    the half of the pool being transmitted.
  \<^item> Invariants of the production state, by rule induction on \<open>pipe_reach\<close>:
    \<^item> the counter lies in \<open>[0, H]\<close> and counts the blocks started;
    \<^item> the exact timing of \<open>VSync()\<close>;
    \<^item> the 32-bit arithmetic never wraps;
    \<^item> runs of any length never fault;
    \<^item> \<open>VSync()\<close> is cleared and raised again in every frame.
  \<^item> The behaviour of each operation, including its error branches: \<open>ISRHandler\<close>,
    \<open>onSetupDMABuffer\<close> and the frame builder, \<open>setResolution\<close>/\<open>run\<close> (one interrupt
    allocation, one release per reconfiguration, \<open>s_VSync\<close> kept across it), and the
    buffer API round trips.
  \<^item> Read-back: the spec's constant-row property; the whole result of \<open>readScreen\<close>,
    including the callback's rendering of row \<open>Y2\<close> that it leaves in \<open>m_lines[0]\<close>,
    a buffer the running chain transmits; the pixel decoding round trip and its four
    output levels; the null-callback and null-table errors.
  \<^item> Consistency of the keyboard-layout tables.
  \<^item> Several controllers (\<open>Instances\<close>):
    \<^item> nothing enforces the spec's single instance. Configuring a second controller
      takes over the shared frame-reset marker and scanline table. The first
      controller's handler, which reads the one I2S peripheral, then restarts its
      frame at the second controller's marker and never at its own first descriptor
      (\<open>second_controller_takes_statics\<close>);
    \<^item> configuring the second controller leaks the first one's \<open>s_DMALines\<close> array
      (\<open>second_controller_leaks_table\<close>).
    With one controller, the world model agrees with the single-object model
    (\<open>single_controller_refines\<close>, a consistency lemma of the model).
  \<^item> Several properties record deviations from the specification:
    \<^item> \<open>freeViewPort\<close> twice faults;
    \<^item> a pool allocation that does not fit is not detected, for every heap
      (\<open>allocateViewPort_pool_failure_unchecked\<close>);
    \<^item> with any pool size that is not a power of two, scanline \<open>P\<close> is rendered into a
      buffer that the chain does not transmit for row \<open>P\<close>
      (\<open>ISRHandler_non_pow2_misplaces\<close>);
    \<^item> \<open>setScanlineBuffer\<close> rebinding one scan only.

  \<^bold>\<open>Bounds and fuel.\<close> The engine never stops, so \<open>pipe_run\<close> is a structural recursion
  on the number of observed slots. The theorems hold for every such horizon. The
  liveness theorem \<open>pipe_runs_forever\<close> shows that no horizon reaches a fault. There are
  two preconditions, and both come from the code or the specification:
  \<^item> \<open>H mod P = 0\<close>: the block-wise proof needs it, and the specification does not
    require it (a finding);
  \<^item> \<open>P\<close> a power of two: the handler's mask \<open>scanLine & (P - 1)\<close> needs it.
  The model's integers are unbounded. \<open>Rect\<close> has \<open>int16_t\<close> fields, so the \<open>int\<close>
  counters of \<open>readScreen\<close> cannot overflow. \<open>pipe_reach_int32\<close> shows that the handler's
  32-bit additions stay in range whenever \<open>H + P/2 < 2^31\<close>.

  \<^bold>\<open>Not modelled.\<close>
  \<^item> The register-level I2S, GPIO and interrupt-matrix configuration
    (\<open>startGPIOStream\<close>, \<open>esp_intr_alloc_pinnedToCore\<close>, cycle counters). These are
    recorded only as flags and a counter in the state.
  \<^item> The interrupt status acknowledge.
  \<^item> \<open>init()\<close>: it only forwards to the base class and clears a base-class flag that no
    modelled code reads.
  \<^item> \<open>nativePixelFormat()\<close>: it returns a constant (\<open>SBGR2222\<close>) that only the base
    class's drawing code reads. The packing it names is used by \<open>decode_pixel\<close>.
  \<^item> The userspace build's \<open>#ifdef USERSPACE\<close> branches, where the DMA code is
    compiled out.
  \<^item> Timing: the handler is assumed to finish before the next descriptor is consumed.
  \<^item> The contents of the keyboard layouts (in kbdlayouts.cpp, not in this repository).
  \<^item> Behaviour behind \<open>Stream.h\<close>: the interface is modelled, but no class of the
    repository implements it and no modelled code calls it.
\<close>

end
